(* ===== verification/Prelude.thy ===== *)
theory Prelude
  imports Main "HOL-Library.Word"
begin

text \<open>
  Prelude of the development: fallible computations, fixed-width integer operations and the
  generic facts on options, lists, finite sums and words that every component uses.

  \<^item> A fallible Rust computation is a value of type \<open>'e failure + 'a\<close>. \<open>Raised e\<close> is an error of
    the program's own error enum, \<open>Constraint\<close> an account constraint rejected by the framework
    before the handler body runs, \<open>External\<close> an error returned by another on-chain program, and
    \<open>Panic\<close> an arithmetic or indexing panic (the release profile keeps overflow checks on and
    aborts, so a panic fails the transaction).
  \<^item> Unsigned machine integers are natural numbers; the operations below write out the width at
    every place where the source checks, saturates or casts. Bitmap words and the 256-bit
    arithmetic are machine words.
\<close>

named_theorems res_simps \<open>inversion of fallible computations that return\<close>
named_theorems num_simps \<open>inversion of the checked integer operations\<close>

datatype 'e failure = Raised 'e | Constraint | External | Panic

fun bindR :: "'f + 'a \<Rightarrow> ('a \<Rightarrow> 'f + 'b) \<Rightarrow> 'f + 'b" where
  "bindR (Inl e) f = Inl e"
| "bindR (Inr x) f = f x"

definition ensure :: "bool \<Rightarrow> 'f \<Rightarrow> 'f + unit" where
  "ensure c e = (if c then Inr () else Inl e)"

fun ok_or :: "'a option \<Rightarrow> 'f \<Rightarrow> 'f + 'a" where
  "ok_or None e = Inl e"
| "ok_or (Some x) e = Inr x"

fun map_err :: "('e \<Rightarrow> 'f) \<Rightarrow> 'e + 'a \<Rightarrow> 'f + 'a" where
  "map_err g (Inl e) = Inl (g e)"
| "map_err g (Inr x) = Inr x"

text \<open>A \<open>for\<close> loop over a list whose body may return early with an error.\<close>

fun foldR :: "('s \<Rightarrow> 'a \<Rightarrow> 'f + 's) \<Rightarrow> 's \<Rightarrow> 'a list \<Rightarrow> 'f + 's" where
  "foldR f s [] = Inr s"
| "foldR f s (x # xs) = bindR (f s x) (\<lambda>s. foldR f s xs)"

lemma bindR_Inr [res_simps]: "bindR r f = Inr y \<longleftrightarrow> (\<exists>x. r = Inr x \<and> f x = Inr y)"
  by (cases r) auto

lemma bindR_Inl: "bindR r f = Inl e \<longleftrightarrow> r = Inl e \<or> (\<exists>x. r = Inr x \<and> f x = Inl e)"
  by (cases r) auto

lemma ensure_Inr [res_simps]: "ensure c e = Inr u \<longleftrightarrow> c"
  by (simp add: ensure_def)

lemma ensure_Inl: "ensure c e = Inl d \<longleftrightarrow> \<not> c \<and> d = e"
  by (auto simp: ensure_def)

lemma ensure_eval [simp]: "ensure True e = Inr ()" "ensure False e = Inl e"
  by (simp_all add: ensure_def)

lemma ok_or_Inr [res_simps]: "ok_or r e = Inr x \<longleftrightarrow> r = Some x"
  by (cases r) auto

lemma case_option_Some [res_simps]:
  "(case r of None \<Rightarrow> None | Some x \<Rightarrow> f x) = Some y \<longleftrightarrow> (\<exists>x. r = Some x \<and> f x = Some y)"
  by (cases r) auto

lemma case_prod_Inr [res_simps]: "(case r of (a, b) \<Rightarrow> f a b) = Inr y \<longleftrightarrow> (\<exists>a b. r = (a, b) \<and> f a b = Inr y)"
  by (cases r) auto

lemma if_Inr: "(if c then r else s) = Inr y \<longleftrightarrow> c \<and> r = Inr y \<or> \<not> c \<and> s = Inr y"
  by auto

lemma map_err_Inr [res_simps]: "map_err g r = Inr x \<longleftrightarrow> r = Inr x"
  by (cases r) auto

lemma foldR_append: "foldR f s (xs @ ys) = bindR (foldR f s xs) (\<lambda>s. foldR f s ys)"
proof (induction xs arbitrary: s)
  case (Cons x xs)
  then show ?case by (cases "f s x") auto
qed simp

lemma foldR_invariant:
  assumes "foldR f s xs = Inr s'" "P s"
    and "\<And>s x s'. P s \<Longrightarrow> x \<in> set xs \<Longrightarrow> f s x = Inr s' \<Longrightarrow> P s'"
  shows "P s'"
  using assms
proof (induction xs arbitrary: s)
  case (Cons x xs)
  from Cons.prems(1) obtain t where t: "f s x = Inr t" "foldR f t xs = Inr s'"
    by (auto simp: bindR_Inr)
  then have "P t" using Cons.prems(2) Cons.prems(3) [of s x t] by simp
  with t(2) show ?case by (rule Cons.IH) (rule Cons.prems(3); simp)
qed simp

subsection \<open>Fixed-width integers\<close>

definition checked_add :: "nat \<Rightarrow> nat \<Rightarrow> nat \<Rightarrow> nat option" where
  "checked_add w a b = (if a + b < 2 ^ w then Some (a + b) else None)"

definition checked_sub :: "nat \<Rightarrow> nat \<Rightarrow> nat option" where
  "checked_sub a b = (if b \<le> a then Some (a - b) else None)"

definition checked_mul :: "nat \<Rightarrow> nat \<Rightarrow> nat \<Rightarrow> nat option" where
  "checked_mul w a b = (if a * b < 2 ^ w then Some (a * b) else None)"

definition saturating_mul :: "nat \<Rightarrow> nat \<Rightarrow> nat \<Rightarrow> nat" where
  "saturating_mul w a b = min (a * b) (2 ^ w - 1)"

definition saturating_add :: "nat \<Rightarrow> nat \<Rightarrow> nat \<Rightarrow> nat" where
  "saturating_add w a b = min (a + b) (2 ^ w - 1)"

text \<open>\<open>uN::try_from\<close> on a wider unsigned value.\<close>

definition try_from :: "nat \<Rightarrow> nat \<Rightarrow> nat option" where
  "try_from w a = (if a < 2 ^ w then Some a else None)"

text \<open>Unchecked operators panic when the result leaves the width.\<close>

definition add_or_panic :: "nat \<Rightarrow> nat \<Rightarrow> nat \<Rightarrow> 'e failure + nat" where
  "add_or_panic w a b = ok_or (checked_add w a b) Panic"

definition sub_or_panic :: "nat \<Rightarrow> nat \<Rightarrow> 'e failure + nat" where
  "sub_or_panic a b = ok_or (checked_sub a b) Panic"

definition mul_or_panic :: "nat \<Rightarrow> nat \<Rightarrow> nat \<Rightarrow> 'e failure + nat" where
  "mul_or_panic w a b = ok_or (checked_mul w a b) Panic"

text \<open>Saturating operations on signed 64-bit integers.\<close>

definition i64_sat :: "int \<Rightarrow> int" where
  "i64_sat x = max (- (2 ^ 63)) (min x (2 ^ 63 - 1))"

lemma checked_add_Some [num_simps]: "checked_add w a b = Some c \<longleftrightarrow> c = a + b \<and> a + b < 2 ^ w"
  by (auto simp: checked_add_def)

lemma checked_sub_Some [num_simps]: "checked_sub a b = Some c \<longleftrightarrow> c = a - b \<and> b \<le> a"
  by (auto simp: checked_sub_def)

lemma checked_mul_Some [num_simps]: "checked_mul w a b = Some c \<longleftrightarrow> c = a * b \<and> a * b < 2 ^ w"
  by (auto simp: checked_mul_def)

lemma try_from_Some [num_simps]: "try_from w a = Some c \<longleftrightarrow> c = a \<and> a < 2 ^ w"
  by (auto simp: try_from_def)

lemma add_or_panic_Inr [num_simps]: "add_or_panic w a b = Inr c \<longleftrightarrow> c = a + b \<and> a + b < 2 ^ w"
  by (auto simp: add_or_panic_def res_simps num_simps)

lemma sub_or_panic_Inr [num_simps]: "sub_or_panic a b = Inr c \<longleftrightarrow> c = a - b \<and> b \<le> a"
  by (auto simp: sub_or_panic_def res_simps num_simps)

lemma mul_or_panic_Inr [num_simps]: "mul_or_panic w a b = Inr c \<longleftrightarrow> c = a * b \<and> a * b < 2 ^ w"
  by (auto simp: mul_or_panic_def res_simps num_simps)

lemma saturating_add_bounds: "saturating_add w a b \<le> a + b" "saturating_add w a b < 2 ^ w"
  by (simp_all add: saturating_add_def min_less_iff_disj)

subsection \<open>Machine words\<close>

unbundle bit_operations_syntax

lemma unat_and_mask: "unat (w AND mask n :: 'a::len word) = unat w mod 2 ^ n"
  by (metis take_bit_eq_mask take_bit_eq_mod unsigned_take_bit_eq)

lemma unat_drop: "unat (drop_bit n w :: 'a::len word) = unat w div 2 ^ n"
  by (simp only: unsigned_drop_bit_eq unsigned_take_bit_eq [symmetric] take_bit_length_eq
      drop_bit_eq_div [where 'a = nat])

lemma unat_128_lt: "unat (w :: 128 word) < 2 ^ 128"
  using unsigned_less [of w] by simp

lemma or_push_add:
  assumes "unat x < 2 ^ n"
  shows "x OR push_bit n y = x + push_bit n (y :: 'a::len word)"
proof -
  have *: "take_bit n x = x" using assms
    by (metis take_bit_nat_eq_self_iff unsigned_take_bit_eq word_unat_eq_iff)
  have "x AND push_bit n y = 0"
    by (subst * [symmetric]) (auto intro!: bit_eqI simp: bit_simps)
  then show ?thesis by (simp add: disjunctive_add_eq_or)
qed

lemma unat_push_128: "unat (push_bit n w :: 128 word) = (unat w * 2 ^ n) mod 2 ^ 128"
  using unsigned_push_bit_eq [of n w, where 'a = nat]
  by (simp only: take_bit_eq_mod push_bit_eq_mult [where 'a = nat] len_num1 len_bit0 mult_1_right)
    simp

lemma unat_shift_or:
  assumes "unat b < 2"
  shows "unat (push_bit 1 w OR b :: 128 word) = (2 * unat w + unat b) mod 2 ^ 128"
proof -
  have "push_bit 1 w OR b = b + push_bit 1 w"
    using or_push_add [of b 1 w] assms by (simp add: or.commute)
  then have "unat (push_bit 1 w OR b) = (unat b + (unat w * 2) mod 2 ^ 128) mod 2 ^ 128"
    by (simp only: unat_word_ariths(1) unat_push_128 power_one_right) simp
  also have "\<dots> = (unat b + unat w * 2) mod 2 ^ 128" by (rule mod_add_right_eq)
  finally show ?thesis by (simp only: add.commute mult.commute)
qed

end
