(* ===== verification/Fixed_Point.thy ===== *)
theory Fixed_Point
  imports Prelude
begin

text \<open>
  Fixed-point money arithmetic, \<^verbatim>\<open>crates/fusd-math/src/lib.rs\<close>.

  The core of every product and quotient is \<open>wide_mul_div\<close>. The source gives it two bodies chosen
  at compile time: one over the 256-bit type of the \<^verbatim>\<open>bnum\<close> package and one written out in the crate
  (\<open>wide_mul\<close>, \<open>div_256_by_128\<close>). The second one is translated on machine words and the rest of the
  development computes with it; the first one takes the package's operations as an argument and is
  shown equal to it for every implementation with the documented behaviour of 256-bit integers.
\<close>

subsection \<open>Constants\<close>

definition WAD :: nat where "WAD = 1000000000000000000"
definition RAY :: nat where "RAY = 1000000000000000000000000000"
definition BPS_DENOMINATOR :: nat where "BPS_DENOMINATOR = 10000"

subsection \<open>The 256-bit product and quotient written out in the crate\<close>

definition wide_mul :: "128 word \<Rightarrow> 128 word \<Rightarrow> 128 word \<times> 128 word" where
  "wide_mul a b =
     (let m = mask 64;
          a0 = a AND m; a1 = drop_bit 64 a;
          b0 = b AND m; b1 = drop_bit 64 b;
          lo_lo = a0 * b0;
          mid1 = a1 * b0;
          mid2 = a0 * b1;
          hi_hi = a1 * b1;
          cross = drop_bit 64 lo_lo + (mid1 AND m) + (mid2 AND m);
          lo = (lo_lo AND m) OR push_bit 64 cross;
          hi = hi_hi + drop_bit 64 mid1 + drop_bit 64 mid2 + drop_bit 64 cross
      in (hi, lo))"

fun div_256_loop :: "128 word \<Rightarrow> 128 word \<Rightarrow> 128 word \<Rightarrow> nat \<Rightarrow> 128 word \<Rightarrow> 128 word \<Rightarrow> 128 word \<times> 128 word" where
  "div_256_loop hi lo denom 0 rem quo = (quo, rem)"
| "div_256_loop hi lo denom (Suc i) rem quo =
     (let b = (if i \<ge> 128 then drop_bit (i - 128) hi AND 1 else drop_bit i lo AND 1);
          carry = drop_bit 127 rem;
          rem = push_bit 1 rem OR b;
          quo = push_bit 1 quo
      in if carry = 1 \<or> rem \<ge> denom
         then div_256_loop hi lo denom i (rem - denom) (quo OR 1)
         else div_256_loop hi lo denom i rem quo)"

definition div_256_by_128 :: "128 word \<Rightarrow> 128 word \<Rightarrow> 128 word \<Rightarrow> (128 word \<times> 128 word) option" where
  "div_256_by_128 hi lo denom =
     (if hi \<ge> denom then None
      else if hi = 0 then Some (lo div denom, lo mod denom)
      else Some (div_256_loop hi lo denom 256 0 0))"

definition wide_mul_div_w :: "128 word \<Rightarrow> 128 word \<Rightarrow> 128 word \<Rightarrow> (128 word \<times> bool) option" where
  "wide_mul_div_w a b denom =
     (if denom = 0 then None
      else case wide_mul a b of (hi, lo) \<Rightarrow>
        (case div_256_by_128 hi lo denom of
           None \<Rightarrow> None
         | Some (q, r) \<Rightarrow> Some (q, r \<noteq> 0)))"

definition wide_muladd_div_w ::
    "128 word \<Rightarrow> 128 word \<Rightarrow> 128 word \<Rightarrow> 128 word \<Rightarrow> (128 word \<times> 128 word) option" where
  "wide_muladd_div_w a b add denom =
     (if denom = 0 then None
      else case wide_mul a b of (hi, lo) \<Rightarrow>
        (let lo' = lo + add;
             carry = unat lo + unat add \<ge> 2 ^ 128
         in div_256_by_128 (if carry then hi + 1 else hi) lo' denom))"

text \<open>
  The callers pass natural numbers. A number that is not a value of the 128-bit type has no
  counterpart in the source; the functions below are undefined (\<open>None\<close>) there.
\<close>

definition is_u128 :: "nat \<Rightarrow> bool" where "is_u128 n \<longleftrightarrow> n < 2 ^ 128"

definition wide_mul_div :: "nat \<Rightarrow> nat \<Rightarrow> nat \<Rightarrow> (nat \<times> bool) option" where
  "wide_mul_div a b denom =
     (if is_u128 a \<and> is_u128 b \<and> is_u128 denom
      then map_option (map_prod unat id) (wide_mul_div_w (of_nat a) (of_nat b) (of_nat denom))
      else None)"

definition wide_muladd_div :: "nat \<Rightarrow> nat \<Rightarrow> nat \<Rightarrow> nat \<Rightarrow> (nat \<times> nat) option" where
  "wide_muladd_div a b add denom =
     (if is_u128 a \<and> is_u128 b \<and> is_u128 add \<and> is_u128 denom
      then map_option (map_prod unat unat)
             (wide_muladd_div_w (of_nat a) (of_nat b) (of_nat add) (of_nat denom))
      else None)"

subsection \<open>The body over the 256-bit package\<close>

text \<open>
  The operations of the package's 256-bit unsigned type that the crate calls. The laws are the
  documented ones: conversion from 128 bits keeps the value, a product that fits 256 bits and a
  difference that is not negative are exact, the checked operations succeed exactly when they fit,
  division and remainder are those of the integers for a non-zero divisor, the narrowing
  conversion succeeds exactly on values of 128 bits and comparison is that of the integers.
\<close>

record 'u u256 =
  u_val :: "'u \<Rightarrow> nat"
  u_from :: "nat \<Rightarrow> 'u"
  u_mul :: "'u \<Rightarrow> 'u \<Rightarrow> 'u"
  u_sub :: "'u \<Rightarrow> 'u \<Rightarrow> 'u"
  u_div :: "'u \<Rightarrow> 'u \<Rightarrow> 'u"
  u_rem :: "'u \<Rightarrow> 'u \<Rightarrow> 'u"
  u_checked_mul :: "'u \<Rightarrow> 'u \<Rightarrow> 'u option"
  u_checked_add :: "'u \<Rightarrow> 'u \<Rightarrow> 'u option"
  u_less :: "'u \<Rightarrow> 'u \<Rightarrow> bool"
  u_is_zero :: "'u \<Rightarrow> bool"
  u_try_u128 :: "'u \<Rightarrow> nat option"

definition u256_laws :: "'u u256 \<Rightarrow> bool" where
  "u256_laws U \<longleftrightarrow>
     (\<forall>n < 2 ^ 128. u_val U (u_from U n) = n) \<and>
     (\<forall>x y. u_val U x * u_val U y < 2 ^ 256 \<longrightarrow> u_val U (u_mul U x y) = u_val U x * u_val U y) \<and>
     (\<forall>x y. u_val U y \<le> u_val U x \<longrightarrow> u_val U (u_sub U x y) = u_val U x - u_val U y) \<and>
     (\<forall>x y. map_option (u_val U) (u_checked_mul U x y) =
        (if u_val U x * u_val U y < 2 ^ 256 then Some (u_val U x * u_val U y) else None)) \<and>
     (\<forall>x y. map_option (u_val U) (u_checked_add U x y) =
        (if u_val U x + u_val U y < 2 ^ 256 then Some (u_val U x + u_val U y) else None)) \<and>
     (\<forall>x y. u_val U y \<noteq> 0 \<longrightarrow> u_val U (u_div U x y) = u_val U x div u_val U y) \<and>
     (\<forall>x y. u_val U y \<noteq> 0 \<longrightarrow> u_val U (u_rem U x y) = u_val U x mod u_val U y) \<and>
     (\<forall>x y. u_less U x y \<longleftrightarrow> u_val U x < u_val U y) \<and>
     (\<forall>x. u_is_zero U x \<longleftrightarrow> u_val U x = 0) \<and>
     (\<forall>x. u_try_u128 U x = (if u_val U x < 2 ^ 128 then Some (u_val U x) else None))"

definition wide_mul_div_bnum :: "'u u256 \<Rightarrow> nat \<Rightarrow> nat \<Rightarrow> nat \<Rightarrow> (nat \<times> bool) option" where
  "wide_mul_div_bnum U a b denom =
     (if denom = 0 then None
      else (let prod = u_mul U (u_from U a) (u_from U b);
                d = u_from U denom
            in case u_try_u128 U (u_div U prod d) of
                 None \<Rightarrow> None
               | Some q \<Rightarrow> Some (q, \<not> u_is_zero U (u_rem U prod d))))"

text \<open>An implementation with these laws: machine words of 256 bits.\<close>

definition word256 :: "256 word u256" where
  "word256 = \<lparr> u_val = unat, u_from = of_nat, u_mul = (*), u_sub = (-), u_div = (div),
     u_rem = (mod),
     u_checked_mul = (\<lambda>x y. if unat x * unat y < 2 ^ 256 then Some (x * y) else None),
     u_checked_add = (\<lambda>x y. if unat x + unat y < 2 ^ 256 then Some (x + y) else None),
     u_less = (<), u_is_zero = (\<lambda>x. x = 0),
     u_try_u128 = (\<lambda>x. if unat x < 2 ^ 128 then Some (unat x) else None) \<rparr>"

subsection \<open>Products and quotients\<close>

definition mul_div_floor :: "nat \<Rightarrow> nat \<Rightarrow> nat \<Rightarrow> nat option" where
  "mul_div_floor a b denom = map_option fst (wide_mul_div a b denom)"

definition mul_div_ceil :: "nat \<Rightarrow> nat \<Rightarrow> nat \<Rightarrow> nat option" where
  "mul_div_ceil a b denom =
     (case wide_mul_div a b denom of
        None \<Rightarrow> None
      | Some (q, has_rem) \<Rightarrow> if has_rem then checked_add 128 q 1 else Some q)"

definition wad_mul :: "nat \<Rightarrow> nat \<Rightarrow> nat option" where "wad_mul a b = mul_div_floor a b WAD"
definition wad_mul_up :: "nat \<Rightarrow> nat \<Rightarrow> nat option" where "wad_mul_up a b = mul_div_ceil a b WAD"
definition wad_div :: "nat \<Rightarrow> nat \<Rightarrow> nat option" where "wad_div a b = mul_div_floor a WAD b"
definition ray_mul :: "nat \<Rightarrow> nat \<Rightarrow> nat option" where "ray_mul a b = mul_div_floor a b RAY"
definition ray_mul_up :: "nat \<Rightarrow> nat \<Rightarrow> nat option" where "ray_mul_up a b = mul_div_ceil a b RAY"
definition ray_div :: "nat \<Rightarrow> nat \<Rightarrow> nat option" where "ray_div a b = mul_div_floor a RAY b"
definition present_debt :: "nat \<Rightarrow> nat \<Rightarrow> nat option" where "present_debt art rate = ray_mul_up art rate"

text \<open>The loop of \<open>ray_pow\<close>, on the state \<open>(z, b, exp)\<close>.\<close>

function ray_pow_loop :: "nat \<Rightarrow> nat \<Rightarrow> nat \<Rightarrow> nat option" where
  "ray_pow_loop z b e =
     (if e > 0
      then (case ray_mul b b of
              None \<Rightarrow> None
            | Some b' \<Rightarrow>
                (if e mod 2 = 1
                 then (case ray_mul z b' of None \<Rightarrow> None | Some z' \<Rightarrow> ray_pow_loop z' b' (e div 2))
                 else ray_pow_loop z b' (e div 2)))
      else Some z)"
  by pat_completeness auto
termination by (relation "measure (\<lambda>(z, b, e). e)") auto

declare ray_pow_loop.simps [simp del]

definition ray_pow :: "nat \<Rightarrow> nat \<Rightarrow> nat option" where
  "ray_pow base e = ray_pow_loop (if e mod 2 = 1 then base else RAY) base (e div 2)"

definition apply_bps :: "nat \<Rightarrow> nat \<Rightarrow> nat option" where
  "apply_bps amount bps =
     (case checked_mul 128 amount bps of
        None \<Rightarrow> None
      | Some scaled \<Rightarrow> try_from 64 (scaled div BPS_DENOMINATOR))"

subsection \<open>Exactness of the 256-bit arithmetic\<close>

lemma limb_mult: "x < 2 ^ 64 \<Longrightarrow> y < 2 ^ 64 \<Longrightarrow> x * y \<le> (2 ^ 64 - 1) * (2 ^ 64 - 1)" for x y :: nat
  by (rule mult_le_mono) simp_all

lemma schoolbook:
  fixes B :: nat
  assumes ll: "a0 * b0 = q0 * B + r0" and m1: "a1 * b0 = q1 * B + r1" and m2: "a0 * b1 = q2 * B + r2"
    and c: "q0 + r1 + r2 = cq * B + cr"
  shows "(a1 * b1 + q1 + q2 + cq) * (B * B) + (r0 + cr * B) = (a1 * B + a0) * (b1 * B + b0)"
proof -
  have "(a1 * B + a0) * (b1 * B + b0) = a1 * b1 * (B * B) + (a1 * b0) * B + (a0 * b1) * B + a0 * b0"
    by (simp add: algebra_simps)
  also have "\<dots> = (a1 * b1 + q1 + q2) * (B * B) + (q0 + r1 + r2) * B + r0"
    by (simp only: ll m1 m2) (simp add: algebra_simps)
  also have "\<dots> = (a1 * b1 + q1 + q2 + cq) * (B * B) + (r0 + cr * B)"
    by (simp only: c) (simp add: algebra_simps)
  finally show ?thesis by simp
qed

lemma wide_mul_nat:
  fixes a b B :: nat
  defines "a0 \<equiv> a mod B" and "a1 \<equiv> a div B" and "b0 \<equiv> b mod B" and "b1 \<equiv> b div B"
  defines "c \<equiv> a0 * b0 div B + a1 * b0 mod B + a0 * b1 mod B"
  shows "(a1 * b1 + a1 * b0 div B + a0 * b1 div B + c div B) * (B * B)
          + (a0 * b0 mod B + c mod B * B) = a * b"
  using schoolbook [of a0 b0 "a0 * b0 div B" B "a0 * b0 mod B" a1 "a1 * b0 div B" "a1 * b0 mod B"
      b1 "a0 * b1 div B" "a0 * b1 mod B" "c div B" "c mod B"]
  unfolding a0_def a1_def b0_def b1_def c_def by (simp only: div_mult_mod_eq)

lemma wide_mul_exact:
  "unat (fst (wide_mul a b)) * 2 ^ 128 + unat (snd (wide_mul a b)) = unat a * unat b"
proof -
  define a0 a1 b0 b1 where "a0 = a AND mask 64" and "a1 = drop_bit 64 a"
    and "b0 = b AND mask 64" and "b1 = drop_bit 64 b"
  have lt: "unat a0 < 2 ^ 64" "unat a1 < 2 ^ 64" "unat b0 < 2 ^ 64" "unat b1 < 2 ^ 64"
    using unat_128_lt [of a] unat_128_lt [of b]
    by (simp_all add: a0_def a1_def b0_def b1_def unat_and_mask unat_drop less_mult_imp_div_less)
  have mul: "unat (x * y) = unat x * unat y" "unat x * unat y \<le> (2 ^ 64 - 1) * (2 ^ 64 - 1)"
    if "unat x < 2 ^ 64" "unat y < 2 ^ 64" for x y :: "128 word"
  proof -
    show *: "unat x * unat y \<le> (2 ^ 64 - 1) * (2 ^ 64 - 1)" by (rule limb_mult [OF that])
    then show "unat (x * y) = unat x * unat y" by (subst unat_word_ariths) simp
  qed
  note prods = mul(1) [OF lt(1,3)] mul(1) [OF lt(2,3)] mul(1) [OF lt(1,4)] mul(1) [OF lt(2,4)]
  define c where "c = drop_bit 64 (a0 * b0) + (a1 * b0 AND mask 64) + (a0 * b1 AND mask 64)"
  have c: "unat c = unat a0 * unat b0 div 2 ^ 64 + unat a1 * unat b0 mod 2 ^ 64 + unat a0 * unat b1 mod 2 ^ 64"
  proof -
    have "unat a0 * unat b0 div 2 ^ 64 < 2 ^ 64" using mul(2) [OF lt(1,3)] by simp
    moreover have "unat a1 * unat b0 mod 2 ^ 64 < 2 ^ 64" "unat a0 * unat b1 mod 2 ^ 64 < 2 ^ 64" by simp_all
    ultimately show ?thesis
      unfolding c_def by (simp add: unat_word_ariths(1) unat_drop unat_and_mask prods)
  qed
  define h where "h = unat a1 * unat b1 + unat a1 * unat b0 div 2 ^ 64 + unat a0 * unat b1 div 2 ^ 64 + unat c div 2 ^ 64"
  define l where "l = unat a0 * unat b0 mod 2 ^ 64 + unat c mod 2 ^ 64 * 2 ^ 64"
  have prod: "h * 2 ^ 128 + l = unat a * unat b"
    using wide_mul_nat [of "unat a" "2 ^ 64" "unat b"]
    unfolding h_def l_def c a0_def a1_def b0_def b1_def unat_and_mask unat_drop
    by (simp add: power2_eq_square flip: power_add)
  have "unat a * unat b < 2 ^ 128 * 2 ^ 128"
    by (rule mult_strict_mono) (rule unat_128_lt | simp)+
  with prod have h: "h < 2 ^ 128" by (simp add: algebra_simps) 
  have "snd (wide_mul a b) = (a0 * b0 AND mask 64) + push_bit 64 c"
    unfolding wide_mul_def Let_def snd_conv a0_def [symmetric] a1_def [symmetric] b0_def [symmetric]
      b1_def [symmetric] c_def [symmetric]
    by (rule or_push_add) (simp add: unat_and_mask)
  moreover have "l < 2 ^ 128"
    unfolding l_def using mod_less_divisor [of "2 ^ 64" "unat c"] mod_less_divisor [of "2 ^ 64" "unat a0 * unat b0"] by simp
  ultimately have lo: "unat (snd (wide_mul a b)) = l"
    by (simp add: l_def unat_word_ariths(1) unat_push_128 unat_and_mask prods mult_mod_left)
  have "fst (wide_mul a b) = a1 * b1 + drop_bit 64 (a1 * b0) + drop_bit 64 (a0 * b1) + drop_bit 64 c"
    unfolding wide_mul_def Let_def fst_conv a0_def a1_def b0_def b1_def c_def ..
  with h have hi: "unat (fst (wide_mul a b)) = h"
    by (simp add: h_def unat_word_ariths(1) unat_drop prods)
  show ?thesis using prod by (simp only: lo hi)
qed

lemma unat_and_1: "unat (w AND 1 :: 128 word) = unat w mod 2"
  using unat_and_mask [of w 1] by simp

lemma div_bit_128:
  fixes hi lo :: nat
  assumes "lo < 2 ^ 128"
  shows "(hi * 2 ^ 128 + lo) div 2 ^ i mod 2 = (if i \<ge> 128 then hi div 2 ^ (i - 128) mod 2 else lo div 2 ^ i mod 2)"
proof (cases "i \<ge> 128")
  case True
  have "(2::nat) ^ i = 2 ^ 128 * 2 ^ (i - 128)" using True by (metis le_add_diff_inverse power_add)
  then have "(hi * 2 ^ 128 + lo) div 2 ^ i = (hi * 2 ^ 128 + lo) div 2 ^ 128 div 2 ^ (i - 128)"
    by (simp only: div_mult2_eq)
  also have "(hi * 2 ^ 128 + lo) div 2 ^ 128 = hi" using assms by simp
  finally show ?thesis using True by simp
next
  case False
  then have "(2::nat) ^ 128 = 2 ^ i * 2 ^ Suc (127 - i)" by (subst power_add [symmetric]) simp
  then have "(2::nat) ^ 128 = 2 ^ i * (2 * 2 ^ (127 - i))" by (simp only: power_Suc)
  then have "(hi * 2 ^ 128 + lo) div 2 ^ i = (2 ^ i * (hi * (2 * 2 ^ (127 - i))) + lo) div 2 ^ i"
    by (simp only: ac_simps)
  also have "\<dots> = hi * (2 * 2 ^ (127 - i)) + lo div 2 ^ i" by (rule div_mult_self4) simp
  also have "\<dots> = 2 * (hi * 2 ^ (127 - i)) + lo div 2 ^ i" by simp
  also have "\<dots> mod 2 = lo div 2 ^ i mod 2" by (rule mod_mult_self4)
  finally show ?thesis using False by (simp only: if_False)
qed

lemma restoring_step:
  fixes d :: "128 word"
  assumes r: "unat rem < unat d" and b: "unat b < 2" and R: "R = 2 * unat rem + unat b"
  defines "rem' \<equiv> push_bit 1 rem OR b"
  shows "(drop_bit 127 rem = 1 \<or> rem' \<ge> d) \<longleftrightarrow> R \<ge> unat d"
    and "R \<ge> unat d \<Longrightarrow> unat (rem' - d) = R - unat d"
    and "R < unat d \<Longrightarrow> unat rem' = R"
proof -
  obtain W :: nat where W: "W = 2 ^ 127" by blast
  have W2: "2 * W = 2 ^ 128" by (simp add: W)
  have rem': "unat rem' = R mod (2 * W)" unfolding rem'_def R W2 by (rule unat_shift_or [OF b])
  have d: "unat d < 2 * W" unfolding W2 by (rule unat_128_lt)
  have lt: "R < 2 * unat d" using r b R by simp
  have "drop_bit 127 rem = 1 \<longleftrightarrow> unat rem div W = 1"
    by (simp only: word_unat_eq_iff unat_drop unsigned_1 W)
  also have "\<dots> \<longleftrightarrow> R \<ge> 2 * W"
  proof (cases "unat rem < W")
    case True
    then show ?thesis using R b by simp
  next
    case False
    then obtain k where "unat rem = W + k" by (metis le_add_diff_inverse not_less)
    moreover from this have "k < W" using r d by simp
    ultimately show ?thesis using R by (simp add: div_add_self1)
  qed
  finally have carry: "drop_bit 127 rem = 1 \<longleftrightarrow> R \<ge> 2 * W" .
  show "(drop_bit 127 rem = 1 \<or> rem' \<ge> d) \<longleftrightarrow> R \<ge> unat d"
    unfolding carry word_le_nat_alt rem' using d by (cases "R < 2 * W") auto
  show "unat rem' = R" if "R < unat d" using that d rem' by simp
  show "unat (rem' - d) = R - unat d" if "R \<ge> unat d"
  proof (cases "R < 2 * W")
    case True
    then show ?thesis using that rem' by (simp add: unat_sub word_le_nat_alt)
  next
    case False
    then obtain k where k: "R = 2 * W + k" by (metis le_add_diff_inverse not_less)
    then have "k < unat d" "R mod (2 * W) = k" using lt d by auto
    then show ?thesis
      using k rem' d W2 by (simp add: unat_sub_if' word_le_nat_alt)
  qed
qed

lemma div_256_loop_exact:
  assumes "N = unat hi * 2 ^ 128 + unat lo" "unat hi < unat d"
    and "unat rem < unat d" "N div 2 ^ i = unat quo * unat d + unat rem"
  shows "unat (fst (div_256_loop hi lo d i rem quo)) = N div unat d \<and>
         unat (snd (div_256_loop hi lo d i rem quo)) = N mod unat d"
  using assms
proof (induction i arbitrary: rem quo)
  case 0
  have "N = unat quo * unat d + unat rem" using 0(4) by (simp only: power_0 div_by_1)
  then have "N div unat d = unat quo" "N mod unat d = unat rem" using 0(3) by (simp_all only: div_mult_self3 div_less mod_mult_self3 mod_less add_0_right neq0_conv)
  then show ?case by simp
next
  case (Suc i)
  define b where "b = (if i \<ge> 128 then drop_bit (i - 128) hi AND 1 else drop_bit i lo AND 1)"
  define R where "R = 2 * unat rem + unat b"
  have bit: "unat b = N div 2 ^ i mod 2"
    unfolding Suc.prems(1) b_def by (simp only: div_bit_128 [OF unat_128_lt] unat_and_1 unat_drop if_distrib [of unat])
  then have b2: "unat b < 2" by (simp only: mod_less_divisor zero_less_numeral)
  note step = restoring_step [OF Suc.prems(3) b2 R_def]
  have "N div 2 ^ i = 2 * (N div 2 ^ i div 2) + N div 2 ^ i mod 2" by (simp only: mult_div_mod_eq)
  also have "N div 2 ^ i div 2 = N div 2 ^ Suc i" by (metis div_mult2_eq mult.commute power_Suc)
  finally have N: "N div 2 ^ i = 2 * unat quo * unat d + R"
    unfolding Suc.prems(4) bit [symmetric] R_def by (simp add: algebra_simps)
  have "N < unat d * 2 ^ 128"
  proof -
    have "N < (unat hi + 1) * 2 ^ 128" unfolding Suc.prems(1) using unat_128_lt [of lo] by (simp add: algebra_simps)
    also have "\<dots> \<le> unat d * 2 ^ 128" using Suc.prems(2) by (intro mult_le_mono1) simp
    finally show ?thesis .
  qed
  then have "N div 2 ^ i < unat d * 2 ^ 128" by (rule le_less_trans [OF div_le_dividend])
  moreover have "unat d * (2 * unat quo + (if R \<ge> unat d then 1 else 0)) \<le> N div 2 ^ i"
    unfolding N by (auto simp: algebra_simps)
  ultimately have "unat d * (2 * unat quo + (if R \<ge> unat d then 1 else 0)) < unat d * 2 ^ 128"
    by (rule le_less_trans [rotated])
  then have "2 * unat quo + (if R \<ge> unat d then 1 else 0) < 2 ^ 128"
    by (simp only: mult_less_cancel1)
  then have qs: "R \<ge> unat d \<Longrightarrow> unat (push_bit 1 quo OR 1) = 2 * unat quo + 1"
    and qs0: "\<not> R \<ge> unat d \<Longrightarrow> unat (push_bit 1 quo) = 2 * unat quo"
    using unat_shift_or [of 1 quo] unat_push_128 [of 1 quo] by simp_all
  show ?case
  proof (cases "R \<ge> unat d")
    case True
    have "R - unat d < unat d" using Suc.prems(3) b2 R_def by linarith
    moreover have "N div 2 ^ i = (2 * unat quo + 1) * unat d + (R - unat d)" using N True by (simp add: algebra_simps)
    ultimately show ?thesis
      using Suc.IH [OF Suc.prems(1,2), of "(push_bit 1 rem OR b) - d" "push_bit 1 quo OR 1"] True step qs
      unfolding div_256_loop.simps Let_def b_def [symmetric] by presburger
  next
    case False
    then have r: "unat (push_bit 1 rem OR b) = R" using step(3) by simp
    moreover have "N div 2 ^ i = unat (push_bit 1 quo) * unat d + R" using N qs0 [OF False] by simp
    ultimately show ?thesis
      using Suc.IH [OF Suc.prems(1,2), of "push_bit 1 rem OR b" "push_bit 1 quo"] step(1) False
      unfolding div_256_loop.simps Let_def b_def [symmetric] by simp
  qed
qed

lemma div_256_by_128_exact:
  fixes hi lo d :: "128 word"
  defines "N \<equiv> unat hi * 2 ^ 128 + unat lo"
  assumes "d \<noteq> 0"
  shows "div_256_by_128 hi lo d =
    (if N div unat d < 2 ^ 128 then Some (of_nat (N div unat d), of_nat (N mod unat d)) else None)"
proof -
  have d: "0 < unat d" using assms(2) by (simp add: unat_gt_0)
  have fit: "unat hi < unat d \<longleftrightarrow> N div unat d < 2 ^ 128"
  proof
    assume "unat hi < unat d"
    then have "(unat hi + 1) * 2 ^ 128 \<le> unat d * 2 ^ 128" by (intro mult_le_mono1) simp
    then have "N < 2 ^ 128 * unat d" unfolding N_def using unat_128_lt [of lo] by simp
    then show "N div unat d < 2 ^ 128" by (rule less_mult_imp_div_less)
  next
    assume "N div unat d < 2 ^ 128"
    show "unat hi < unat d"
    proof (rule ccontr)
      assume "\<not> unat hi < unat d"
      then have "unat d * 2 ^ 128 \<le> N" unfolding N_def by (intro trans_le_add1 mult_le_mono1) simp
      then have "2 ^ 128 \<le> N div unat d" using d by (simp only: less_eq_div_iff_mult_less_eq mult.commute)
      then show False using \<open>N div unat d < 2 ^ 128\<close> by linarith
    qed
  qed
  show ?thesis
  proof (cases "hi = 0")
    case True
    have "of_nat (unat lo div unat d) = lo div d" "of_nat (unat lo mod unat d) = lo mod d"
      by (metis of_nat_unat ucast_id unat_div) (metis of_nat_unat ucast_id unat_mod)
    with True show ?thesis
      using fit d by (simp add: div_256_by_128_def N_def word_le_nat_alt not_le)
  next
    case False
    have loop: "unat hi < unat d \<Longrightarrow> div_256_loop hi lo d 256 0 0 = (of_nat (N div unat d), of_nat (N mod unat d))"
    proof -
      assume hi: "unat hi < unat d"
      have "N < 2 ^ 256" unfolding N_def using unat_128_lt [of hi] unat_128_lt [of lo] by simp
      then have "unat (fst (div_256_loop hi lo d 256 0 0)) = N div unat d \<and>
          unat (snd (div_256_loop hi lo d 256 0 0)) = N mod unat d"
        using d hi N_def by (intro div_256_loop_exact) simp_all
      then have "of_nat (N div unat d) = fst (div_256_loop hi lo d 256 0 0)"
        "of_nat (N mod unat d) = snd (div_256_loop hi lo d 256 0 0)"
        by (metis of_nat_unat ucast_id)+
      then show ?thesis by simp
    qed
    show ?thesis using fit False loop 
      unfolding div_256_by_128_def word_le_nat_alt not_less [symmetric] by simp
  qed
qed

lemma wide_muladd_lt:
  fixes a b c :: "128 word"
  shows "unat a * unat b + unat c < 2 ^ 128 * 2 ^ 128"
proof -
  have "unat a * unat b \<le> (2 ^ 128 - 1) * (2 ^ 128 - 1)"
    using unat_128_lt [of a] unat_128_lt [of b] by (intro mult_le_mono) simp_all
  then show ?thesis using unat_128_lt [of c] by simp
qed

lemma wide_mul_div_w_exact:
  "wide_mul_div_w a b d =
     (if d \<noteq> 0 \<and> unat a * unat b div unat d < 2 ^ 128
      then Some (of_nat (unat a * unat b div unat d), unat a * unat b mod unat d \<noteq> 0) else None)"
proof (cases "d = 0")
  case False
  obtain hi lo where w: "wide_mul a b = (hi, lo)" by fastforce
  then have p: "unat hi * 2 ^ 128 + unat lo = unat a * unat b" using wide_mul_exact [of a b] by simp
  have "unat a * unat b mod unat d < 2 ^ 128"
    using False unat_128_lt [of d] by (meson mod_less_divisor less_trans unat_gt_0)
  then have "(of_nat (unat a * unat b mod unat d) :: 128 word) = 0 \<longleftrightarrow> unat a * unat b mod unat d = 0"
    by (simp add: word_unat_eq_iff unat_of_nat)
  with False show ?thesis
    using div_256_by_128_exact [OF False, of hi lo] unfolding p by (simp add: wide_mul_div_w_def w)
qed (simp add: wide_mul_div_w_def)

lemma wide_muladd_div_w_exact:
  "wide_muladd_div_w a b c d =
     (if d \<noteq> 0 \<and> (unat a * unat b + unat c) div unat d < 2 ^ 128
      then Some (of_nat ((unat a * unat b + unat c) div unat d), of_nat ((unat a * unat b + unat c) mod unat d))
      else None)"
proof (cases "d = 0")
  case False
  obtain hi lo where w: "wide_mul a b = (hi, lo)" by fastforce
  then have p: "unat hi * 2 ^ 128 + unat lo = unat a * unat b" using wide_mul_exact [of a b] by simp
  define hi' where "hi' = (if unat lo + unat c \<ge> 2 ^ 128 then hi + 1 else hi)"
  have "unat hi' * 2 ^ 128 + unat (lo + c) = unat a * unat b + unat c"
  proof (cases "unat lo + unat c \<ge> 2 ^ 128")
    case True
    then have lo: "unat (lo + c) = unat lo + unat c - 2 ^ 128"
      using unat_128_lt [of lo] unat_128_lt [of c] by (simp add: unat_word_ariths(1) le_mod_geq)
    have "unat hi + 1 < 2 ^ 128"
    proof (rule ccontr)
      assume "\<not> unat hi + 1 < 2 ^ 128"
      then have "unat hi * 2 ^ 128 + unat lo + unat c \<ge> 2 ^ 128 * 2 ^ 128" using True by simp
      then show False using wide_muladd_lt [of a b c] unfolding p by linarith
    qed
    then have "unat (hi + 1) = unat hi + 1" by (simp add: unat_word_ariths(1))
    then show ?thesis using p True lo by (simp add: hi'_def)
  next
    case False
    then have "unat (lo + c) = unat lo + unat c" by (simp add: unat_word_ariths(1))
    then show ?thesis using p False by (simp add: hi'_def)
  qed
  then show ?thesis
    using div_256_by_128_exact [OF False, of hi' "lo + c"] False
    by (simp add: wide_muladd_div_w_def w Let_def hi'_def)
qed (simp add: wide_muladd_div_w_def)

lemma of_nat_128_0: "is_u128 n \<Longrightarrow> (of_nat n :: 128 word) = 0 \<longleftrightarrow> n = 0"
  by (simp add: is_u128_def word_unat_eq_iff unat_of_nat)

lemma unat_of_nat_128: "is_u128 n \<Longrightarrow> unat (of_nat n :: 128 word) = n"
  by (simp add: is_u128_def unat_of_nat)

lemma wide_mul_div_eq [code]:
  "wide_mul_div a b d =
     (if is_u128 a \<and> is_u128 b \<and> is_u128 d \<and> d \<noteq> 0 \<and> a * b div d < 2 ^ 128
      then Some (a * b div d, a * b mod d \<noteq> 0) else None)"
  by (auto simp: wide_mul_div_def wide_mul_div_w_exact unat_of_nat_128 of_nat_128_0 is_u128_def [of "a * b div d"]
      intro: unat_of_nat_128)

lemma wide_muladd_div_eq [code]:
  "wide_muladd_div a b c d =
     (if is_u128 a \<and> is_u128 b \<and> is_u128 c \<and> is_u128 d \<and> d \<noteq> 0 \<and> (a * b + c) div d < 2 ^ 128
      then Some ((a * b + c) div d, (a * b + c) mod d) else None)"
proof -
  have "is_u128 ((a * b + c) mod d)" if "is_u128 d" "d \<noteq> 0"
    using that less_trans [OF mod_less_divisor [of d "a * b + c"]] by (simp add: is_u128_def)
  then show ?thesis
    by (auto simp: wide_muladd_div_def wide_muladd_div_w_exact unat_of_nat_128 of_nat_128_0
        is_u128_def [of "(a * b + c) div d"] intro: unat_of_nat_128)
qed

lemma u256_checked:
  assumes "u256_laws U"
  shows "u_val U x * u_val U y < 2 ^ 256 \<Longrightarrow> \<exists>z. u_checked_mul U x y = Some z \<and> u_val U z = u_val U x * u_val U y"
    and "u_val U x + u_val U y < 2 ^ 256 \<Longrightarrow> \<exists>z. u_checked_add U x y = Some z \<and> u_val U z = u_val U x + u_val U y"
proof -
  have "map_option (u_val U) (u_checked_mul U x y) =
        (if u_val U x * u_val U y < 2 ^ 256 then Some (u_val U x * u_val U y) else None)"
    "map_option (u_val U) (u_checked_add U x y) =
        (if u_val U x + u_val U y < 2 ^ 256 then Some (u_val U x + u_val U y) else None)"
    using assms unfolding u256_laws_def by blast+
  then show "u_val U x * u_val U y < 2 ^ 256 \<Longrightarrow> \<exists>z. u_checked_mul U x y = Some z \<and> u_val U z = u_val U x * u_val U y"
    and "u_val U x + u_val U y < 2 ^ 256 \<Longrightarrow> \<exists>z. u_checked_add U x y = Some z \<and> u_val U z = u_val U x + u_val U y"
    by (auto split: if_splits)
qed

lemma u256_exact:
  assumes "u256_laws U"
  shows "n < 2 ^ 128 \<Longrightarrow> u_val U (u_from U n) = n"
    and "u_val U x * u_val U y < 2 ^ 256 \<Longrightarrow> u_val U (u_mul U x y) = u_val U x * u_val U y"
    and "u_val U y \<le> u_val U x \<Longrightarrow> u_val U (u_sub U x y) = u_val U x - u_val U y"
    and "u_val U y \<noteq> 0 \<Longrightarrow> u_val U (u_div U x y) = u_val U x div u_val U y"
    and "u_val U y \<noteq> 0 \<Longrightarrow> u_val U (u_rem U x y) = u_val U x mod u_val U y"
    and "u_less U x y \<longleftrightarrow> u_val U x < u_val U y"
    and "u_is_zero U x \<longleftrightarrow> u_val U x = 0"
    and "u_try_u128 U x = (if u_val U x < 2 ^ 128 then Some (u_val U x) else None)"
  using assms unfolding u256_laws_def by blast+

subsection \<open>Floor and ceiling quotients\<close>

text \<open>The ceiling of a quotient of natural numbers, the reference for the rounding-up variants.\<close>

definition cdiv :: "nat \<Rightarrow> nat \<Rightarrow> nat" where
  "cdiv n d = n div d + (if n mod d = 0 then 0 else 1)"

lemma cdiv_bounds: "0 < d \<Longrightarrow> n \<le> cdiv n d * d \<and> cdiv n d * d < n + d"
proof (cases "n mod d = 0")
  case False
  assume d: "0 < d"
  have "n div d * d + n mod d = n" by (rule div_mult_mod_eq)
  then have "n < n div d * d + d \<and> n div d * d < n" using mod_less_divisor [OF d, of n] False by linarith
  then show ?thesis using False by (simp add: cdiv_def)
qed (auto simp: cdiv_def)

lemmas cdiv_ge = cdiv_bounds [THEN conjunct1] and cdiv_less = cdiv_bounds [THEN conjunct2]

lemma cdiv_least: "0 < d \<Longrightarrow> n \<le> k * d \<longleftrightarrow> cdiv n d \<le> k"
proof
  assume d: "0 < d" and "n \<le> k * d"
  then have "cdiv n d * d < (k + 1) * d" using cdiv_less [OF d, of n] by simp
  then show "cdiv n d \<le> k" by (simp only: mult_less_cancel2) simp
next
  assume d: "0 < d" and "cdiv n d \<le> k"
  then have "cdiv n d * d \<le> k * d" by simp
  with cdiv_ge [OF d] show "n \<le> k * d" by (rule le_trans)
qed

lemma div_le_cdiv: "n div d \<le> cdiv n d" "cdiv n d \<le> n div d + 1"
  by (simp_all add: cdiv_def)

lemma cdiv_mono: "0 < d \<Longrightarrow> m \<le> n \<Longrightarrow> cdiv m d \<le> cdiv n d"
  using cdiv_least [of d m "cdiv n d"] cdiv_ge [of d n] by simp

lemma mul_div_floor_Some [num_simps]:
  "mul_div_floor a b d = Some q \<longleftrightarrow>
     is_u128 a \<and> is_u128 b \<and> is_u128 d \<and> 0 < d \<and> q = a * b div d \<and> a * b div d < 2 ^ 128"
  by (auto simp: mul_div_floor_def wide_mul_div_eq)

lemma mul_div_ceil_Some [num_simps]:
  "mul_div_ceil a b d = Some q \<longleftrightarrow>
     is_u128 a \<and> is_u128 b \<and> is_u128 d \<and> 0 < d \<and> q = cdiv (a * b) d \<and> cdiv (a * b) d < 2 ^ 128"
  by (auto simp: mul_div_ceil_def wide_mul_div_eq checked_add_def cdiv_def split: option.splits)

lemma mul_div_floor_le:
  assumes "mul_div_floor a b d = Some q"
  shows "q * d \<le> a * b" "a * b < (q + 1) * d"
  using assms dividend_less_div_times [of d "a * b"] by (auto simp: num_simps)

lemma mul_div_floor_total:
  assumes "a < 2 ^ 128" "b < 2 ^ 128" "d < 2 ^ 128" "0 < d" "b \<le> d"
  shows "mul_div_floor a b d = Some (a * b div d)"
proof -
  have "a * b div d \<le> a" using assms(4,5) by (metis div_le_mono div_mult_self_is_m mult_le_mono2)
  then show ?thesis using assms by (simp add: num_simps is_u128_def)
qed

subsection \<open>Fixed-point powers\<close>

lemma RAY_pos [simp]: "0 < RAY" "RAY \<noteq> 0" by (simp_all add: RAY_def)
lemma WAD_pos [simp]: "0 < WAD" "WAD \<noteq> 0" by (simp_all add: WAD_def)

lemma ray_mul_le: "ray_mul a b = Some c \<Longrightarrow> c * RAY \<le> a * b"
  unfolding ray_mul_def by (rule mul_div_floor_le)

lemma ray_pow_loop_le:
  "ray_pow_loop z b e = Some r \<Longrightarrow> r * RAY ^ (2 * e) \<le> z * b ^ (2 * e)"
proof (induction z b e rule: ray_pow_loop.induct)
  case (1 z b e)
  show ?case
  proof (cases "e > 0")
    case False
    then have "r = z \<and> e = 0" using "1.prems" by (subst (asm) ray_pow_loop.simps) simp
    then show ?thesis by simp
  next
    case True
    then obtain b' where b': "ray_mul b b = Some b'"
      using "1.prems" by (auto simp: ray_pow_loop.simps [of z b e] split: option.splits)
    have sq: "(b' * RAY) ^ e \<le> b ^ (2 * e)"
      using power_mono [OF ray_mul_le [OF b'], of e] by (simp add: power_mult power2_eq_square)
    have "r * RAY ^ e \<le> z * b' ^ e"
    proof (cases "e mod 2 = 1")
      case odd: True
      then obtain z' where z': "ray_mul z b' = Some z'" "ray_pow_loop z' b' (e div 2) = Some r"
        using "1.prems" True b' by (auto simp: ray_pow_loop.simps [of z b e] split: option.splits)
      have e: "2 * (e div 2) + 1 = e" using odd by presburger
      have "r * RAY ^ (2 * (e div 2)) * RAY \<le> z' * b' ^ (2 * (e div 2)) * RAY"
        using "1.IH"(1) [OF True b' odd z'(1) z'(2)] by simp
      also have "\<dots> \<le> z * b' * b' ^ (2 * (e div 2))"
        using mult_le_mono1 [OF ray_mul_le [OF z'(1)], of "b' ^ (2 * (e div 2))"] by (simp add: algebra_simps)
      finally have "r * RAY ^ (2 * (e div 2) + 1) \<le> z * b' ^ (2 * (e div 2) + 1)"
        by (simp add: algebra_simps)
      then show ?thesis unfolding e .
    next
      case even: False
      then have "ray_pow_loop z b' (e div 2) = Some r"
        using "1.prems" True b' by (simp add: ray_pow_loop.simps [of z b e])
      then have "r * RAY ^ (2 * (e div 2)) \<le> z * b' ^ (2 * (e div 2))"
        by (rule "1.IH"(2) [OF True b' even])
      moreover have "2 * (e div 2) = e" using even by presburger
      ultimately show ?thesis by simp
    qed
    then have "r * RAY ^ e * RAY ^ e \<le> z * b' ^ e * RAY ^ e" by simp
    also have "\<dots> \<le> z * b ^ (2 * e)" using sq by (simp add: power_mult_distrib algebra_simps)
    finally show ?thesis by (simp only: mult_2 power_add mult.assoc)
  qed
qed

text \<open>Below one, no step of the loop overflows and the power stays below one.\<close>

lemma ray_mul_below:
  assumes "a \<le> RAY" "b \<le> RAY"
  shows "\<exists>c. ray_mul a b = Some c \<and> c \<le> a \<and> c \<le> b"
proof -
  have "a * b \<le> a * RAY" "a * b \<le> RAY * b" using assms by simp_all
  then have "a * b div RAY \<le> a" "a * b div RAY \<le> b"
    by (metis RAY_pos(2) div_le_mono nonzero_mult_div_cancel_right)
       (metis RAY_pos(2) \<open>a * b \<le> RAY * b\<close> div_le_mono nonzero_mult_div_cancel_left)
  moreover have "RAY < 2 ^ 128" by (simp add: RAY_def)
  ultimately show ?thesis
    using assms by (auto simp: ray_mul_def num_simps is_u128_def)
qed

lemma ray_pow_loop_below:
  "z \<le> RAY \<Longrightarrow> b \<le> RAY \<Longrightarrow> \<exists>r. ray_pow_loop z b e = Some r \<and> r \<le> z"
proof (induction z b e rule: ray_pow_loop.induct)
  case (1 z b e)
  show ?case
  proof (cases "e > 0")
    case True
    obtain b' where b': "ray_mul b b = Some b'" "b' \<le> b" using ray_mul_below "1.prems"(2) by blast
    then have le: "b' \<le> RAY" using "1.prems"(2) by simp
    obtain z' where z': "ray_mul z b' = Some z'" "z' \<le> z" using ray_mul_below "1.prems"(1) le by blast
    show ?thesis
    proof (cases "e mod 2 = 1")
      case odd: True
      have "\<exists>r. ray_pow_loop z' b' (e div 2) = Some r \<and> r \<le> z'"
        using "1.IH"(1) [OF True b'(1) odd z'(1)] z'(2) "1.prems"(1) le by simp
      then show ?thesis using z' b' odd True by (subst ray_pow_loop.simps) auto
    next
      case even: False
      have "\<exists>r. ray_pow_loop z b' (e div 2) = Some r \<and> r \<le> z"
        using "1.IH"(2) [OF True b'(1) even] "1.prems"(1) le by simp
      then show ?thesis using b' even True by (subst ray_pow_loop.simps) auto
    qed
  qed (subst ray_pow_loop.simps, simp)
qed

lemma ray_pow_below:
  assumes "base \<le> RAY"
  shows "\<exists>r. ray_pow base e = Some r \<and> r \<le> RAY"
  unfolding ray_pow_def
  using ray_pow_loop_below [of "if e mod 2 = 1 then base else RAY" base "e div 2"] assms
  by (auto split: if_splits)

lemma ray_pow_lower_bound:
  assumes "ray_pow base e = Some r"
  shows "r * RAY ^ e \<le> base ^ e * RAY"
proof (cases "e mod 2 = 1")
  case True
  then have e: "2 * (e div 2) + 1 = e" by presburger
  have "r * RAY ^ (2 * (e div 2)) * RAY \<le> base * base ^ (2 * (e div 2)) * RAY"
    using ray_pow_loop_le [of base base "e div 2" r] assms True by (simp add: ray_pow_def)
  then have "r * RAY ^ (2 * (e div 2) + 1) \<le> base ^ (2 * (e div 2) + 1) * RAY"
    by (simp add: algebra_simps)
  then show ?thesis unfolding e .
next
  case False
  then have "2 * (e div 2) = e" by presburger
  then show ?thesis
    using ray_pow_loop_le [of RAY base "e div 2" r] assms False by (simp add: ray_pow_def mult.commute)
qed

lemma apply_bps_Some [num_simps]:
  "apply_bps amount bps = Some r \<longleftrightarrow>
     amount * bps < 2 ^ 128 \<and> r = amount * bps div 10000 \<and> r < 2 ^ 64"
  by (auto simp: apply_bps_def checked_mul_def try_from_def BPS_DENOMINATOR_def split: option.splits)

subsection \<open>The properties of the component\<close>

text \<open>
  C6. The body of \<open>wide_mul_div\<close> that ships (over the 256-bit package) and the body written out in the
  crate (schoolbook product and 256 steps of restoring division) return the same result on all
  128-bit arguments: the same quotient and remainder flag, and \<open>None\<close> in the same cases.
\<close>

theorem wide_mul_div_production:
  assumes "u256_laws U" "a < 2 ^ 128" "b < 2 ^ 128" "d < 2 ^ 128"
  shows "wide_mul_div_bnum U a b d = map_option (map_prod unat id) (wide_mul_div_w (of_nat a) (of_nat b) (of_nat d))"
proof -
  have "a * b < 2 ^ 128 * 2 ^ 128" using assms(2,3) by (intro mult_strict_mono) simp_all
  then have "wide_mul_div_bnum U a b d = wide_mul_div a b d"
    using assms by (auto simp: wide_mul_div_bnum_def wide_mul_div_eq u256_laws_def Let_def is_u128_def)
  then show ?thesis using assms(2-4) by (simp add: wide_mul_div_def is_u128_def)
qed

lemma word256_laws: "u256_laws word256"
  by (simp add: u256_laws_def word256_def unat_of_nat unat_word_ariths(1,2) unat_div unat_mod
      unat_sub word_le_nat_alt word_less_nat_alt unat_eq_zero)

theorem wide_mul_div_production_witness:
  "u256_laws word256 \<and>
   wide_mul_div_bnum word256 (10 ^ 30) (10 ^ 30) (10 ^ 29) = Some (10 ^ 31, False)"
proof -
  have "wide_mul_div_bnum word256 (10 ^ 30) (10 ^ 30) (10 ^ 29) = wide_mul_div (10 ^ 30) (10 ^ 30) (10 ^ 29)"
    using wide_mul_div_production [OF word256_laws, of "10 ^ 30" "10 ^ 30" "10 ^ 29"]
    by (simp add: wide_mul_div_def is_u128_def)
  then show ?thesis using word256_laws by (simp add: wide_mul_div_eq is_u128_def)
qed

text \<open>
  C7. On 128-bit arguments with a non-zero divisor, \<open>mul_div_floor\<close> returns the largest \<open>q\<close> with
  \<open>q * d \<le> a * b\<close> and \<open>mul_div_ceil\<close> the least \<open>c\<close> with \<open>a * b \<le> c * d\<close>; each is \<open>None\<close> exactly when
  that number does not fit 128 bits, and both are \<open>None\<close> for a zero divisor. Nothing is truncated.
\<close>

theorem mul_div_rounding:
  assumes "a < 2 ^ 128" "b < 2 ^ 128" "d < 2 ^ 128"
  shows "mul_div_floor a b 0 = None \<and> mul_div_ceil a b 0 = None \<and>
    (0 < d \<longrightarrow>
       (\<forall>q. q * d \<le> a * b \<and> a * b < (q + 1) * d \<longrightarrow>
              mul_div_floor a b d = (if q < 2 ^ 128 then Some q else None)) \<and>
       (\<forall>c. a * b \<le> c * d \<and> (\<forall>k. a * b \<le> k * d \<longrightarrow> c \<le> k) \<longrightarrow>
              mul_div_ceil a b d = (if c < 2 ^ 128 then Some c else None)))"
proof (intro conjI impI allI)
  show "mul_div_floor a b 0 = None" "mul_div_ceil a b 0 = None"
    by (simp_all add: mul_div_floor_def mul_div_ceil_def wide_mul_div_eq)
next
  fix q assume "q * d \<le> a * b \<and> a * b < (q + 1) * d"
  then have "a * b div d = q" by (intro div_nat_eqI) (simp_all add: mult.commute)
  then show "mul_div_floor a b d = (if q < 2 ^ 128 then Some q else None)" if "0 < d"
    using assms that by (simp add: mul_div_floor_def wide_mul_div_eq is_u128_def)
next
  fix c assume d: "0 < d" and c: "a * b \<le> c * d \<and> (\<forall>k. a * b \<le> k * d \<longrightarrow> c \<le> k)"
  then have "c = cdiv (a * b) d" using cdiv_least [OF d] by (meson le_antisym order_refl)
  then have "mul_div_ceil a b d = Some c \<longleftrightarrow> c < 2 ^ 128"
    "mul_div_ceil a b d = Some x \<Longrightarrow> x = c" for x
    using assms d by (auto simp: num_simps is_u128_def)
  then show "mul_div_ceil a b d = (if c < 2 ^ 128 then Some c else None)"
    by (cases "mul_div_ceil a b d") auto
qed

theorem mul_div_rounding_witness:
  "mul_div_floor 7 10 4 = Some 17 \<and> mul_div_ceil 7 10 4 = Some 18"
proof -
  have k: "(\<forall>k. (7::nat) * 10 \<le> k * 4 \<longrightarrow> 18 \<le> k)" by presburger
  have "mul_div_floor 7 10 4 = Some 17"
    using mul_div_rounding [of 7 10 4] by (auto dest!: spec [of _ 17])
  moreover have "mul_div_ceil 7 10 4 = Some 18"
    using mul_div_rounding [of 7 10 4] k by (auto dest!: spec [of _ 18])
  ultimately show ?thesis ..
qed

text \<open>
  C8. \<open>ray_pow\<close> terminates on every exponent; for a base of at most one (in RAY) it returns, the result is
  at most one, and it never exceeds the true power, which is the direction the source relies on.
\<close>

theorem ray_pow_sound:
  assumes "base \<le> RAY"
  shows "\<exists>r. ray_pow base e = Some r \<and> r \<le> RAY \<and> r * RAY ^ e \<le> base ^ e * RAY"
  using ray_pow_below [OF assms, of e] ray_pow_lower_bound by blast

theorem ray_pow_sound_witness:
  "RAY div 2 \<le> RAY \<and> (\<exists>r. ray_pow (RAY div 2) 3 = Some r \<and> r \<le> RAY \<and> r * RAY ^ 3 \<le> (RAY div 2) ^ 3 * RAY)"
  using ray_pow_sound [of "RAY div 2" 3] by simp

end
