(* ===== verification/Interest.thy ===== *)
theory Interest
  imports Fixed_Point
begin

text \<open>
  Simple interest with per-borrower rates, \<^verbatim>\<open>crates/fusd-math/src/interest.rs\<close>: the market-wide accrual
  rounds up at every checkpoint, the accrual of one position rounds down.
\<close>

definition SECONDS_PER_YEAR :: nat where "SECONDS_PER_YEAR = 31536000"
definition INTEREST_RATE_DENOM :: nat where "INTEREST_RATE_DENOM = 10000"
definition INTEREST_DENOM :: nat where "INTEREST_DENOM = SECONDS_PER_YEAR * INTEREST_RATE_DENOM"

definition weighted_debt :: "nat \<Rightarrow> nat \<Rightarrow> nat option" where
  "weighted_debt recorded_debt rate_bps = checked_mul 128 recorded_debt rate_bps"

definition pending_aggregate_interest :: "nat \<Rightarrow> nat \<Rightarrow> nat option" where
  "pending_aggregate_interest weighted_sum dt = mul_div_ceil weighted_sum dt INTEREST_DENOM"

definition accrued_interest :: "nat \<Rightarrow> nat \<Rightarrow> nat \<Rightarrow> nat option" where
  "accrued_interest recorded_debt rate_bps period =
     (case weighted_debt recorded_debt rate_bps of
        None \<Rightarrow> None
      | Some weighted \<Rightarrow> mul_div_floor weighted period INTEREST_DENOM)"

definition premature_adjustment_fee :: "nat \<Rightarrow> nat \<Rightarrow> nat \<Rightarrow> nat option" where
  "premature_adjustment_fee recorded_debt rate_bps period_secs =
     (case weighted_debt recorded_debt rate_bps of
        None \<Rightarrow> None
      | Some weighted \<Rightarrow> mul_div_ceil weighted period_secs INTEREST_DENOM)"

subsection \<open>Functional behaviour\<close>

lemma INTEREST_DENOM_pos [simp]: "0 < INTEREST_DENOM"
  by (simp add: INTEREST_DENOM_def SECONDS_PER_YEAR_def INTEREST_RATE_DENOM_def)

lemma weighted_debt_Some [num_simps]:
  "weighted_debt d r = Some w \<longleftrightarrow> w = d * r \<and> d * r < 2 ^ 128"
  by (auto simp: weighted_debt_def num_simps)

lemma pending_aggregate_interest_Some [num_simps]:
  "pending_aggregate_interest w dt = Some i \<longleftrightarrow>
     is_u128 w \<and> is_u128 dt \<and> is_u128 INTEREST_DENOM \<and> i = cdiv (w * dt) INTEREST_DENOM \<and> i < 2 ^ 128"
  by (auto simp: pending_aggregate_interest_def num_simps)

lemma accrued_interest_Some [num_simps]:
  "accrued_interest d r t = Some i \<longleftrightarrow>
     d * r < 2 ^ 128 \<and> is_u128 t \<and> is_u128 INTEREST_DENOM \<and> i = d * r * t div INTEREST_DENOM \<and> i < 2 ^ 128"
  by (auto simp: accrued_interest_def mul_div_floor_Some weighted_debt_def checked_mul_def is_u128_def
      split: option.splits)

lemma premature_adjustment_fee_Some [num_simps]:
  "premature_adjustment_fee d r t = Some i \<longleftrightarrow>
     d * r < 2 ^ 128 \<and> is_u128 t \<and> is_u128 INTEREST_DENOM \<and> i = cdiv (d * r * t) INTEREST_DENOM \<and> i < 2 ^ 128"
  by (auto simp: premature_adjustment_fee_def mul_div_ceil_Some weighted_debt_def checked_mul_def is_u128_def
      split: option.splits)

text \<open>One position accrues at most its exact interest and loses less than one unit.\<close>

lemma accrued_interest_bounds:
  assumes "accrued_interest d r t = Some i"
  shows "i * INTEREST_DENOM \<le> d * r * t" "d * r * t < (i + 1) * INTEREST_DENOM"
  using assms dividend_less_div_times [of INTEREST_DENOM "d * r * t"] by (auto simp: num_simps)

text \<open>One checkpoint of the aggregate accrues at least the exact interest and gains less than one unit.\<close>

lemma pending_aggregate_interest_bounds:
  assumes "pending_aggregate_interest w dt = Some i"
  shows "w * dt \<le> i * INTEREST_DENOM" "i * INTEREST_DENOM < w * dt + INTEREST_DENOM"
  using assms cdiv_bounds [of INTEREST_DENOM "w * dt"] by (auto simp: num_simps)

lemma aggregate_checkpoints:
  assumes "list_all2 (\<lambda>dt a. pending_aggregate_interest w dt = Some a) dts as"
  shows "w * sum_list dts \<le> sum_list as * INTEREST_DENOM"
    and "sum_list as * INTEREST_DENOM \<le> w * sum_list dts + length dts * INTEREST_DENOM"
  using assms
  by (induction rule: list_all2_induct)
     (use pending_aggregate_interest_bounds in \<open>fastforce simp: algebra_simps\<close>)+

lemma position_accruals:
  assumes "list_all2 (\<lambda>(d, r) i. accrued_interest d r t = Some i) ps is"
  shows "sum_list is * INTEREST_DENOM \<le> (\<Sum>(d, r) \<leftarrow> ps. d * r) * t"
    and "(\<Sum>(d, r) \<leftarrow> ps. d * r) * t \<le> (sum_list is + length ps) * INTEREST_DENOM"
  using assms
  by (induction rule: list_all2_induct)
     (use accrued_interest_bounds in \<open>fastforce simp: algebra_simps\<close>)+

subsection \<open>The properties of the component\<close>

text \<open>
  C9. Whatever the checkpoints \<open>dts\<close> at which the market accrues its aggregate interest, the aggregate
  over the whole period covers the sum of what the positions accrue over it, and exceeds that sum
  by at most one unit per checkpoint and one per position.
\<close>

theorem aggregate_covers_positions:
  assumes "list_all2 (\<lambda>dt a. pending_aggregate_interest (\<Sum>(d, r) \<leftarrow> ps. d * r) dt = Some a) dts as"
    and "list_all2 (\<lambda>(d, r) i. accrued_interest d r (sum_list dts) = Some i) ps is"
  shows "sum_list is \<le> sum_list as \<and> sum_list as \<le> sum_list is + length ps + length dts"
proof
  have "sum_list is * INTEREST_DENOM \<le> sum_list as * INTEREST_DENOM"
    using position_accruals(1) [OF assms(2)] aggregate_checkpoints(1) [OF assms(1)] by (rule le_trans)
  then show "sum_list is \<le> sum_list as" by simp
  have "sum_list as * INTEREST_DENOM \<le> (sum_list is + length ps + length dts) * INTEREST_DENOM"
    using position_accruals(2) [OF assms(2)] aggregate_checkpoints(2) [OF assms(1)]
    by (simp add: algebra_simps)
  then show "sum_list as \<le> sum_list is + length ps + length dts" by simp
qed

theorem aggregate_covers_positions_witness:
  "list_all2 (\<lambda>dt a. pending_aggregate_interest (\<Sum>(d, r) \<leftarrow> [(1000000, 500), (2500000, 650)]. d * r) dt = Some a)
     [86400, 60] [583, 1] \<and>
   list_all2 (\<lambda>(d, r) i. accrued_interest d r (sum_list [86400, 60]) = Some i)
     [(1000000, 500), (2500000, 650)] [137, 445] \<and>
   sum_list [137, 445 :: nat] \<le> sum_list [583, 1]"
proof -
  have a: "list_all2 (\<lambda>dt a. pending_aggregate_interest (\<Sum>(d, r) \<leftarrow> [(1000000, 500), (2500000, 650)]. d * r) dt = Some a)
     [86400, 60] [583, 1]"
    by (simp add: pending_aggregate_interest_Some is_u128_def cdiv_def INTEREST_DENOM_def
        SECONDS_PER_YEAR_def INTEREST_RATE_DENOM_def)
  have b: "list_all2 (\<lambda>(d, r) i. accrued_interest d r (sum_list [86400, 60]) = Some i)
     [(1000000, 500), (2500000, 650)] [137, 445]"
    by (simp add: accrued_interest_Some is_u128_def INTEREST_DENOM_def
        SECONDS_PER_YEAR_def INTEREST_RATE_DENOM_def)
  show ?thesis using a b aggregate_covers_positions [OF a b] by simp
qed

end
