(* ===== verification/Recovery.thy ===== *)
theory Recovery
  imports Prelude
begin

text \<open>
  The loss waterfall of a liquidation, \<^verbatim>\<open>crates/fusd-math/src/recovery.rs\<close>: the debt of a liquidated
  position is homed in the reactor pool, then in redistribution, then in the market's insurance
  buffer, then in the global backstop; what is left is unhomed.
\<close>

record absorption =
  reactor :: nat
  redist :: nat
  buffer :: nat
  global :: nat
  unhomed :: nat

definition absorb :: "nat \<Rightarrow> nat \<Rightarrow> bool \<Rightarrow> nat \<Rightarrow> nat \<Rightarrow> absorption" where
  "absorb debt reactor_capacity has_redist_recipients buffer_balance global_available =
     (let reactor' = min debt reactor_capacity;
          rem = debt - reactor';
          redist' = (if has_redist_recipients then rem else 0);
          rem = rem - redist';
          buffer' = min rem buffer_balance;
          rem = rem - buffer';
          global' = min rem global_available;
          unhomed' = rem - global'
      in \<lparr> reactor = reactor', redist = redist', buffer = buffer', global = global', unhomed = unhomed' \<rparr>)"

text \<open>The homed part of the debt, by tier.\<close>

definition homed :: "absorption \<Rightarrow> nat" where
  "homed s = reactor s + redist s + buffer s + global s"

lemma absorb_tiers:
  "d \<le> c \<Longrightarrow> absorb d c h b g = \<lparr> reactor = d, redist = 0, buffer = 0, global = 0, unhomed = 0 \<rparr>"
  "absorb (c + k) c True b g = \<lparr> reactor = c, redist = k, buffer = 0, global = 0, unhomed = 0 \<rparr>"
  "k \<le> b \<Longrightarrow> absorb (c + k) c False b g = \<lparr> reactor = c, redist = 0, buffer = k, global = 0, unhomed = 0 \<rparr>"
  "k \<le> g \<Longrightarrow> absorb (c + (b + k)) c False b g = \<lparr> reactor = c, redist = 0, buffer = b, global = k, unhomed = 0 \<rparr>"
  "absorb (c + (b + (g + k))) c False b g = \<lparr> reactor = c, redist = 0, buffer = b, global = g, unhomed = k \<rparr>"
  by (simp_all only: absorb_def Let_def if_True if_False min.absorb2 min.absorb1 le_add1 diff_add_inverse
      diff_self_eq_0 min_0L diff_0_eq_0 diff_zero if_cancel)

lemma absorb_cases:
  fixes c b g d :: nat
  obtains (pool) "d \<le> c" | (spread) k where "h" "d = c + k" "0 < k"
    | (local) k where "\<not> h" "d = c + k" "0 < k" "k \<le> b"
    | (backstop) k where "\<not> h" "d = c + (b + k)" "0 < k" "k \<le> g"
    | (left) k where "\<not> h" "d = c + (b + (g + k))" "0 < k"
proof -
  consider "d \<le> c" | "c < d" "h" | "c < d" "d \<le> c + b" "\<not> h" | "c + b < d" "d \<le> c + b + g" "\<not> h"
    | "c + b + g < d" "\<not> h" by linarith
  then show ?thesis
  proof cases
    case 1 then show ?thesis by (rule pool)
  next
    case 2 then show ?thesis by (intro spread [of "d - c"]) simp_all
  next
    case 3 then show ?thesis by (intro local [of "d - c"]) simp_all
  next
    case 4 then show ?thesis by (intro backstop [of "d - (c + b)"]) simp_all
  next
    case 5 then show ?thesis by (intro left [of "d - (c + b + g)"]) simp_all
  qed
qed

lemma absorb_sum: "homed (absorb d c h b g) + unhomed (absorb d c h b g) = d"
  by (rule absorb_cases [where d = d and c = c and h = h and b = b and g = g]) (simp_all add: absorb_tiers homed_def)

text \<open>
  C10. The waterfall conserves the debt, never draws more from a tier than the tier has, and is strict:
  a tier is used only when every earlier tier is exhausted. Debt stays unhomed exactly when there
  are no redistribution recipients and the other three tiers together cannot cover it.
\<close>

theorem absorb_waterfall:
  fixes d c b g :: nat and h :: bool
  defines "s \<equiv> absorb d c h b g"
  shows "reactor s + redist s + buffer s + global s + unhomed s = d \<and>
    reactor s \<le> c \<and> buffer s \<le> b \<and> global s \<le> g \<and> (redist s > 0 \<longrightarrow> h) \<and>
    (redist s + buffer s + global s + unhomed s > 0 \<longrightarrow> reactor s = c) \<and>
    (buffer s + global s + unhomed s > 0 \<longrightarrow> \<not> h) \<and>
    (global s + unhomed s > 0 \<longrightarrow> buffer s = b) \<and>
    (unhomed s > 0 \<longrightarrow> global s = g) \<and>
    (unhomed s > 0 \<longleftrightarrow> \<not> h \<and> c + b + g < d)"
  unfolding s_def by (rule absorb_cases [where d = d and c = c and h = h and b = b and g = g]) (simp_all add: absorb_tiers)

theorem absorb_waterfall_witness:
  "absorb 1000 300 False 200 100 =
     \<lparr> reactor = 300, redist = 0, buffer = 200, global = 100, unhomed = 400 \<rparr> \<and>
   (unhomed (absorb 1000 300 False 200 100) > 0 \<longleftrightarrow> \<not> False \<and> (300::nat) + 200 + 100 < 1000)"
  proof
  show "absorb 1000 300 False 200 100 =
     \<lparr> reactor = 300, redist = 0, buffer = 200, global = 100, unhomed = 400 \<rparr>"
    by code_simp
  show "unhomed (absorb 1000 300 False 200 100) > 0 \<longleftrightarrow> \<not> False \<and> (300::nat) + 200 + 100 < 1000"
    using absorb_waterfall [of 1000 300 False 200 100] by blast
qed

end
