(* ===== verification/Rate_Bucket.thy ===== *)
theory Rate_Bucket
  imports Complex_Main Fixed_Point
begin

text \<open>
  The bitmap of non-empty rate buckets, \<^verbatim>\<open>crates/fusd-math/src/rate_bucket.rs\<close>, on a list of 64-bit
  words. Indexing past the end of the slice panics. The interface of a set of buckets with a
  lowest element is the locale \<open>bucket_set\<close>; the bitmap is an instance of it, and the coupling of
  a set of non-empty buckets with per-bucket member counts is proved once in the locale.
\<close>

subsection \<open>Operations\<close>

definition bucket_of :: "nat \<Rightarrow> nat \<Rightarrow> nat \<Rightarrow> 'e failure + nat" where
  "bucket_of rate_bps width_bps n =
     (let raw = rate_bps div (max width_bps 1)
      in bindR (sub_or_panic n 1) (\<lambda>top. Inr (min raw top)))"

definition num_buckets :: "64 word list \<Rightarrow> nat" where
  "num_buckets words = length words * 64"

definition bm_set :: "64 word list \<Rightarrow> nat \<Rightarrow> 'e failure + 64 word list" where
  "bm_set words b =
     (let i = drop_bit 6 b in
      if i < length words then Inr (words[i := words ! i OR push_bit (b AND 63) 1]) else Inl Panic)"

definition bm_clear :: "64 word list \<Rightarrow> nat \<Rightarrow> 'e failure + 64 word list" where
  "bm_clear words b =
     (let i = drop_bit 6 b in
      if i < length words then Inr (words[i := words ! i AND NOT (push_bit (b AND 63) 1)]) else Inl Panic)"

definition bm_is_set :: "64 word list \<Rightarrow> nat \<Rightarrow> 'e failure + bool" where
  "bm_is_set words b =
     (let i = drop_bit 6 b in
      if i < length words then Inr (words ! i AND push_bit (b AND 63) 1 \<noteq> 0) else Inl Panic)"

text \<open>\<open>u64::trailing_zeros\<close> and \<open>u64::count_ones\<close> of the standard library.\<close>

definition trailing_zeros :: "64 word \<Rightarrow> nat" where
  "trailing_zeros w = length (takeWhile (\<lambda>i. \<not> bit w i) [0..<64])"

definition count_ones :: "64 word \<Rightarrow> nat" where
  "count_ones w = length (filter (bit w) [0..<64])"

text \<open>The loop over the enumerated words, from index \<open>i\<close> on.\<close>

fun first_set_loop :: "nat \<Rightarrow> 64 word list \<Rightarrow> nat option" where
  "first_set_loop i [] = None"
| "first_set_loop i (w # ws) = (if w \<noteq> 0 then Some (i * 64 + trailing_zeros w) else first_set_loop (i + 1) ws)"

definition first_set :: "64 word list \<Rightarrow> nat option" where
  "first_set words = first_set_loop 0 words"

definition first_set_from :: "64 word list \<Rightarrow> nat \<Rightarrow> nat option" where
  "first_set_from words from =
     (if from \<ge> num_buckets words then None
      else (let start_word = drop_bit 6 from;
                first_word = words ! start_word AND push_bit (from AND 63) (- 1)
            in if first_word \<noteq> 0 then Some (start_word * 64 + trailing_zeros first_word)
               else first_set_loop (start_word + 1) (drop (start_word + 1) words)))"

definition count_set :: "64 word list \<Rightarrow> nat" where
  "count_set words = sum_list (map count_ones words)"

datatype ordering = Less | Equal | Greater

definition cmp_collateral_ratio :: "'u u256 \<Rightarrow> nat \<Rightarrow> nat \<Rightarrow> nat \<Rightarrow> nat \<Rightarrow> ordering" where
  "cmp_collateral_ratio U ink_a art_a ink_b art_b =
     (let lhs = u_mul U (u_from U ink_a) (u_from U art_b);
          rhs = u_mul U (u_from U ink_b) (u_from U art_a)
      in if u_less U lhs rhs then Less else if u_less U rhs lhs then Greater else Equal)"

subsection \<open>Bits of the words\<close>

lemma and_63: "(b::nat) AND 63 = b mod 64"
  using take_bit_eq_mask [of 6 b] by (simp add: take_bit_eq_mod mask_eq_exp_minus_1)

lemma drop_6: "drop_bit 6 (b::nat) = b div 64"
  by (simp add: drop_bit_eq_div)

lemmas slot = and_63 drop_6

text \<open>The set of buckets a bitmap stands for.\<close>

definition members :: "64 word list \<Rightarrow> nat set" where
  "members words = {b. b < num_buckets words \<and> bit (words ! (b div 64)) (b mod 64)}"

lemma slot_lt: "b < num_buckets ws \<longleftrightarrow> b div 64 < length ws"
  by (simp add: num_buckets_def div_less_iff_less_mult)

lemma members_bit: "b \<in> members ws \<longleftrightarrow> b div 64 < length ws \<and> bit (ws ! (b div 64)) (b mod 64)"
  by (simp add: members_def slot_lt)

lemma finite_members [simp]: "finite (members ws)"
  by (rule finite_subset [of _ "{..<num_buckets ws}"]) (auto simp: members_def)

lemma div_mod_64_eq: "b = b' \<longleftrightarrow> b div 64 = b' div 64 \<and> b mod 64 = b' mod (64::nat)"
  by (metis div_mult_mod_eq)

lemma bit_pow_64: "bit (2 ^ k :: 64 word) n \<longleftrightarrow> k = n \<and> n < 64"
  by (auto simp: bit_exp_iff)

lemma and_pow_64: "w AND 2 ^ k = 0 \<longleftrightarrow> \<not> (k < 64 \<and> bit w k)" for w :: "64 word"
proof -
  have "w AND 2 ^ k = 0 \<longleftrightarrow> (\<forall>n. \<not> (bit w n \<and> k = n \<and> n < 64))"
    by (auto simp add: bit_eq_iff [of "w AND 2 ^ k"] bit_and_iff bit_pow_64)
  then show ?thesis by auto
qed

lemma bm_set_members:
  assumes "b < num_buckets ws"
  shows "\<exists>ws'. bm_set ws b = Inr ws' \<and> members ws' = insert b (members ws) \<and> length ws' = length ws"
proof -
  define ws' where "ws' = ws[b div 64 := ws ! (b div 64) OR push_bit (b mod 64) 1]"
  have "c \<in> members ws' \<longleftrightarrow> c \<in> insert b (members ws)" for c
    using assms unfolding ws'_def
    by (cases "c div 64 = b div 64")
       (auto simp: members_bit slot_lt div_mod_64_eq [of c b] bit_or_iff bit_pow_64)
  then show ?thesis using assms by (auto simp: bm_set_def slot slot_lt Let_def ws'_def)
qed

lemma bm_clear_members:
  assumes "b < num_buckets ws"
  shows "\<exists>ws'. bm_clear ws b = Inr ws' \<and> members ws' = members ws - {b} \<and> length ws' = length ws"
proof -
  define ws' where "ws' = ws[b div 64 := ws ! (b div 64) AND NOT (push_bit (b mod 64) 1)]"
  have "c \<in> members ws' \<longleftrightarrow> c \<in> members ws - {b}" for c
    using assms unfolding ws'_def
    by (cases "c div 64 = b div 64")
       (auto simp: members_bit slot_lt div_mod_64_eq [of c b] bit_and_iff bit_not_iff bit_pow_64)
  then show ?thesis using assms by (auto simp: bm_clear_def slot slot_lt Let_def ws'_def)
qed

lemma bm_is_set_members: "b < num_buckets ws \<Longrightarrow> bm_is_set ws b = Inr (b \<in> members ws)"
  by (simp add: bm_is_set_def slot slot_lt Let_def members_bit and_pow_64)

lemma trailing_zeros_spec:
  assumes "w \<noteq> 0"
  shows "trailing_zeros w < 64" "bit w (trailing_zeros w)" "i < trailing_zeros w \<Longrightarrow> \<not> bit w i"
proof -
  obtain n where n: "bit w n" "n < 64"
    using assms by (auto simp: bit_eq_iff dest: bit_imp_le_length)
  define t where "t = takeWhile (\<lambda>i. \<not> bit w i) [0..<64]"
  have len: "length t < 64"
  proof (rule ccontr)
    assume "\<not> length t < 64"
    then have "length t = length [0..<64]" using length_takeWhile_le [of "\<lambda>i. \<not> bit w i" "[0..<64]"] by (simp add: t_def)
    then have "t = [0..<64]" unfolding t_def by (metis takeWhile_eq_take take_all order_refl)
    then have "n \<in> set t" using n(2) by simp
    then show False using n(1) set_takeWhileD unfolding t_def by fastforce
  qed
  then show "trailing_zeros w < 64" by (simp add: trailing_zeros_def t_def)
  show "bit w (trailing_zeros w)"
    using nth_length_takeWhile [of "\<lambda>i. \<not> bit w i" "[0..<64]"] len by (simp add: trailing_zeros_def t_def)
  show "\<not> bit w i" if "i < trailing_zeros w"
  proof -
    have "t ! i = i" using that len takeWhile_nth [of i "\<lambda>i. \<not> bit w i" "[0..<64]"]
      by (simp add: trailing_zeros_def t_def)
    then have "i \<in> set t" using that nth_mem [of i t] by (simp add: trailing_zeros_def t_def)
    then show ?thesis unfolding t_def by (auto dest: set_takeWhileD)
  qed
qed

text \<open>The loop returns the lowest set bit at or above word \<open>i\<close>.\<close>

lemma first_set_loop_spec:
  "(case first_set_loop i ws of
      None \<Rightarrow> \<forall>w \<in> set ws. w = 0
    | Some b \<Rightarrow> i \<le> b div 64 \<and> b div 64 < i + length ws \<and> bit (ws ! (b div 64 - i)) (b mod 64) \<and>
        (\<forall>c. i * 64 \<le> c \<and> c < b \<longrightarrow> \<not> bit (ws ! (c div 64 - i)) (c mod 64)))"
proof (induction ws arbitrary: i)
  case (Cons w ws)
  show ?case
  proof (cases "w = 0")
    case True
    have *: "\<not> bit ((w # ws) ! (c div 64 - i)) (c mod 64)"
      if "i * 64 \<le> c" "(i + 1) * 64 \<le> c \<Longrightarrow> \<not> bit (ws ! (c div 64 - (i + 1))) (c mod 64)" for c
    proof (cases "(i + 1) * 64 \<le> c")
      case le: True
      then have "i + 1 \<le> c div 64" by (simp add: less_eq_div_iff_mult_less_eq)
      then have "c div 64 - i = Suc (c div 64 - (i + 1))" by linarith
      then show ?thesis using that(2) le by simp
    next
      case False
      then have "c div 64 = i" using that(1) by (intro div_nat_eqI) simp_all
      then show ?thesis using True by simp
    qed
    have step: "first_set_loop i (w # ws) = first_set_loop (i + 1) ws" using True by simp
    show ?thesis
    proof (cases "first_set_loop (i + 1) ws")
      case None
      then show ?thesis using Cons.IH [of "i + 1"] True by simp
    next
      case (Some b)
      note IH = Cons.IH [of "i + 1", unfolded Some option.case]
      then have idx: "b div 64 - i = Suc (b div 64 - (i + 1))" by linarith
      show ?thesis unfolding step Some option.case
      proof (intro conjI allI impI)
        show "i \<le> b div 64" "b div 64 < i + length (w # ws)" using IH by simp_all
        show "bit ((w # ws) ! (b div 64 - i)) (b mod 64)" unfolding idx nth_Cons_Suc using IH by blast
        show "\<not> bit ((w # ws) ! (c div 64 - i)) (c mod 64)" if "i * 64 \<le> c \<and> c < b" for c
          using that IH by (intro *) blast+
      qed
    qed
  next
    case False
    note tz = trailing_zeros_spec [OF False]
    have d: "(i * 64 + trailing_zeros w) div 64 = i" "(i * 64 + trailing_zeros w) mod 64 = trailing_zeros w"
      using tz(1) by simp_all
    have "\<not> bit ((w # ws) ! (c div 64 - i)) (c mod 64)"
      if c: "i * 64 \<le> c" "c < i * 64 + trailing_zeros w" for c
    proof -
      obtain k where k: "c = i * 64 + k" using c(1) by (metis le_Suc_ex)
      then have "k < trailing_zeros w" "c div 64 = i" "c mod 64 = k" using c(2) tz(1) by simp_all
      then show ?thesis using tz(3) by simp
    qed
    moreover have "first_set_loop i (w # ws) = Some (i * 64 + trailing_zeros w)" using False by simp
    ultimately show ?thesis using tz(2) by (simp only: option.case d) simp
  qed
qed simp

lemma members_empty: "members ws = {} \<longleftrightarrow> (\<forall>w \<in> set ws. w = 0)"
proof
  assume e: "members ws = {}"
  show "\<forall>w \<in> set ws. w = 0"
  proof (intro ballI bit_word_eqI)
    fix w n assume "w \<in> set ws" and n: "n < LENGTH(64)"
    then obtain i where i: "i < length ws" "ws ! i = w" by (auto simp: in_set_conv_nth)
    then show "bit w n \<longleftrightarrow> bit (0 :: 64 word) n"
      using e n members_bit [of "i * 64 + n" ws] by simp
  qed
qed (auto simp: members_bit all_set_conv_all_nth)

lemma first_set_Min: "first_set ws = (if members ws = {} then None else Some (Min (members ws)))"
proof (cases "first_set_loop 0 ws")
  case None
  then show ?thesis using first_set_loop_spec [where i = 0 and ws = ws] by (simp add: first_set_def members_empty)
next
  case (Some b)
  have b: "b \<in> members ws" and least: "\<And>c. c < b \<Longrightarrow> c div 64 < length ws \<Longrightarrow> c \<notin> members ws"
    using first_set_loop_spec [where i = 0 and ws = ws] unfolding Some option.case by (auto simp: members_bit)
  then have "Min (members ws) = b"
    by (intro Min_eqI) (auto simp: members_bit intro: leI)
  then show ?thesis using b Some by (auto simp: first_set_def)
qed

lemma bit_ge_mask: "bit (w AND push_bit k (- 1)) n \<longleftrightarrow> k \<le> n \<and> bit w n" for w :: "64 word"
  by (auto simp: bit_simps dest: bit_imp_le_length)

text \<open>The search from a given bucket returns the lowest member at or above it.\<close>

lemma first_set_from_Some:
  assumes "first_set_from ws from = Some b"
  shows "b \<in> members ws \<and> from \<le> b \<and> (\<forall>c \<in> members ws. from \<le> c \<longrightarrow> b \<le> c)"
proof -
  define i where "i = from div 64"
  define fw where "fw = ws ! i AND push_bit (from mod 64) (- 1)"
  have i: "i < length ws" "from = i * 64 + from mod 64"
    using assms by (auto simp: first_set_from_def slot_lt i_def not_le split: if_splits)
  have b: "(if fw \<noteq> 0 then Some (i * 64 + trailing_zeros fw) else first_set_loop (i + 1) (drop (i + 1) ws)) = Some b"
    using assms by (auto simp: first_set_from_def slot Let_def i_def fw_def split: if_splits)
  have fwbit: "bit fw n \<longleftrightarrow> from mod 64 \<le> n \<and> bit (ws ! i) n" for n
    by (simp only: fw_def bit_ge_mask)
  have above: "from \<le> c \<Longrightarrow> c div 64 = i \<Longrightarrow> from mod 64 \<le> c mod 64" for c
    using i(2) div_mult_mod_eq [of c 64] by simp
  show ?thesis
  proof (cases "fw = 0")
    case False
    note tz = trailing_zeros_spec [OF False]
    then have k1: "b = i * 64 + trailing_zeros fw" using b False by simp
    then have k: "b = i * 64 + trailing_zeros fw" "b div 64 = i" "b mod 64 = trailing_zeros fw"
      unfolding k1 using tz(1) by simp_all
    have *: "from mod 64 \<le> trailing_zeros fw" "bit (ws ! i) (trailing_zeros fw)"
      using tz(2) unfolding fwbit by simp_all
    have "b \<le> c" if c: "c \<in> members ws" "from \<le> c" for c
    proof (cases "c div 64 = i")
      case True
      then have "bit fw (c mod 64)" using c above by (simp add: fwbit members_bit)
      then have "trailing_zeros fw \<le> c mod 64" using tz(3) by (meson leI)
      then show ?thesis using k(1) True div_mult_mod_eq [of c 64] by simp
    next
      case False
      have "i \<le> c div 64" using c(2) unfolding i_def by (rule div_le_mono)
      then have "Suc i * 64 \<le> c" using False div_times_less_eq_dividend [of c 64]
        by (metis Suc_leI le_neq_implies_less mult_le_mono1 order_trans)
      then show ?thesis using k(1) tz(1) by simp
    qed
    then show ?thesis using * i k by (auto simp: members_bit)
  next
    case True
    then have l: "first_set_loop (i + 1) (drop (i + 1) ws) = Some b" using b by simp
    note spec = first_set_loop_spec [where i = "i + 1" and ws = "drop (i + 1) ws", unfolded l option.case]
    then have d: "i + 1 \<le> b div 64" "b div 64 < length ws" using i(1) by auto
    then have nth: "i + 1 \<le> k \<Longrightarrow> k \<le> b div 64 \<Longrightarrow> drop (i + 1) ws ! (k - (i + 1)) = ws ! k" for k by simp
    have "b \<in> members ws" using spec d nth [of "b div 64"] by (simp add: members_bit)
    moreover have "from \<le> b"
    proof -
      have "(i + 1) * 64 \<le> b" using d(1) by (simp add: less_eq_div_iff_mult_less_eq)
      then show ?thesis using i(2) mod_less_divisor [of 64 "from"] by simp
    qed
    moreover have "b \<le> c" if c: "c \<in> members ws" "from \<le> c" for c
    proof (rule ccontr)
      assume "\<not> b \<le> c"
      then have lt: "c < b" by simp
      have "c div 64 \<noteq> i"
        using True c above by (auto simp: members_bit bit_eq_iff [of fw] fwbit)
      moreover have "i \<le> c div 64" using c(2) unfolding i_def by (rule div_le_mono)
      ultimately have ge: "i + 1 \<le> c div 64" by simp
      then have "(i + 1) * 64 \<le> c" by (simp add: less_eq_div_iff_mult_less_eq)
      then have "\<not> bit (drop (i + 1) ws ! (c div 64 - (i + 1))) (c mod 64)" using spec lt by blast
      then have "\<not> bit (ws ! (c div 64)) (c mod 64)"
        using nth [OF ge div_le_mono [OF less_imp_le [OF lt]]] by simp
      then show False using c(1) by (simp add: members_bit)
    qed
    ultimately show ?thesis by blast
  qed
qed

lemma first_set_from_None:
  assumes "first_set_from ws from = None" "c \<in> members ws"
  shows "c < from"
proof (rule ccontr)
  assume "\<not> c < from"
  then have le: "from \<le> c" by simp
  define i where "i = from div 64"
  define fw where "fw = ws ! i AND push_bit (from mod 64) (- 1)"
  have c: "c div 64 < length ws" "bit (ws ! (c div 64)) (c mod 64)" using assms(2) by (simp_all add: members_bit)
  have ic: "i \<le> c div 64" using le unfolding i_def by (rule div_le_mono)
  have "from < num_buckets ws" using le assms(2) by (simp add: members_def)
  then have none: "fw = 0" "first_set_loop (i + 1) (drop (i + 1) ws) = None"
    using assms(1) by (auto simp: first_set_from_def slot Let_def i_def fw_def split: if_splits)
  show False
  proof (cases "c div 64 = i")
    case True
    then have "from mod 64 \<le> c mod 64"
      using le div_mult_mod_eq [of c 64] div_mult_mod_eq [of "from" 64] unfolding i_def by linarith
    then have "bit fw (c mod 64)" using c(2) True by (simp only: fw_def bit_ge_mask)
    then show False using none(1) by simp
  next
    case False
    then have j: "i + 1 \<le> c div 64" using ic by simp
    have "\<forall>w \<in> set (drop (i + 1) ws). w = 0"
      using first_set_loop_spec [where i = "i + 1" and ws = "drop (i + 1) ws"] unfolding none(2) option.case .
    moreover have "ws ! (c div 64) \<in> set (drop (i + 1) ws)"
      using nth_mem [of "c div 64 - (i + 1)" "drop (i + 1) ws"] j c(1) by simp
    ultimately show False using c(2) by auto
  qed
qed

lemma first_set_from_iff:
  "first_set_from ws from = Some m \<longleftrightarrow> m \<in> members ws \<and> from \<le> m \<and> (\<forall>c. from \<le> c \<and> c < m \<longrightarrow> c \<notin> members ws)"
    (is "_ \<longleftrightarrow> ?P m")
  "first_set_from ws from = None \<longleftrightarrow> (\<forall>c \<in> members ws. c < from)"
proof -
  have some: "?P n" if "first_set_from ws from = Some n" for n
    using first_set_from_Some [OF that] by (meson leD)
  have "n = m" if "?P n" "?P m" for n
    using that by (meson linorder_neqE_nat)
  then show "first_set_from ws from = Some m \<longleftrightarrow> ?P m"
    using some first_set_from_None [of ws "from" m] by (cases "first_set_from ws from") auto
  show "first_set_from ws from = None \<longleftrightarrow> (\<forall>c \<in> members ws. c < from)"
    using some first_set_from_None [of ws "from"] by (cases "first_set_from ws from") (auto simp: not_less)
qed

lemma first_set_from_0: "first_set ws = first_set_from ws 0"
proof (cases "first_set_from ws 0")
  case None
  then have "members ws = {}" unfolding first_set_from_iff by auto
  then show ?thesis using None by (simp add: first_set_Min)
next
  case (Some m)
  then have "m \<in> members ws" "\<forall>c<m. c \<notin> members ws" unfolding first_set_from_iff by auto
  then have "Min (members ws) = m" by (intro Min_eqI) (auto intro: leI)
  then show ?thesis using \<open>m \<in> members ws\<close> Some by (auto simp: first_set_Min)
qed

lemma bucket_of_Inr [res_simps]:
  "bucket_of r w n = Inr b \<longleftrightarrow> 1 \<le> n \<and> b = min (r div max w 1) (n - 1)"
  by (auto simp: bucket_of_def Let_def res_simps num_simps)

lemma bucket_of_mono:
  assumes "bucket_of r w n = Inr b" "bucket_of r' w n = Inr b'" "r \<le> r'"
  shows "b \<le> b'"
  using assms div_le_mono [OF assms(3), of "max w 1"] by (auto simp: bucket_of_Inr min_def)

lemma cmp_collateral_ratio_exact:
  assumes "u256_laws U" "ink_a < 2 ^ 64" "ink_b < 2 ^ 64" "art_a < 2 ^ 128" "art_b < 2 ^ 128"
  shows "cmp_collateral_ratio U ink_a art_a ink_b art_b =
    (if ink_a * art_b < ink_b * art_a then Less else if ink_b * art_a < ink_a * art_b then Greater else Equal)"
proof -
  have *: "x * y < 2 ^ 256" if "x < 2 ^ 64" "y < 2 ^ 128" for x y :: nat
  proof -
    have "x * y < 2 ^ 64 * 2 ^ 128" using that by (intro mult_strict_mono) simp_all
    also have "\<dots> \<le> 2 ^ 256" by simp
    finally show ?thesis .
  qed
  then have "ink_a * art_b < 2 ^ 256" "ink_b * art_a < 2 ^ 256"
    using * [OF assms(2,5)] * [OF assms(3,4)] by auto
  then show ?thesis using assms by (simp add: cmp_collateral_ratio_def u256_laws_def Let_def)
qed

subsection \<open>Sets of buckets\<close>

text \<open>
  What a client relies on: buckets below the capacity can be added, removed and tested, none of
  these operations fails, and the lowest member can be found.
\<close>

locale bucket_set =
  fixes cap :: "'s \<Rightarrow> nat"
    and elems :: "'s \<Rightarrow> nat set"
    and add :: "'s \<Rightarrow> nat \<Rightarrow> 'f + 's"
    and del :: "'s \<Rightarrow> nat \<Rightarrow> 'f + 's"
    and mem :: "'s \<Rightarrow> nat \<Rightarrow> 'f + bool"
    and low :: "'s \<Rightarrow> nat option"
  assumes elems_cap: "b \<in> elems s \<Longrightarrow> b < cap s"
    and add: "b < cap s \<Longrightarrow> \<exists>s'. add s b = Inr s' \<and> elems s' = insert b (elems s) \<and> cap s' = cap s"
    and del: "b < cap s \<Longrightarrow> \<exists>s'. del s b = Inr s' \<and> elems s' = elems s - {b} \<and> cap s' = cap s"
    and mem: "b < cap s \<Longrightarrow> mem s b = Inr (b \<in> elems s)"
    and low: "low s = (if elems s = {} then None else Some (Min (elems s)))"
begin

lemma finite_elems: "finite (elems s)"
  by (rule finite_subset [of _ "{..<cap s}"]) (auto dest: elems_cap)

text \<open>The set is coupled with member counts when it holds exactly the buckets with a member.\<close>

definition coupled :: "'s \<Rightarrow> nat list \<Rightarrow> bool" where
  "coupled s counts \<longleftrightarrow> length counts = cap s \<and> elems s = {b. b < cap s \<and> 0 < counts ! b}"

lemma coupled_add:
  assumes "coupled s counts" "b < cap s" "add s b = Inr s'" "0 < n"
  shows "coupled s' (counts[b := n])"
  using assms add [of b s] by (auto simp: coupled_def nth_list_update)

lemma coupled_same:
  assumes "coupled s counts" "b < cap s" "0 < n" "0 < counts ! b"
  shows "coupled s (counts[b := n])"
  using assms by (auto simp: coupled_def nth_list_update)

lemma coupled_del:
  assumes "coupled s counts" "b < cap s" "del s b = Inr s'"
  shows "coupled s' (counts[b := 0])"
  using assms del [of b s] by (auto simp: coupled_def nth_list_update)

lemma coupled_low:
  assumes "coupled s counts" "low s = Some b"
  shows "b < cap s" "0 < counts ! b" "c < b \<Longrightarrow> counts ! c = 0"
proof -
  have ne: "elems s \<noteq> {}" and b: "b = Min (elems s)" using assms(2) by (auto simp: low split: if_splits)
  then have "b \<in> elems s" using finite_elems by (simp add: b)
  then show "b < cap s" "0 < counts ! b" using assms(1) by (auto simp: coupled_def)
  show "counts ! c = 0" if "c < b"
  proof (rule ccontr)
    assume "counts ! c \<noteq> 0"
    then have "c \<in> elems s" using assms(1) that \<open>b < cap s\<close> by (auto simp: coupled_def)
    then show False using that Min_le [OF finite_elems, of c s] by (simp add: b)
  qed
qed

lemma coupled_low_None:
  assumes "coupled s counts" "low s = None" "b < cap s"
  shows "counts ! b = 0"
  using assms by (auto simp: coupled_def low split: if_splits)

end

interpretation bitmap: bucket_set num_buckets members bm_set bm_clear bm_is_set first_set
proof
  show "b < num_buckets s" if "b \<in> members s" for b s using that by (simp add: members_def)
  show "\<exists>s'. bm_set s b = Inr s' \<and> members s' = insert b (members s) \<and> num_buckets s' = num_buckets s"
    if "b < num_buckets s" for b s using bm_set_members [OF that] by (auto simp: num_buckets_def)
  show "\<exists>s'. bm_clear s b = Inr s' \<and> members s' = members s - {b} \<and> num_buckets s' = num_buckets s"
    if "b < num_buckets s" for b s using bm_clear_members [OF that] by (auto simp: num_buckets_def)
qed (simp_all add: bm_is_set_members first_set_Min)

subsection \<open>The properties of the component\<close>

text \<open>
  C11. The bitmap is a set of buckets: after setting or clearing a bucket in range the test of every
  bucket in range answers as for the set with that bucket inserted or removed, and no operation
  panics. \<open>first_set_from\<close> returns the least bucket at or above its start that tests set, and \<open>None\<close>
  exactly when every bucket from there on tests clear; \<open>first_set\<close> is that search from bucket 0, so on
  a bitmap with no bucket set it is \<open>None\<close>.
\<close>

theorem bitmap_is_bucket_set:
  fixes ws :: "64 word list"
  assumes "b < num_buckets ws"
  shows "\<exists>ws1 ws2. bm_set ws b = (Inr ws1 :: 'e failure + _) \<and> bm_clear ws b = (Inr ws2 :: 'e failure + _) \<and>
    (\<forall>c < num_buckets ws.
       bm_is_set ws1 c = (if c = b then Inr True else bm_is_set ws c :: 'e failure + _) \<and>
       bm_is_set ws2 c = (if c = b then Inr False else bm_is_set ws c :: 'e failure + _)) \<and>
    first_set ws1 = Some (case first_set ws of None \<Rightarrow> b | Some m \<Rightarrow> min m b) \<and>
    (\<forall>from m. first_set_from ws from = Some m \<longleftrightarrow>
       m < num_buckets ws \<and> from \<le> m \<and> bm_is_set ws m = (Inr True :: 'e failure + _) \<and>
       (\<forall>c. from \<le> c \<and> c < m \<longrightarrow> bm_is_set ws c = (Inr False :: 'e failure + _))) \<and>
    (\<forall>from. first_set_from ws from = None \<longleftrightarrow>
       (\<forall>c < num_buckets ws. from \<le> c \<longrightarrow> bm_is_set ws c = (Inr False :: 'e failure + _))) \<and>
    first_set ws = first_set_from ws 0 \<and>
    (first_set ws = None \<longleftrightarrow> (\<forall>c < num_buckets ws. bm_is_set ws c = (Inr False :: 'e failure + _)))"
proof -
  obtain ws1 where 1: "bm_set ws b = (Inr ws1 :: 'e failure + _)" "members ws1 = insert b (members ws)"
      "num_buckets ws1 = num_buckets ws" using bitmap.add [OF assms] by blast
  obtain ws2 where 2: "bm_clear ws b = (Inr ws2 :: 'e failure + _)" "members ws2 = members ws - {b}"
      "num_buckets ws2 = num_buckets ws" using bitmap.del [OF assms] by blast
  have test: "bm_is_set ws1 c = (if c = b then Inr True else bm_is_set ws c :: 'e failure + _) \<and>
      bm_is_set ws2 c = (if c = b then Inr False else bm_is_set ws c :: 'e failure + _)"
    if "c < num_buckets ws" for c using 1 2 that by (auto simp: bm_is_set_members)
  have low: "first_set ws1 = Some (case first_set ws of None \<Rightarrow> b | Some m \<Rightarrow> min m b)"
    by (simp add: first_set_Min 1 min.commute)
  have some: "first_set_from ws from = Some m \<longleftrightarrow>
      m < num_buckets ws \<and> from \<le> m \<and> bm_is_set ws m = (Inr True :: 'e failure + _) \<and>
      (\<forall>c. from \<le> c \<and> c < m \<longrightarrow> bm_is_set ws c = (Inr False :: 'e failure + _))" for "from" m
    unfolding first_set_from_iff by (auto simp: bm_is_set_members members_def)
  have none: "first_set_from ws from = None \<longleftrightarrow>
      (\<forall>c < num_buckets ws. from \<le> c \<longrightarrow> bm_is_set ws c = (Inr False :: 'e failure + _))" for "from"
    unfolding first_set_from_iff by (auto simp: bm_is_set_members members_def not_le)
  show ?thesis
    using 1(1) 2(1) test low some none first_set_from_0 [of ws] none [of 0] by (intro exI conjI allI impI) auto
qed

theorem bitmap_is_bucket_set_witness:
  "(3::nat) < num_buckets [0, 2] \<and> first_set [0, 2 :: 64 word] = Some 65 \<and>
   bm_set [0, 2] 3 = (Inr [8, 2] :: unit failure + _) \<and> first_set [8, 2 :: 64 word] = Some 3"
proof -
  have n: "(3::nat) < num_buckets [0, 2]" and f: "first_set [0, 2 :: 64 word] = Some 65"
    and s: "bm_set [0, 2] 3 = (Inr [8, 2] :: unit failure + _)" by code_simp+
  from bitmap_is_bucket_set [OF n, where 'e = unit] obtain ws1
    where "bm_set [0, 2] 3 = (Inr ws1 :: unit failure + _)"
      "first_set ws1 = Some (case first_set [0, 2] of None \<Rightarrow> 3 | Some m \<Rightarrow> min m 3)" by (elim exE conjE)
  then show ?thesis using n f s by simp
qed

text \<open>
  C12. \<open>cmp_collateral_ratio\<close> orders positions with debt by their exact collateral ratio: its result is
  the order of the two rational numbers, for every 256-bit arithmetic with the documented laws.
\<close>

theorem cmp_collateral_ratio_orders:
  assumes "u256_laws U" "ink_a < 2 ^ 64" "ink_b < 2 ^ 64" "art_a < 2 ^ 128" "art_b < 2 ^ 128"
    and "0 < art_a" "0 < art_b"
  defines "cr_a \<equiv> (of_nat ink_a / of_nat art_a :: rat)" and "cr_b \<equiv> (of_nat ink_b / of_nat art_b :: rat)"
  shows "cmp_collateral_ratio U ink_a art_a ink_b art_b =
    (if cr_a < cr_b then Less else if cr_b < cr_a then Greater else Equal)"
proof -
  have "cr_a < cr_b \<longleftrightarrow> ink_a * art_b < ink_b * art_a" "cr_b < cr_a \<longleftrightarrow> ink_b * art_a < ink_a * art_b"
    using assms(6,7) by (simp_all add: cr_a_def cr_b_def field_simps flip: of_nat_mult)
  then show ?thesis using cmp_collateral_ratio_exact [OF assms(1-5)] by simp
qed

theorem cmp_collateral_ratio_orders_witness:
  "cmp_collateral_ratio word256 150 100 160 101 = Less"
proof -
  have "cmp_collateral_ratio word256 150 100 160 101 =
    (if (of_nat 150 / of_nat 100 :: rat) < of_nat 160 / of_nat 101 then Less
     else if (of_nat 160 / of_nat 101 :: rat) < of_nat 150 / of_nat 100 then Greater else Equal)"
    by (rule cmp_collateral_ratio_orders [OF word256_laws]) simp_all
  then show ?thesis by simp
qed

end
