(* ===== verification/Redemption_Fee.thy ===== *)
theory Redemption_Fee
  imports Fixed_Point Complex_Main
begin

text \<open>
  The decaying volume-spike fee of redemptions, \<^verbatim>\<open>crates/fusd-math/src/redemption.rs\<close>.
\<close>

definition BASE_RATE_DECAY_PER_MINUTE :: nat where
  "BASE_RATE_DECAY_PER_MINUTE = 998076443575628823990894592"

definition BASE_RATE_BETA :: nat where "BASE_RATE_BETA = 2"

definition decay_base_rate :: "nat \<Rightarrow> int \<Rightarrow> nat" where
  "decay_base_rate base_rate secs_elapsed =
     (if base_rate = 0 \<or> secs_elapsed \<le> 0 then base_rate
      else (let minutes = nat secs_elapsed div 60 in
        if minutes = 0 then base_rate
        else (let factor = (case ray_pow BASE_RATE_DECAY_PER_MINUTE minutes of None \<Rightarrow> 0 | Some f \<Rightarrow> f)
              in (case ray_mul base_rate factor of None \<Rightarrow> 0 | Some r \<Rightarrow> r))))"

definition bump_base_rate :: "nat \<Rightarrow> nat \<Rightarrow> nat \<Rightarrow> nat" where
  "bump_base_rate base_rate redeemed total_debt =
     (if total_debt = 0 \<or> redeemed = 0 \<or> BASE_RATE_BETA = 0 then base_rate
      else (let frac = (case mul_div_floor redeemed RAY total_debt of None \<Rightarrow> 0 | Some f \<Rightarrow> f) div BASE_RATE_BETA
            in min (saturating_add 128 base_rate frac) RAY))"

definition effective_fee_bps :: "nat \<Rightarrow> nat \<Rightarrow> nat \<Rightarrow> nat \<Rightarrow> nat" where
  "effective_fee_bps base_rate floor_bps dynamic_max_bps cap_bps =
     (let dyn_bps = base_rate div (RAY div BPS_DENOMINATOR);
          dyn_capped = min dyn_bps dynamic_max_bps;
          eff = min (floor_bps + dyn_capped) cap_bps
      in eff mod 2 ^ 16)"

subsection \<open>The rounding error of \<open>ray_pow\<close>\<close>

lemma power_gap:
  fixes x y u :: real
  assumes "0 \<le> x" "x \<le> 1" "0 \<le> y" "y \<le> 1" "x - u \<le> y" "0 \<le> u"
  shows "x ^ n - real n * u \<le> y ^ n"
proof (induction n)
  case (Suc n)
  have 1: "x * x ^ n - u * x ^ n \<le> y * x ^ n"
    using mult_right_mono [OF assms(5), of "x ^ n"] assms(1) by (simp add: algebra_simps)
  have 2: "u * x ^ n \<le> u" using assms by (simp add: mult_left_le power_le_one)
  have 3: "y * (x ^ n - y ^ n) \<le> real n * u"
  proof (cases "x ^ n - y ^ n \<le> 0")
    case True
    then show ?thesis using assms(3,6) mult_nonneg_nonpos [of y "x ^ n - y ^ n"]
      by (meson mult_nonneg_nonneg of_nat_0_le_iff order_trans)
  next
    case False
    then have "y * (x ^ n - y ^ n) \<le> 1 * (x ^ n - y ^ n)" using assms(4) by (intro mult_right_mono) simp_all
    then have "y * (x ^ n - y ^ n) \<le> x ^ n - y ^ n" by simp
    then show ?thesis using Suc.IH by argo
  qed
  show ?case using 1 2 3 by (simp add: algebra_simps)
qed simp

lemma ray_mul_gap:
  assumes "ray_mul a b = Some c"
  shows "(real a / real RAY) * (real b / real RAY) - 1 / real RAY \<le> real c / real RAY"
proof -
  have c: "c = a * b div RAY" using assms by (auto simp: ray_mul_def num_simps)
  have "0 < RAY" by (simp add: RAY_def)
  then have "a * b \<le> (c + 1) * RAY" unfolding c using dividend_less_div_times [of RAY "a * b"] by simp
  then have "real a * real b \<le> (real c + 1) * real RAY"
    by (metis of_nat_1 of_nat_add of_nat_le_iff of_nat_mult)
  then have "real a * real b / (real RAY * real RAY) \<le> (real c + 1) * real RAY / (real RAY * real RAY)"
    by (intro divide_right_mono) simp_all
  also have "\<dots> = real c / real RAY + 1 / real RAY" using \<open>0 < RAY\<close> by (simp add: add_divide_distrib)
  finally show ?thesis by simp
qed

text \<open>Each step of the loop rounds down, so the result falls short of the power by at most one unit per factor.\<close>

lemma ray_pow_loop_gap:
  "z \<le> RAY \<Longrightarrow> b \<le> RAY \<Longrightarrow> ray_pow_loop z b e = Some r \<Longrightarrow>
   real z / real RAY * (real b / real RAY) ^ (2 * e) - real (2 * e) / real RAY \<le> real r / real RAY"
proof (induction z b e rule: ray_pow_loop.induct)
  case (1 z b e)
  have R: "0 < RAY" by (simp add: RAY_def)
  show ?case
  proof (cases "e > 0")
    case False
    then show ?thesis using "1.prems"(3) by (subst (asm) ray_pow_loop.simps) simp
  next
    case True
    obtain b' where b': "ray_mul b b = Some b'" "b' \<le> b" using ray_mul_below "1.prems"(2) by blast
    define u where "u = 1 / real RAY"
    define B where "B = real b / real RAY"
    define C where "C = real b' / real RAY"
    define Z where "Z = real z / real RAY"
    have le: "b' \<le> RAY" using b' "1.prems"(2) by simp
    have rng: "0 \<le> B" "B \<le> 1" "0 \<le> C" "C \<le> 1" "0 \<le> Z" "Z \<le> 1" "0 \<le> u"
      using "1.prems"(1,2) le R by (simp_all add: B_def C_def Z_def u_def)
    have sq: "B\<^sup>2 - u \<le> C" using ray_mul_gap [OF b'(1)] by (simp add: B_def C_def u_def power2_eq_square)
    have "(B\<^sup>2) ^ e - real e * u \<le> C ^ e"
      using rng sq by (intro power_gap) (simp_all add: power_le_one)
    then have "Z * ((B\<^sup>2) ^ e - real e * u) \<le> Z * C ^ e" using rng by (intro mult_left_mono)
    moreover have "Z * (real e * u) \<le> real e * u" using rng by (simp add: mult_left_le_one_le)
    ultimately have pow: "Z * B ^ (2 * e) - real e * u \<le> Z * C ^ e"
      by (simp add: power_mult right_diff_distrib)
    show ?thesis
    proof (cases "e mod 2 = 1")
      case odd: True
      obtain z' where z': "ray_mul z b' = Some z'" "z' \<le> z" using ray_mul_below "1.prems"(1) le by blast
      have loop: "ray_pow_loop z' b' (e div 2) = Some r"
        using "1.prems"(3) True odd b' z' by (simp add: ray_pow_loop.simps [of z b e])
      define D where "D = real z' / real RAY"
      have D: "Z * C - u \<le> D" using ray_mul_gap [OF z'(1)] by (simp add: Z_def C_def u_def D_def)
      have IH: "D * C ^ (2 * (e div 2)) - real (2 * (e div 2)) * u \<le> real r / real RAY"
        using "1.IH"(1) [OF True b'(1) odd z'(1) _ le loop] z' "1.prems"(1) by (simp add: D_def C_def u_def)
      have "(Z * C - u) * C ^ (2 * (e div 2)) \<le> D * C ^ (2 * (e div 2))"
        using D rng by (intro mult_right_mono) simp_all
      moreover have "u * C ^ (2 * (e div 2)) \<le> u" using rng by (simp add: mult_left_le power_le_one)
      moreover have e: "e = Suc (2 * (e div 2))" using odd by presburger
      then have ce: "Z * C ^ e = Z * C * C ^ (2 * (e div 2))" by (metis mult.assoc power_Suc)
      ultimately have "Z * C ^ e - u - real (2 * (e div 2)) * u \<le> real r / real RAY"
        using IH unfolding ce left_diff_distrib by linarith
      moreover have "real e * u = u + real (2 * (e div 2)) * u"
        using e by (metis (no_types) distrib_right mult.left_neutral of_nat_Suc)
      ultimately have "Z * B ^ (2 * e) - (real e * u + real e * u) \<le> real r / real RAY" using pow by linarith
      then show ?thesis by (simp add: Z_def B_def u_def field_simps)
    next
      case even: False
      have loop: "ray_pow_loop z b' (e div 2) = Some r"
        using "1.prems"(3) True even b' by (simp add: ray_pow_loop.simps [of z b e])
      have e: "2 * (e div 2) = e" using even by presburger
      have "Z * C ^ e - real e * u \<le> real r / real RAY"
        using "1.IH"(2) [OF True b'(1) even "1.prems"(1) le loop] unfolding e by (simp add: Z_def C_def u_def)
      then have "Z * B ^ (2 * e) - (real e * u + real e * u) \<le> real r / real RAY" using pow by linarith
      then show ?thesis by (simp add: Z_def B_def u_def field_simps)
    qed
  qed
qed

lemma ray_pow_gap:
  assumes "base \<le> RAY" "ray_pow base e = Some r"
  shows "(real base / real RAY) ^ e - real e / real RAY \<le> real r / real RAY"
    and "real r / real RAY \<le> (real base / real RAY) ^ e"
proof -
  have R: "0 < RAY" by (simp add: RAY_def)
  have "r * RAY ^ e \<le> base ^ e * RAY" by (rule ray_pow_lower_bound [OF assms(2)])
  then have "real r * real RAY ^ e \<le> real base ^ e * real RAY"
    by (metis of_nat_le_iff of_nat_mult of_nat_power)
  then show "real r / real RAY \<le> (real base / real RAY) ^ e"
    using R by (simp add: power_divide field_simps)
  define z where "z = (if e mod 2 = 1 then base else RAY)"
  have gap: "real z / real RAY * (real base / real RAY) ^ (2 * (e div 2)) - real (2 * (e div 2)) / real RAY
      \<le> real r / real RAY"
    using assms by (intro ray_pow_loop_gap) (simp_all add: z_def ray_pow_def)
  have "real z / real RAY * (real base / real RAY) ^ (2 * (e div 2)) = (real base / real RAY) ^ e"
  proof (cases "e mod 2 = 1")
    case True
    then have "e = Suc (2 * (e div 2))" by presburger
    then show ?thesis using True unfolding z_def by (metis power_Suc)
  next
    case False
    then have "2 * (e div 2) = e" by presburger
    then show ?thesis using False R by (simp add: z_def)
  qed
  moreover have "real (2 * (e div 2)) / real RAY \<le> real e / real RAY"
    by (intro divide_right_mono) simp_all
  ultimately show "(real base / real RAY) ^ e - real e / real RAY \<le> real r / real RAY" using gap by linarith
qed

subsection \<open>The base rate and the fee\<close>

lemma decay_factor_below: "BASE_RATE_DECAY_PER_MINUTE \<le> RAY"
  by (simp add: BASE_RATE_DECAY_PER_MINUTE_def RAY_def)

lemma decay_base_rate_le:
  assumes "base_rate < 2 ^ 128"
  shows "decay_base_rate base_rate secs \<le> base_rate"
proof -
  obtain f where f: "ray_pow BASE_RATE_DECAY_PER_MINUTE (nat secs div 60) = Some f" "f \<le> RAY"
    using ray_pow_below [OF decay_factor_below] by blast
  have "ray_mul base_rate f = Some (base_rate * f div RAY)"
    unfolding ray_mul_def using assms f(2) by (intro mul_div_floor_total) (simp_all add: RAY_def)
  moreover have "base_rate * f div RAY \<le> base_rate"
    using div_le_mono [OF mult_le_mono2 [OF f(2), of base_rate], of RAY] by simp
  ultimately show ?thesis by (simp add: decay_base_rate_def f Let_def)
qed

lemma decay_base_rate_u128: "base_rate < 2 ^ 128 \<Longrightarrow> decay_base_rate base_rate secs < 2 ^ 128"
  using decay_base_rate_le le_less_trans by blast

lemma bump_base_rate_le: "base_rate \<le> RAY \<Longrightarrow> bump_base_rate base_rate redeemed total_debt \<le> RAY"
  by (simp add: bump_base_rate_def Let_def)

lemma bump_base_rate_ge:
  assumes "base_rate \<le> RAY"
  shows "base_rate \<le> bump_base_rate base_rate redeemed total_debt"
  using assms by (simp add: bump_base_rate_def Let_def saturating_add_def RAY_def)

lemma effective_fee_eq:
  assumes "cap < 2 ^ 16"
  shows "effective_fee_bps r fl dm cap = min (fl + min (r div (RAY div BPS_DENOMINATOR)) dm) cap"
proof -
  have "min (fl + min (r div (RAY div BPS_DENOMINATOR)) dm) cap < 2 ^ 16" using assms by linarith
  then show ?thesis unfolding effective_fee_bps_def Let_def by simp
qed

lemma decay_base_rate_idle: "secs < 60 \<Longrightarrow> decay_base_rate r secs = r"
  by (auto simp: decay_base_rate_def Let_def nat_less_iff)

text \<open>The decay is geometric in the elapsed minutes, up to one unit of rounding for each.\<close>

lemma decay_base_rate_geometric:
  fixes q :: real and secs :: int
  assumes "r \<le> RAY"
  defines "q \<equiv> real BASE_RATE_DECAY_PER_MINUTE / real RAY" and "k \<equiv> nat secs div 60"
  shows "real r * q ^ k - real (k + 1) \<le> real (decay_base_rate r secs)"
    and "real (decay_base_rate r secs) \<le> real r * q ^ k"
proof -
  have R: "0 < RAY" by (simp add: RAY_def)
  have "real r * q ^ k - real (k + 1) \<le> real (decay_base_rate r secs) \<and>
    real (decay_base_rate r secs) \<le> real r * q ^ k"
  proof (cases "r = 0 \<or> k = 0")
    case True
    then have "decay_base_rate r secs = r" by (auto simp: decay_base_rate_def k_def Let_def)
    then show ?thesis using True by auto
  next
    case False
    obtain f where f: "ray_pow BASE_RATE_DECAY_PER_MINUTE k = Some f" "f \<le> RAY"
      using ray_pow_below [OF decay_factor_below] by blast
    obtain d where d: "ray_mul r f = Some d" using ray_mul_below [OF assms(1) f(2)] by blast
    have dec: "decay_base_rate r secs = d"
      using False f(1) d by (auto simp: decay_base_rate_def k_def Let_def)
    define F where "F = real f / real RAY"
    have F: "q ^ k - real k / real RAY \<le> F" "F \<le> q ^ k"
      using ray_pow_gap [OF decay_factor_below f(1)] by (simp_all add: F_def q_def)
    have "d * RAY \<le> r * f" by (rule ray_mul_le [OF d])
    then have "real d * real RAY \<le> real r * real f" by (metis of_nat_le_iff of_nat_mult)
    then have up: "real d \<le> real r * F" using R by (simp add: F_def field_simps)
    have "(real r * F - 1) / real RAY \<le> real d / real RAY"
      using ray_mul_gap [OF d] by (simp add: F_def diff_divide_distrib)
    then have lo: "real r * F - 1 \<le> real d" using R by (simp add: divide_le_cancel)
    have "real r * (q ^ k - real k / real RAY) \<le> real r * F" "real r * F \<le> real r * q ^ k"
      using F by (simp_all add: mult_left_mono)
    moreover have "real r * (real k / real RAY) \<le> real k"
    proof -
      have "real r / real RAY * real k \<le> 1 * real k" using assms(1) R by (intro mult_right_mono) simp_all
      then show ?thesis by simp
    qed
    ultimately show ?thesis unfolding dec using up lo by (simp add: right_diff_distrib)
  qed
  then show "real r * q ^ k - real (k + 1) \<le> real (decay_base_rate r secs)"
    "real (decay_base_rate r secs) \<le> real r * q ^ k" by simp_all
qed

lemma bump_base_rate_eq:
  assumes "r \<le> RAY" "redeemed \<le> debt" "debt < 2 ^ 128"
  shows "bump_base_rate r redeemed debt = min (r + redeemed * RAY div debt div 2) RAY"
proof (cases "debt = 0 \<or> redeemed = 0")
  case True
  then show ?thesis using assms(1,2) by (auto simp: bump_base_rate_def)
next
  case False
  have le: "redeemed * RAY div debt \<le> RAY"
    using div_le_mono [OF mult_le_mono1 [OF assms(2)], of RAY debt] False by simp
  have "mul_div_floor redeemed RAY debt = Some (redeemed * RAY div debt)"
    using False assms(2,3) le by (auto simp: num_simps is_u128_def RAY_def)
  moreover have "r + redeemed * RAY div debt div 2 < 2 ^ 128"
    using assms(1) le div_le_dividend [of "redeemed * RAY div debt" 2] by (simp add: RAY_def)
  ultimately show ?thesis using False
    by (simp add: bump_base_rate_def BASE_RATE_BETA_def saturating_add_def Let_def)
qed

text \<open>
  C13. The base rate decays geometrically between redemptions: within the first minute it is unchanged,
  and after \<open>k\<close> whole minutes it is the rate times the per-minute factor to the power \<open>k\<close>, never more and
  short of it by at most \<open>k + 1\<close> units of the 27-digit scale. A redemption of part of the outstanding
  debt raises it by exactly half the redeemed fraction, up to one. The fee is exactly the floor plus the
  base rate in basis points limited to the configured dynamic part, limited to the cap; so it stays
  between the floor (or the cap, when that is lower) and the cap, a decay never raises it, a redemption
  never lowers it, and it is the flat fee when the dynamic part is switched off.
\<close>

theorem redemption_fee_bounds:
  assumes "cap < 2 ^ 16" "r \<le> RAY"
  shows "(secs < 60 \<longrightarrow> decay_base_rate r secs = r) \<and>
    real (decay_base_rate r secs) \<le> real r * (real BASE_RATE_DECAY_PER_MINUTE / real RAY) ^ (nat secs div 60) \<and>
    real r * (real BASE_RATE_DECAY_PER_MINUTE / real RAY) ^ (nat secs div 60) - real (nat secs div 60 + 1)
      \<le> real (decay_base_rate r secs) \<and>
    decay_base_rate r secs \<le> r \<and>
    (redeemed \<le> debt \<and> debt < 2 ^ 128 \<longrightarrow>
      bump_base_rate r redeemed debt = min (r + redeemed * RAY div debt div 2) RAY) \<and>
    r \<le> bump_base_rate r redeemed debt \<and> bump_base_rate r redeemed debt \<le> RAY \<and>
    effective_fee_bps r fl dm cap = min (fl + min (r * 10000 div RAY) dm) cap \<and>
    min fl cap \<le> effective_fee_bps r fl dm cap \<and> effective_fee_bps r fl dm cap \<le> cap \<and>
    effective_fee_bps r fl dm cap \<le> fl + dm \<and>
    effective_fee_bps r fl 0 cap = min fl cap \<and>
    effective_fee_bps (decay_base_rate r secs) fl dm cap \<le> effective_fee_bps r fl dm cap \<and>
    effective_fee_bps r fl dm cap \<le> effective_fee_bps (bump_base_rate r redeemed debt) fl dm cap"
proof -
  have "r < 2 ^ 128" using assms(2) by (simp add: RAY_def)
  then have dl: "decay_base_rate r secs \<le> r" by (rule decay_base_rate_le)
  have bl: "r \<le> bump_base_rate r redeemed debt" by (rule bump_base_rate_ge [OF assms(2)])
  have d: "decay_base_rate r secs div (RAY div BPS_DENOMINATOR) \<le> r div (RAY div BPS_DENOMINATOR)"
    by (rule div_le_mono [OF dl])
  have b: "r div (RAY div BPS_DENOMINATOR) \<le> bump_base_rate r redeemed debt div (RAY div BPS_DENOMINATOR)"
    by (rule div_le_mono [OF bl])
  have "RAY = (RAY div BPS_DENOMINATOR) * 10000" by (simp add: RAY_def BPS_DENOMINATOR_def)
  then have bps: "r div (RAY div BPS_DENOMINATOR) = r * 10000 div RAY"
    by (metis div_mult_mult2 zero_neq_numeral)
  note fee = effective_fee_eq [OF assms(1)]
  show ?thesis
  proof (intro conjI impI)
    show "decay_base_rate r secs = r" if "secs < 60" using that by (rule decay_base_rate_idle)
    show "bump_base_rate r redeemed debt = min (r + redeemed * RAY div debt div 2) RAY"
      if "redeemed \<le> debt \<and> debt < 2 ^ 128" using that bump_base_rate_eq [OF assms(2)] by blast
    show "effective_fee_bps r fl dm cap = min (fl + min (r * 10000 div RAY) dm) cap" unfolding fee bps ..
  qed (use decay_base_rate_geometric [OF assms(2), of secs] dl bl bump_base_rate_le [OF assms(2)] d b in
    \<open>auto simp: fee\<close>)
qed

theorem redemption_fee_bounds_witness:
  "(500::nat) < 2 ^ 16 \<and> RAY div 10 \<le> RAY \<and>
   effective_fee_bps (RAY div 10) 50 2000 5000 = 1050 \<and>
   decay_base_rate (RAY div 10) 59 = RAY div 10 \<and>
   bump_base_rate (RAY div 10) 25 100 = RAY div 10 + RAY div 8"
  using redemption_fee_bounds [of 5000 "RAY div 10" 59 25 100 50 2000]
  by (simp add: RAY_def)

end
