(* ===== verification/Redistribution.thy ===== *)
theory Redistribution
  imports Fixed_Point
begin

text \<open>
  Redistribution of a liquidated position to the other stakers, \<^verbatim>\<open>crates/fusd-math/src/redistribution.rs\<close>:
  per-unit-staked accumulators of collateral and debt with error feedback, per-position snapshots
  and the stake of a position. The accounting argument for an accumulator with error feedback is
  the locale \<open>error_feedback\<close>.
\<close>

subsection \<open>State and operations\<close>

definition PRECISION :: nat where "PRECISION = 1000000000000000000"

datatype redist_error = NoStakes | AccumulatorOverflow | RedistMath

record redist_state =
  l_coll :: nat
  l_art :: nat
  last_coll_error :: nat
  last_art_error :: nat

record redist_snapshot =
  snap_l_coll :: nat
  snap_l_art :: nat

definition redist_snapshot_of :: "redist_state \<Rightarrow> redist_snapshot" where
  "redist_snapshot_of st = \<lparr> snap_l_coll = l_coll st, snap_l_art = l_art st \<rparr>"

text \<open>Returns the new accumulator and the new error term.\<close>

definition accumulate :: "nat \<Rightarrow> nat \<Rightarrow> nat \<Rightarrow> nat \<Rightarrow> redist_error + nat \<times> nat" where
  "accumulate l last_error total_stakes amount =
     bindR (ok_or (wide_muladd_div amount PRECISION last_error total_stakes) AccumulatorOverflow) (\<lambda>(rpu, rem).
     bindR (ok_or (checked_add 128 l rpu) AccumulatorOverflow) (\<lambda>l'.
     Inr (l', rem)))"

text \<open>The body over the 256-bit package.\<close>

definition accumulate_bnum :: "'u u256 \<Rightarrow> nat \<Rightarrow> nat \<Rightarrow> nat \<Rightarrow> nat \<Rightarrow> redist_error + nat \<times> nat" where
  "accumulate_bnum U l last_error total_stakes amount =
     bindR (ok_or (case u_checked_mul U (u_from U amount) (u_from U PRECISION) of
                     None \<Rightarrow> None
                   | Some x \<Rightarrow> u_checked_add U x (u_from U last_error)) RedistMath) (\<lambda>numerator.
     let ts = u_from U total_stakes;
         reward_per_unit = u_div U numerator ts in
     bindR (ok_or (u_try_u128 U (u_sub U numerator (u_mul U reward_per_unit ts))) RedistMath) (\<lambda>rem.
     bindR (ok_or (u_try_u128 U reward_per_unit) AccumulatorOverflow) (\<lambda>rpu.
     bindR (ok_or (checked_add 128 l rpu) AccumulatorOverflow) (\<lambda>l'.
     Inr (l', rem)))))"

definition redistribute :: "redist_state \<Rightarrow> nat \<Rightarrow> nat \<Rightarrow> nat \<Rightarrow> redist_error + redist_state" where
  "redistribute st total_stakes coll art =
     (if total_stakes = 0 then Inl NoStakes
      else bindR (accumulate (l_coll st) (last_coll_error st) total_stakes coll) (\<lambda>(lc, ec).
           let st = st\<lparr> l_coll := lc, last_coll_error := ec \<rparr> in
           bindR (accumulate (l_art st) (last_art_error st) total_stakes art) (\<lambda>(la, ea).
           Inr (st\<lparr> l_art := la, last_art_error := ea \<rparr>))))"

definition pending_one :: "nat \<Rightarrow> nat \<Rightarrow> nat \<Rightarrow> redist_error + nat" where
  "pending_one stake l_now l_snap =
     (let delta = l_now - l_snap in
      if stake = 0 \<or> delta = 0 then Inr 0
      else ok_or (mul_div_floor stake delta PRECISION) RedistMath)"

definition redist_pending :: "nat \<Rightarrow> redist_state \<Rightarrow> redist_snapshot \<Rightarrow> redist_error + nat \<times> nat" where
  "redist_pending stake st snap =
     bindR (pending_one stake (l_coll st) (snap_l_coll snap)) (\<lambda>c.
     bindR (pending_one stake (l_art st) (snap_l_art snap)) (\<lambda>a.
     Inr (c, a)))"

definition compute_stake :: "nat \<Rightarrow> nat \<Rightarrow> nat \<Rightarrow> redist_error + nat" where
  "compute_stake coll total_stakes_snapshot total_collateral_snapshot =
     (if total_collateral_snapshot = 0 then Inr coll
      else ok_or (mul_div_floor coll total_stakes_snapshot total_collateral_snapshot) RedistMath)"

subsection \<open>Functional behaviour\<close>

lemma PRECISION_pos [simp]: "0 < PRECISION" "PRECISION \<noteq> 0" by (simp_all add: PRECISION_def)

lemma accumulate_Inr:
  assumes "accumulate l e ts a = Inr (l', e')"
  shows "0 < ts" "l \<le> l'" "(l' - l) * ts + e' = a * PRECISION + e" "e' < ts" "l' < 2 ^ 128"
proof -
  have l': "l' = l + (a * PRECISION + e) div ts" "e' = (a * PRECISION + e) mod ts" and ts: "0 < ts"
    and b: "l' < 2 ^ 128"
    using assms by (auto simp: accumulate_def res_simps num_simps wide_muladd_div_eq split: if_splits)
  then show "0 < ts" "l \<le> l'" "(l' - l) * ts + e' = a * PRECISION + e" "e' < ts" "l' < 2 ^ 128" by auto
qed

lemma pending_one_Inr:
  assumes "pending_one s now snap = Inr p"
  shows "p = s * (now - snap) div PRECISION"
  using assms by (auto simp: pending_one_def Let_def res_simps num_simps split: if_splits)

lemma pending_one_total:
  assumes "s < 2 ^ 128" "now < 2 ^ 128" "s * (now - snap) < 2 ^ 128 * PRECISION"
  shows "pending_one s now snap = Inr (s * (now - snap) div PRECISION)"
proof -
  have "s * (now - snap) div PRECISION < 2 ^ 128" using assms(3) by (simp add: less_mult_imp_div_less)
  then have "mul_div_floor s (now - snap) PRECISION = Some (s * (now - snap) div PRECISION)"
    using assms by (simp add: num_simps is_u128_def PRECISION_def)
  then show ?thesis by (simp add: pending_one_def Let_def)
qed

lemma redist_pending_Inr:
  "redist_pending s st snap = Inr (c, a) \<Longrightarrow>
     c = s * (l_coll st - snap_l_coll snap) div PRECISION \<and> a = s * (l_art st - snap_l_art snap) div PRECISION"
  by (auto simp: redist_pending_def res_simps dest: pending_one_Inr)

lemma redist_pending_fresh: "redist_pending s st (redist_snapshot_of st) = Inr (0, 0)"
  by (simp add: redist_pending_def pending_one_def redist_snapshot_of_def)

lemma redistribute_Inr:
  assumes "redistribute st ts coll art = Inr st'"
  shows "accumulate (l_coll st) (last_coll_error st) ts coll = Inr (l_coll st', last_coll_error st')"
    and "accumulate (l_art st) (last_art_error st) ts art = Inr (l_art st', last_art_error st')"
  using assms by (auto simp: redistribute_def res_simps Let_def split: if_splits)

subsection \<open>Accumulators with error feedback\<close>

text \<open>
  A distribution of \<open>amount\<close> over \<open>ts\<close> stakes raises the per-unit accumulator and keeps the rounding
  remainder for the next one; nothing is lost. The scaled amount promised to a set of holders is
  what their stakes multiply out to plus the remainder kept.
\<close>

locale error_feedback =
  fixes dist :: "nat \<Rightarrow> nat \<Rightarrow> nat \<Rightarrow> nat \<Rightarrow> 'e + nat \<times> nat" and prec :: nat
  assumes prec_pos: "0 < prec"
    and exact: "dist l e ts a = Inr (l', e') \<Longrightarrow> l \<le> l' \<and> (l' - l) * ts + e' = a * prec + e"
begin

definition promised :: "('j \<Rightarrow> nat) \<Rightarrow> ('j \<Rightarrow> nat) \<Rightarrow> 'j set \<Rightarrow> nat \<Rightarrow> nat \<Rightarrow> nat" where
  "promised stake snap J l e = (\<Sum>j\<in>J. stake j * (l - snap j)) + e"

lemma promised_dist:
  assumes "dist l e (sum stake J) a = Inr (l', e')" "\<And>j. j \<in> J \<Longrightarrow> snap j \<le> l"
  shows "promised stake snap J l' e' = promised stake snap J l e + a * prec"
proof -
  have ex: "l \<le> l'" "(l' - l) * sum stake J + e' = a * prec + e" using exact [OF assms(1)] by auto
  have "(\<Sum>j\<in>J. stake j * (l' - snap j)) = (\<Sum>j\<in>J. stake j * (l - snap j) + stake j * (l' - l))"
    using ex(1) assms(2) by (intro sum.cong) (simp_all flip: add_mult_distrib2)
  also have "\<dots> = (\<Sum>j\<in>J. stake j * (l - snap j)) + (l' - l) * sum stake J"
    by (simp add: sum.distrib sum_distrib_left mult.commute)
  finally show ?thesis using ex(2) by (simp add: promised_def)
qed

text \<open>A holder that claims and takes a fresh snapshot gives up exactly its own share of the promise.\<close>

lemma promised_claim:
  assumes "finite J" "j \<in> J"
  shows "promised stake (snap(j := l)) J l e + stake j * (l - snap j) = promised stake snap J l e"
  using assms by (simp add: promised_def sum.remove cong: sum.cong_simp)

text \<open>A holder without a pending share can change its stake freely.\<close>

lemma promised_restake:
  assumes "finite J" "j \<in> J"
  shows "promised (stake(j := s)) (snap(j := l)) J l e = promised stake (snap(j := l)) J l e"
  using assms by (simp add: promised_def sum.remove cong: sum.cong_simp)

text \<open>The floors paid out never exceed the promise and fall short by less than one unit per holder.\<close>

lemma promised_floor:
  assumes "finite J"
  shows "(\<Sum>j\<in>J. stake j * (l - snap j) div prec) * prec + e \<le> promised stake snap J l e"
    and "promised stake snap J l e \<le> ((\<Sum>j\<in>J. stake j * (l - snap j) div prec) + card J) * prec + e"
proof -
  have "(\<Sum>j\<in>J. stake j * (l - snap j) div prec) * prec \<le> (\<Sum>j\<in>J. stake j * (l - snap j))"
    by (simp add: sum_distrib_right sum_mono)
  then show "(\<Sum>j\<in>J. stake j * (l - snap j) div prec) * prec + e \<le> promised stake snap J l e"
    by (simp add: promised_def)
  have "(\<Sum>j\<in>J. stake j * (l - snap j)) \<le> (\<Sum>j\<in>J. (stake j * (l - snap j) div prec) * prec + prec)"
    by (intro sum_mono less_imp_le) (metis add.commute dividend_less_div_times prec_pos)
  then show "promised stake snap J l e \<le> ((\<Sum>j\<in>J. stake j * (l - snap j) div prec) + card J) * prec + e"
    by (simp add: promised_def sum.distrib sum_distrib_right add_mult_distrib)
qed

end

interpretation redist_acc: error_feedback accumulate PRECISION
  by unfold_locales (use accumulate_Inr in auto)

text \<open>A sequence of redistributions over fixed stakes.\<close>

definition redistribute_all :: "redist_state \<Rightarrow> nat \<Rightarrow> (nat \<times> nat) list \<Rightarrow> redist_error + redist_state" where
  "redistribute_all st ts xs = foldR (\<lambda>st (c, a). redistribute st ts c a) st xs"

lemma redistribute_all_promised:
  assumes "redistribute_all st (sum stake J) xs = Inr st'"
    and "\<And>j. j \<in> J \<Longrightarrow> cs j \<le> l_coll st" "\<And>j. j \<in> J \<Longrightarrow> as j \<le> l_art st"
  shows "redist_acc.promised stake cs J (l_coll st') (last_coll_error st') =
           redist_acc.promised stake cs J (l_coll st) (last_coll_error st) + sum_list (map fst xs) * PRECISION \<and>
         redist_acc.promised stake as J (l_art st') (last_art_error st') =
           redist_acc.promised stake as J (l_art st) (last_art_error st) + sum_list (map snd xs) * PRECISION"
  using assms unfolding redistribute_all_def
proof (induction xs arbitrary: st)
  case (Cons x xs)
  obtain c a where x: "x = (c, a)" by force
  then obtain st1 where st1: "redistribute st (sum stake J) c a = Inr st1"
      "foldR (\<lambda>st (c, a). redistribute st (sum stake J) c a) st1 xs = Inr st'"
    using Cons.prems(1) by (auto simp: bindR_Inr)
  note acc = redistribute_Inr [OF st1(1)]
  have le: "j \<in> J \<Longrightarrow> cs j \<le> l_coll st1" "j \<in> J \<Longrightarrow> as j \<le> l_art st1" for j
    using Cons.prems(2,3) [of j] accumulate_Inr(2) [OF acc(1)] accumulate_Inr(2) [OF acc(2)] by auto
  show ?case
    using Cons.IH [OF st1(2) le] redist_acc.promised_dist [OF acc(1) Cons.prems(2)]
      redist_acc.promised_dist [OF acc(2) Cons.prems(3)]
    by (simp add: x add_mult_distrib)
qed simp

subsection \<open>The properties of the component\<close>

text \<open>
  C14. The shipped body of \<open>accumulate\<close> (over the 256-bit package) returns the same accumulator, error
  term and error value as the body over the crate's own 256-bit arithmetic, for a non-zero stake
  total; in particular its \<open>Math\<close> error is never returned.
\<close>

theorem accumulate_production:
  assumes "u256_laws U" "l < 2 ^ 128" "e < 2 ^ 128" "ts < 2 ^ 128" "a < 2 ^ 128" "0 < ts"
  shows "accumulate_bnum U l e ts a = accumulate l e ts a"
proof -
  have P: "PRECISION < 2 ^ 128" by (simp add: PRECISION_def)
  have "a * PRECISION \<le> (2 ^ 128 - 1) * (2 ^ 128 - 1)" using assms(5) P by (intro mult_le_mono) simp_all
  then have lt: "a * PRECISION + e < 2 ^ 256" "a * PRECISION < 2 ^ 256" using assms(3) by simp_all
  have from_: "u_val U (u_from U a) = a" "u_val U (u_from U PRECISION) = PRECISION" "u_val U (u_from U e) = e"
    and ts: "u_val U (u_from U ts) = ts"
    using assms(3-5) P u256_exact(1) [OF assms(1)] by blast+
  obtain n0 where n0: "u_checked_mul U (u_from U a) (u_from U PRECISION) = Some n0" "u_val U n0 = a * PRECISION"
    using u256_checked(1) [OF assms(1), of "u_from U a" "u_from U PRECISION"] lt(2) unfolding from_ by blast
  obtain n where n: "u_checked_add U n0 (u_from U e) = Some n" "u_val U n = a * PRECISION + e"
    using u256_checked(2) [OF assms(1), of n0 "u_from U e"] lt(1) unfolding from_ n0(2) by blast
  define N where "N = a * PRECISION + e"
  have q: "u_val U (u_div U n (u_from U ts)) = N div ts"
    using u256_exact(4) [OF assms(1), of "u_from U ts" n] assms(6) unfolding ts n(2) N_def by simp
  have le: "N div ts * ts \<le> N" by simp
  then have "N div ts * ts < 2 ^ 256" using lt(1) unfolding N_def by linarith
  then have m: "u_val U (u_mul U (u_div U n (u_from U ts)) (u_from U ts)) = N div ts * ts"
    using u256_exact(2) [OF assms(1), of "u_div U n (u_from U ts)" "u_from U ts"] unfolding q ts by blast
  have r: "u_val U (u_sub U n (u_mul U (u_div U n (u_from U ts)) (u_from U ts))) = N mod ts"
    using u256_exact(3) [OF assms(1), of _ n] m le n(2) unfolding N_def by (simp add: minus_div_mult_eq_mod)
  have "N mod ts < 2 ^ 128" using assms(4) mod_less_divisor [OF assms(6), of N] by linarith
  then have "u_try_u128 U (u_sub U n (u_mul U (u_div U n (u_from U ts)) (u_from U ts))) = Some (N mod ts)"
    unfolding u256_exact(8) [OF assms(1)] r by simp
  moreover have "u_try_u128 U (u_div U n (u_from U ts)) = (if N div ts < 2 ^ 128 then Some (N div ts) else None)"
    unfolding u256_exact(8) [OF assms(1)] q ..
  moreover have "wide_muladd_div a PRECISION e ts = (if N div ts < 2 ^ 128 then Some (N div ts, N mod ts) else None)"
    using assms(3-6) P by (simp add: wide_muladd_div_eq is_u128_def N_def)
  ultimately show ?thesis
    unfolding accumulate_bnum_def accumulate_def n0(1) option.case n(1) ok_or.simps bindR.simps Let_def
    by (cases "N div ts < 2 ^ 128") simp_all
qed

theorem accumulate_production_witness:
  "accumulate_bnum word256 5 7 3 10 = accumulate 5 7 3 10 \<and> accumulate 5 7 3 10 = Inr (3333333333333333340, 2)"
  using accumulate_production [OF word256_laws, of 5 7 3 10]
  by (simp add: accumulate_def wide_muladd_div_eq is_u128_def PRECISION_def checked_add_def)

text \<open>
  C15. Over any sequence of redistributions with fixed stakes, what the holders can claim never exceeds
  what was redistributed (plus the remainder carried in), in collateral and in debt, and falls
  short of it by less than one unit per holder plus the remainder carried out.
\<close>

theorem redistribution_conserves:
  assumes "redistribute_all st (sum stake J) xs = Inr st'" "finite J"
    and "\<And>j. j \<in> J \<Longrightarrow> redist_pending (stake j) st' (redist_snapshot_of st) = Inr (pc j, pa j)"
  shows "sum pc J * PRECISION \<le> sum_list (map fst xs) * PRECISION + last_coll_error st \<and>
    sum pa J * PRECISION \<le> sum_list (map snd xs) * PRECISION + last_art_error st \<and>
    sum_list (map fst xs) * PRECISION + last_coll_error st \<le> (sum pc J + card J) * PRECISION + last_coll_error st' \<and>
    sum_list (map snd xs) * PRECISION + last_art_error st \<le> (sum pa J + card J) * PRECISION + last_art_error st'"
proof -
  let ?c = "\<lambda>j. l_coll st" and ?a = "\<lambda>j. l_art st"
  have c: "sum pc J = (\<Sum>j\<in>J. stake j * (l_coll st' - ?c j) div PRECISION)"
    and a: "sum pa J = (\<Sum>j\<in>J. stake j * (l_art st' - ?a j) div PRECISION)"
    using redist_pending_Inr [OF assms(3)] by (auto simp: redist_snapshot_of_def intro: sum.cong)
  have base: "redist_acc.promised stake ?c J (l_coll st) (last_coll_error st) = last_coll_error st"
    "redist_acc.promised stake ?a J (l_art st) (last_art_error st) = last_art_error st"
    by (simp_all add: redist_acc.promised_def)
  note all = redistribute_all_promised [OF assms(1), of ?c ?a, OF order_refl order_refl, unfolded base]
  show ?thesis
    using all redist_acc.promised_floor [OF assms(2), where stake = stake and l = "l_coll st'" and snap = ?c and e = "last_coll_error st'"]
      redist_acc.promised_floor [OF assms(2), where stake = stake and l = "l_art st'" and snap = ?a and e = "last_art_error st'"]
    unfolding c [symmetric] a [symmetric] by linarith
qed

theorem redistribution_conserves_witness:
  fixes st0 :: redist_state
  defines "st0 \<equiv> \<lparr> l_coll = 0, l_art = 0, last_coll_error = 0, last_art_error = 0 \<rparr>"
  shows "\<exists>st'. redistribute_all st0 7 [(100, 31), (5, 2)] = Inr st' \<and>
    redist_pending 3 st' (redist_snapshot_of st0) = Inr (45, 14) \<and>
    redist_pending 4 st' (redist_snapshot_of st0) = Inr (60, 18) \<and> (45 + 60) * PRECISION \<le> (100 + 5) * PRECISION"
proof -
  define st' where "st' = \<lparr> l_coll = 15000000000000000000, l_art = 4714285714285714285,
     last_coll_error = 0, last_art_error = 5 \<rparr>"
  have r: "redistribute_all st0 7 [(100, 31), (5, 2)] = Inr st'"
    by (simp add: st0_def st'_def redistribute_all_def redistribute_def accumulate_def wide_muladd_div_eq
        is_u128_def PRECISION_def checked_add_def)
  have "redist_pending 3 st' (redist_snapshot_of st0) = Inr (45, 14)"
    "redist_pending 4 st' (redist_snapshot_of st0) = Inr (60, 18)"
    by (simp_all add: st0_def st'_def redist_pending_def pending_one_def redist_snapshot_of_def
        mul_div_floor_def wide_mul_div_eq is_u128_def PRECISION_def)
  then show ?thesis
    using r redistribution_conserves [of st0 "\<lambda>j. if j then 3 else 4" UNIV "[(100, 31), (5, 2)]" st'
      "\<lambda>j. if j then 45 else 60" "\<lambda>j. if j then 14 else 18"] by (auto simp: UNIV_bool)
qed

end
