(* ===== verification/Reactor_Math.thy ===== *)
theory Reactor_Math
  imports Complex_Main Redistribution
begin

text \<open>
  The product-sum accounting of the reactor pool, \<^verbatim>\<open>crates/fusd-math/src/reactor_pool.rs\<close>. The sum grid
  is a list indexed by epoch and scale; a write or a read past its end, a subtraction below zero
  and an addition past the width are the error or panic the source has there.
\<close>

subsection \<open>State and operations\<close>

definition DECIMAL_PRECISION :: nat where "DECIMAL_PRECISION = 1000000000000000000"
definition SCALE_FACTOR :: nat where "SCALE_FACTOR = 1000000000"

datatype reactor_error = NoDeposits | DebtExceedsDeposits | ScaleOverflow | EpochOverflow | ReactorMath

record snapshot =
  sn_p :: nat
  sn_s :: nat
  sn_scale :: nat
  sn_epoch :: nat

record pool_state =
  ps_p :: nat
  ps_epoch :: nat
  ps_scale :: nat
  ps_total_deposits :: nat
  ps_last_coll_error :: nat
  ps_last_loss_error :: nat

definition pool_new :: pool_state where
  "pool_new = \<lparr> ps_p = DECIMAL_PRECISION, ps_epoch = 0, ps_scale = 0, ps_total_deposits = 0,
     ps_last_coll_error = 0, ps_last_loss_error = 0 \<rparr>"

definition s_idx :: "nat \<Rightarrow> nat \<Rightarrow> nat \<Rightarrow> nat \<Rightarrow> nat option" where
  "s_idx epoch scale stride len =
     (if scale \<ge> stride then None
      else (case checked_mul 128 epoch stride of
              None \<Rightarrow> None
            | Some x \<Rightarrow> (case checked_add 128 x scale of
                None \<Rightarrow> None
              | Some y \<Rightarrow> (case try_from 64 y of
                  None \<Rightarrow> None
                | Some i \<Rightarrow> if i < len then Some i else None))))"

definition grid_at :: "nat list \<Rightarrow> nat option \<Rightarrow> nat" where
  "grid_at grid i = (case i of None \<Rightarrow> 0 | Some i \<Rightarrow> grid ! i)"

definition pool_snapshot :: "pool_state \<Rightarrow> nat list \<Rightarrow> nat \<Rightarrow> snapshot" where
  "pool_snapshot st s_grid stride =
     \<lparr> sn_p = ps_p st, sn_s = grid_at s_grid (s_idx (ps_epoch st) (ps_scale st) stride (length s_grid)),
       sn_scale = ps_scale st, sn_epoch = ps_epoch st \<rparr>"

text \<open>The rescaling loop; at most five rounds.\<close>

function update_product_loop :: "nat \<Rightarrow> nat \<Rightarrow> reactor_error failure + nat \<times> nat" where
  "update_product_loop num bumps =
     (let new_p = num div DECIMAL_PRECISION in
      if new_p \<ge> SCALE_FACTOR then Inr (new_p, bumps)
      else bindR (ok_or (checked_mul 128 num SCALE_FACTOR) (Raised ReactorMath)) (\<lambda>num.
           if bumps + 1 > 4 then Inl (Raised ReactorMath) else update_product_loop num (bumps + 1)))"
  by pat_completeness auto
termination by (relation "measure (\<lambda>(num, bumps). 5 - bumps)") auto

declare update_product_loop.simps [simp del]

definition update_product :: "nat \<Rightarrow> nat \<Rightarrow> reactor_error failure + nat \<times> nat" where
  "update_product p factor =
     bindR (ok_or (checked_mul 128 p factor) (Raised ReactorMath)) (\<lambda>num. update_product_loop num 0)"

text \<open>The loop over the 256-bit package.\<close>

function update_product_bnum_loop :: "'u u256 \<Rightarrow> 'u \<Rightarrow> nat \<Rightarrow> reactor_error failure + nat \<times> nat" where
  "update_product_bnum_loop U num bumps =
     (let new_p = u_div U num (u_from U DECIMAL_PRECISION) in
      if \<not> u_less U new_p (u_from U SCALE_FACTOR)
      then bindR (ok_or (u_try_u128 U new_p) (Raised ReactorMath)) (\<lambda>p. Inr (p, bumps))
      else (let num = u_mul U num (u_from U SCALE_FACTOR) in
            if bumps + 1 > 4 then Inl (Raised ReactorMath) else update_product_bnum_loop U num (bumps + 1)))"
  by pat_completeness auto
termination by (relation "measure (\<lambda>(U, num, bumps). 5 - bumps)") auto

declare update_product_bnum_loop.simps [simp del]

definition update_product_bnum :: "'u u256 \<Rightarrow> nat \<Rightarrow> nat \<Rightarrow> reactor_error failure + nat \<times> nat" where
  "update_product_bnum U p factor = update_product_bnum_loop U (u_mul U (u_from U p) (u_from U factor)) 0"

text \<open>The loss of one offset per unit deposited: product factor and new loss error.\<close>

definition loss_step :: "nat \<Rightarrow> nat \<Rightarrow> nat \<Rightarrow> reactor_error failure + nat \<times> nat" where
  "loss_step tot last_loss_error debt_to_offset =
     (if debt_to_offset = tot then Inr (0, 0)
      else bindR (ok_or (case checked_mul 128 debt_to_offset DECIMAL_PRECISION of
                           None \<Rightarrow> None | Some x \<Rightarrow> checked_sub x last_loss_error) (Raised ReactorMath)) (\<lambda>loss_numerator.
           bindR (add_or_panic 128 (loss_numerator div tot) 1) (\<lambda>loss_per_unit.
           bindR (ok_or (checked_mul 128 loss_per_unit tot) (Raised ReactorMath)) (\<lambda>x.
           bindR (sub_or_panic x loss_numerator) (\<lambda>loss_error.
           bindR (sub_or_panic DECIMAL_PRECISION loss_per_unit) (\<lambda>product_factor.
           Inr (product_factor, loss_error)))))))"

text \<open>The collateral gain per unit deposited and the remainder kept.\<close>

definition coll_step :: "nat \<Rightarrow> nat \<Rightarrow> nat \<Rightarrow> reactor_error failure + nat \<times> nat" where
  "coll_step tot coll_error coll_to_add =
     bindR (ok_or (case checked_mul 128 coll_to_add DECIMAL_PRECISION of
                     None \<Rightarrow> None | Some x \<Rightarrow> checked_add 128 x coll_error) (Raised ReactorMath)) (\<lambda>coll_numerator.
     let coll_gain_per_unit = coll_numerator div tot in
     Inr (coll_gain_per_unit, coll_numerator - coll_gain_per_unit * tot))"

text \<open>The update of product, scale and epoch.\<close>

definition roll_product :: "pool_state \<Rightarrow> nat \<Rightarrow> nat \<Rightarrow> nat \<Rightarrow> reactor_error failure + pool_state" where
  "roll_product st len stride product_factor =
     (if product_factor = 0
      then bindR (ok_or (checked_add 64 (ps_epoch st) 1) (Raised EpochOverflow)) (\<lambda>new_epoch.
           bindR (ok_or (s_idx new_epoch 0 stride len) (Raised EpochOverflow)) (\<lambda>_.
           Inr (st\<lparr> ps_epoch := new_epoch, ps_scale := 0, ps_p := DECIMAL_PRECISION \<rparr>)))
      else bindR (update_product (ps_p st) product_factor) (\<lambda>(new_p, bumps).
           bindR (if bumps > 0
                  then bindR (ok_or (checked_add 64 (ps_scale st) bumps) (Raised ScaleOverflow)) (\<lambda>new_scale.
                       bindR (ok_or (s_idx (ps_epoch st) new_scale stride len) (Raised ScaleOverflow)) (\<lambda>_.
                       Inr new_scale))
                  else Inr (ps_scale st)) (\<lambda>new_scale.
           Inr (st\<lparr> ps_scale := new_scale, ps_p := new_p \<rparr>))))"

definition reactor_offset ::
    "pool_state \<Rightarrow> nat list \<Rightarrow> nat \<Rightarrow> nat \<Rightarrow> nat \<Rightarrow> reactor_error failure + pool_state \<times> nat list" where
  "reactor_offset st s_grid stride debt_to_offset coll_to_add =
     bindR (ensure (ps_total_deposits st \<noteq> 0) (Raised NoDeposits)) (\<lambda>_.
     bindR (ensure (debt_to_offset \<le> ps_total_deposits st) (Raised DebtExceedsDeposits)) (\<lambda>_.
     bindR (coll_step (ps_total_deposits st) (ps_last_coll_error st) coll_to_add) (\<lambda>(coll_gain_per_unit, coll_error).
     bindR (loss_step (ps_total_deposits st) (ps_last_loss_error st) debt_to_offset) (\<lambda>(product_factor, loss_error).
     bindR (ok_or (checked_mul 128 coll_gain_per_unit (ps_p st)) (Raised ReactorMath)) (\<lambda>marginal.
     bindR (ok_or (s_idx (ps_epoch st) (ps_scale st) stride (length s_grid)) (Raised EpochOverflow)) (\<lambda>cur_i.
     bindR (ok_or (checked_add 128 (s_grid ! cur_i) marginal) (Raised ReactorMath)) (\<lambda>s_new.
     bindR (roll_product (st\<lparr> ps_last_coll_error := coll_error, ps_last_loss_error := loss_error \<rparr>)
              (length s_grid) stride product_factor) (\<lambda>st'.
     Inr (st'\<lparr> ps_total_deposits := ps_total_deposits st - debt_to_offset \<rparr>, s_grid[cur_i := s_new])))))))))"

definition compounded_deposit :: "pool_state \<Rightarrow> nat \<Rightarrow> snapshot \<Rightarrow> 'e failure + nat" where
  "compounded_deposit st initial_deposit snap =
     (if initial_deposit = 0 \<or> sn_epoch snap < ps_epoch st then Inr 0
      else bindR (sub_or_panic (ps_scale st) (sn_scale snap)) (\<lambda>scale_diff.
           let q = (case mul_div_floor initial_deposit (ps_p st) (sn_p snap) of None \<Rightarrow> 0 | Some x \<Rightarrow> x);
               compounded = (if scale_diff = 0 then q else if scale_diff = 1 then q div SCALE_FACTOR else 0)
           in Inr (if compounded < initial_deposit div 1000000000 then 0 else compounded)))"

definition collateral_gain :: "nat list \<Rightarrow> nat \<Rightarrow> nat \<Rightarrow> snapshot \<Rightarrow> reactor_error failure + nat" where
  "collateral_gain s_grid stride initial_deposit snap =
     (if initial_deposit = 0 then Inr 0
      else (let s_at = grid_at s_grid (s_idx (sn_epoch snap) (sn_scale snap) stride (length s_grid));
                first_portion = s_at - sn_s snap in
            bindR (add_or_panic 64 (sn_scale snap) 1) (\<lambda>next.
            let second_portion = grid_at s_grid (s_idx (sn_epoch snap) next stride (length s_grid)) div SCALE_FACTOR in
            bindR (ok_or (checked_add 128 first_portion second_portion) (Raised ReactorMath)) (\<lambda>tot.
            bindR (ok_or (mul_div_floor initial_deposit tot (sn_p snap)) (Raised ReactorMath)) (\<lambda>t.
            Inr (t div DECIMAL_PRECISION))))))"

subsection \<open>The product\<close>

lemma precision_pos [simp]: "0 < DECIMAL_PRECISION" "0 < SCALE_FACTOR" "DECIMAL_PRECISION \<noteq> 0" "SCALE_FACTOR \<noteq> 0"
  by (simp_all add: DECIMAL_PRECISION_def SCALE_FACTOR_def)

lemma update_product_loop_Inr:
  assumes "update_product_loop num bumps = Inr (p', k)"
  shows "\<exists>j. k = bumps + j \<and> p' = num * SCALE_FACTOR ^ j div DECIMAL_PRECISION \<and> SCALE_FACTOR \<le> p' \<and>
           (num \<le> DECIMAL_PRECISION * DECIMAL_PRECISION \<longrightarrow> p' \<le> DECIMAL_PRECISION)"
  using assms
proof (induction num bumps rule: update_product_loop.induct)
  case (1 num bumps)
  show ?case
  proof (cases "num div DECIMAL_PRECISION \<ge> SCALE_FACTOR")
    case True
    then have k: "p' = num div DECIMAL_PRECISION" "k = bumps"
      using "1.prems" by (simp_all add: update_product_loop.simps [of num] Let_def)
    have "p' \<le> DECIMAL_PRECISION" if "num \<le> DECIMAL_PRECISION * DECIMAL_PRECISION"
      using div_le_mono [OF that, of DECIMAL_PRECISION] by (simp add: k)
    then show ?thesis using True k by (intro exI [of _ 0]) simp
  next
    case False
    then have m: "checked_mul 128 num SCALE_FACTOR = Some (num * SCALE_FACTOR)" and b: "\<not> bumps + 1 > 4"
      and r: "update_product_loop (num * SCALE_FACTOR) (bumps + 1) = Inr (p', k)"
      using "1.prems" by (auto simp: update_product_loop.simps [of num] Let_def res_simps num_simps split: if_splits)
    obtain j where j: "k = bumps + 1 + j" "p' = num * SCALE_FACTOR * SCALE_FACTOR ^ j div DECIMAL_PRECISION"
        "SCALE_FACTOR \<le> p'"
        "num * SCALE_FACTOR \<le> DECIMAL_PRECISION * DECIMAL_PRECISION \<longrightarrow> p' \<le> DECIMAL_PRECISION"
      using "1.IH" [OF refl False b r] by blast
    have "num < SCALE_FACTOR * DECIMAL_PRECISION"
      using False by (simp add: not_le div_less_iff_less_mult)
    then have "num * SCALE_FACTOR \<le> DECIMAL_PRECISION * DECIMAL_PRECISION"
      by (simp add: DECIMAL_PRECISION_def SCALE_FACTOR_def)
    then show ?thesis using j by (intro exI [of _ "Suc j"]) (simp add: algebra_simps)
  qed
qed

lemma update_product_Inr:
  assumes "update_product p f = Inr (p', k)"
  shows "p' = p * f * SCALE_FACTOR ^ k div DECIMAL_PRECISION" "SCALE_FACTOR \<le> p'"
    and "p \<le> DECIMAL_PRECISION \<Longrightarrow> f \<le> DECIMAL_PRECISION \<Longrightarrow> p' \<le> DECIMAL_PRECISION"
proof -
  have l: "update_product_loop (p * f) 0 = Inr (p', k)"
    using assms by (auto simp: update_product_def res_simps num_simps)
  show "p' = p * f * SCALE_FACTOR ^ k div DECIMAL_PRECISION" "SCALE_FACTOR \<le> p'"
    using update_product_loop_Inr [OF l] by auto
  show "p' \<le> DECIMAL_PRECISION" if "p \<le> DECIMAL_PRECISION" "f \<le> DECIMAL_PRECISION"
    using update_product_loop_Inr [OF l] mult_le_mono [OF that] by auto
qed

text \<open>On the pool's range the loop stops after at most two rescalings, without an error.\<close>

lemma update_product_total:
  assumes "SCALE_FACTOR \<le> p" "p \<le> DECIMAL_PRECISION" "0 < f" "f \<le> DECIMAL_PRECISION"
  shows "\<exists>p' k. update_product p f = Inr (p', k) \<and> k \<le> 2"
proof -
  define n where "n = p * f"
  have lo: "1000000000 \<le> n" using mult_le_mono [OF assms(1), of 1 f] assms(3) by (simp add: n_def SCALE_FACTOR_def)
  have hi: "n \<le> 1000000000000000000 * 1000000000000000000"
    using mult_le_mono [OF assms(2,4)] by (simp add: n_def DECIMAL_PRECISION_def)
  have step: "update_product_loop m b = update_product_loop (m * SCALE_FACTOR) (b + 1)"
    if m: "m < 1000000000000000000000000000" "b < 4" for m b
  proof -
    have "\<not> SCALE_FACTOR \<le> m div DECIMAL_PRECISION"
      using m(1) by (simp add: SCALE_FACTOR_def DECIMAL_PRECISION_def not_le div_less_iff_less_mult)
    moreover have "checked_mul 128 m SCALE_FACTOR = Some (m * SCALE_FACTOR)"
      using m(1) by (simp add: checked_mul_def SCALE_FACTOR_def)
    ultimately show ?thesis using m(2) by (subst update_product_loop.simps) (simp add: Let_def)
  qed
  have stop: "update_product_loop m b = Inr (m div DECIMAL_PRECISION, b)" if "1000000000000000000000000000 \<le> m" for m b
    using that by (subst update_product_loop.simps)
      (simp add: SCALE_FACTOR_def DECIMAL_PRECISION_def Let_def less_eq_div_iff_mult_less_eq)
  have "\<exists>p' k. update_product_loop n 0 = Inr (p', k) \<and> k \<le> 2"
  proof -
    consider "1000000000000000000000000000 \<le> n" | "n < 1000000000000000000000000000" "1000000000000000000 \<le> n"
      | "n < 1000000000000000000" by linarith
    then show ?thesis
    proof cases
      case 1 then show ?thesis using stop [of n 0] by simp
    next
      case 2
      then show ?thesis using step [of n 0] stop [of "n * SCALE_FACTOR" 1] by (simp add: SCALE_FACTOR_def)
    next
      case 3
      then show ?thesis
        using step [of n 0] step [of "n * SCALE_FACTOR" 1] stop [of "n * SCALE_FACTOR * SCALE_FACTOR" 2] lo
        by (simp add: SCALE_FACTOR_def numeral_2_eq_2)
    qed
  qed
  moreover have "checked_mul 128 p f = Some n" using hi by (simp add: checked_mul_def n_def)
  ultimately show ?thesis by (simp add: update_product_def)
qed

lemma update_product_bnum_loop_eq:
  assumes "u256_laws U" "u_val U x = n" "n \<le> DECIMAL_PRECISION * DECIMAL_PRECISION"
  shows "update_product_bnum_loop U x b = update_product_loop n b"
  using assms(2,3)
proof (induction n b arbitrary: x rule: update_product_loop.induct)
  case (1 n b)
  have hi: "n \<le> 1000000000000000000 * 1000000000000000000" using "1.prems"(2) by (simp add: DECIMAL_PRECISION_def)
  have c: "u_val U (u_from U DECIMAL_PRECISION) = DECIMAL_PRECISION" "u_val U (u_from U SCALE_FACTOR) = SCALE_FACTOR"
    by (simp_all add: u256_exact(1) [OF assms(1)] DECIMAL_PRECISION_def SCALE_FACTOR_def)
  have d: "u_val U (u_div U x (u_from U DECIMAL_PRECISION)) = n div DECIMAL_PRECISION"
    using u256_exact(4) [OF assms(1), of "u_from U DECIMAL_PRECISION" x] by (simp add: c "1.prems"(1))
  show ?case
  proof (cases "SCALE_FACTOR \<le> n div DECIMAL_PRECISION")
    case True
    have "n div DECIMAL_PRECISION < 2 ^ 128"
      using div_le_mono [OF "1.prems"(2), of DECIMAL_PRECISION] by (simp add: DECIMAL_PRECISION_def)
    then show ?thesis
      using True d c
      by (simp add: update_product_bnum_loop.simps [of U x] update_product_loop.simps [of n] Let_def
          u256_exact(6,8) [OF assms(1)])
  next
    case False
    then have small: "n < SCALE_FACTOR * DECIMAL_PRECISION" by (simp add: not_le div_less_iff_less_mult)
    then have m: "checked_mul 128 n SCALE_FACTOR = Some (n * SCALE_FACTOR)"
      by (simp add: checked_mul_def SCALE_FACTOR_def DECIMAL_PRECISION_def)
    have "n * SCALE_FACTOR < 2 ^ 256" using small by (simp add: SCALE_FACTOR_def DECIMAL_PRECISION_def)
    then have v: "u_val U (u_mul U x (u_from U SCALE_FACTOR)) = n * SCALE_FACTOR"
      using u256_exact(2) [OF assms(1), of x "u_from U SCALE_FACTOR"] unfolding c "1.prems"(1) by blast
    have "n * SCALE_FACTOR \<le> DECIMAL_PRECISION * DECIMAL_PRECISION"
      using small by (simp add: SCALE_FACTOR_def DECIMAL_PRECISION_def)
    then have "\<not> b + 1 > 4 \<Longrightarrow> update_product_bnum_loop U (u_mul U x (u_from U SCALE_FACTOR)) (b + 1) =
        update_product_loop (n * SCALE_FACTOR) (b + 1)"
      using "1.IH" [OF refl False _ v] by blast
    then show ?thesis
      using False d c m
      by (simp add: update_product_bnum_loop.simps [of U x] update_product_loop.simps [of n] Let_def
          u256_exact(6,8) [OF assms(1)])
  qed
qed

subsection \<open>One offset\<close>

lemma loss_step_Inr:
  assumes "loss_step T e d = Inr (f, e')" "0 < T"
  shows "f \<le> DECIMAL_PRECISION" "e' \<le> T"
    and "d \<noteq> T \<Longrightarrow> (DECIMAL_PRECISION - f) * T + e = d * DECIMAL_PRECISION + e'"
    and "d = T \<Longrightarrow> f = 0 \<and> e' = 0"
proof -
  show drained: "d = T \<Longrightarrow> f = 0 \<and> e' = 0" using assms by (simp add: loss_step_def)
  define n where "n = d * DECIMAL_PRECISION - e"
  have *: "f = DECIMAL_PRECISION - (n div T + 1)" "e' = (n div T + 1) * T - n"
      "n div T + 1 \<le> DECIMAL_PRECISION" "e \<le> d * DECIMAL_PRECISION" if "d \<noteq> T"
    using assms(1) that unfolding loss_step_def n_def
    by (simp_all only: if_False res_simps num_simps) (elim exE conjE; simp)+
  have n: "n < (n div T + 1) * T" "n div T * T \<le> n" using dividend_less_div_times [OF assms(2), of n] by simp_all
  show "f \<le> DECIMAL_PRECISION"
  proof (cases "d = T")
    case True then show ?thesis using drained by simp
  next
    case False then show ?thesis using *(1) by simp
  qed
  show "e' \<le> T"
  proof (cases "d = T")
    case True then show ?thesis using drained by simp
  next
    case False
    have "(n div T + 1) * T = n div T * T + T" by (simp only: add_mult_distrib mult_1)
    then show ?thesis unfolding *(2) [OF False] using n(2) by linarith
  qed
  show "(DECIMAL_PRECISION - f) * T + e = d * DECIMAL_PRECISION + e'" if "d \<noteq> T"
  proof -
    have "(DECIMAL_PRECISION - f) * T + e = (n div T + 1) * T + e" using *(1,3) [OF that] by simp
    also have "\<dots> = n + e' + e" unfolding *(2) [OF that] using n(1) by linarith
    also have "\<dots> = d * DECIMAL_PRECISION + e'" using *(4) [OF that] by (simp add: n_def)
    finally show ?thesis .
  qed
qed

lemma coll_step_Inr:
  assumes "coll_step T e c = Inr (gpu, e')" "0 < T"
  shows "gpu * T + e' = c * DECIMAL_PRECISION + e" "e' < T"
proof -
  have "e' = (c * DECIMAL_PRECISION + e) mod T" "gpu = (c * DECIMAL_PRECISION + e) div T"
    using assms(1) unfolding coll_step_def Let_def
    by (simp_all only: res_simps num_simps) (elim exE conjE; simp add: minus_div_mult_eq_mod)+
  then show "gpu * T + e' = c * DECIMAL_PRECISION + e" "e' < T" using assms(2) by simp_all
qed

lemma roll_product_Inr:
  assumes "roll_product st len stride f = Inr st'"
  shows "ps_total_deposits st' = ps_total_deposits st" "ps_last_coll_error st' = ps_last_coll_error st"
    and "ps_last_loss_error st' = ps_last_loss_error st"
    and "f = 0 \<and> ps_epoch st' = ps_epoch st + 1 \<and> ps_scale st' = 0 \<and> ps_p st' = DECIMAL_PRECISION \<or>
     0 < f \<and> ps_epoch st' = ps_epoch st \<and>
       (\<exists>k. update_product (ps_p st) f = Inr (ps_p st', k) \<and> ps_scale st' = ps_scale st + k)"
    and "s_idx (ps_epoch st) (ps_scale st) stride len \<noteq> None \<Longrightarrow> s_idx (ps_epoch st') (ps_scale st') stride len \<noteq> None"
proof -
  consider "f = 0" "s_idx (ps_epoch st + 1) 0 stride len \<noteq> None"
      "st' = st\<lparr> ps_epoch := ps_epoch st + 1, ps_scale := 0, ps_p := DECIMAL_PRECISION \<rparr>"
    | p k where "0 < f" "update_product (ps_p st) f = Inr (p, k)" "st' = st\<lparr> ps_scale := ps_scale st + k, ps_p := p \<rparr>"
      "0 < k \<longrightarrow> s_idx (ps_epoch st) (ps_scale st + k) stride len \<noteq> None"
    using assms unfolding roll_product_def
    by (cases "f = 0") (fastforce simp: res_simps num_simps split: if_splits)+
  note c = this
  show "ps_total_deposits st' = ps_total_deposits st" "ps_last_coll_error st' = ps_last_coll_error st"
    "ps_last_loss_error st' = ps_last_loss_error st" using c by (cases, simp_all)+
  show "f = 0 \<and> ps_epoch st' = ps_epoch st + 1 \<and> ps_scale st' = 0 \<and> ps_p st' = DECIMAL_PRECISION \<or>
     0 < f \<and> ps_epoch st' = ps_epoch st \<and>
       (\<exists>k. update_product (ps_p st) f = Inr (ps_p st', k) \<and> ps_scale st' = ps_scale st + k)"
    using c by cases simp_all
  show "s_idx (ps_epoch st') (ps_scale st') stride len \<noteq> None" if "s_idx (ps_epoch st) (ps_scale st) stride len \<noteq> None"
    using c by cases (use that in auto)
qed

lemma reactor_offset_Inr:
  assumes "reactor_offset st g stride d c = Inr (st', g')"
  obtains f gpu i where
    "0 < ps_total_deposits st" "d \<le> ps_total_deposits st" "ps_total_deposits st' = ps_total_deposits st - d"
    "gpu * ps_total_deposits st + ps_last_coll_error st' = c * DECIMAL_PRECISION + ps_last_coll_error st"
    "ps_last_coll_error st' < ps_total_deposits st"
    "loss_step (ps_total_deposits st) (ps_last_loss_error st) d = Inr (f, ps_last_loss_error st')"
    "s_idx (ps_epoch st) (ps_scale st) stride (length g) = Some i"
    "g' = g[i := g ! i + gpu * ps_p st]" "g ! i + gpu * ps_p st < 2 ^ 128"
    "f = 0 \<and> ps_epoch st' = ps_epoch st + 1 \<and> ps_scale st' = 0 \<and> ps_p st' = DECIMAL_PRECISION \<or>
     0 < f \<and> ps_epoch st' = ps_epoch st \<and>
       (\<exists>k. update_product (ps_p st) f = Inr (ps_p st', k) \<and> ps_scale st' = ps_scale st + k)"
    "s_idx (ps_epoch st') (ps_scale st') stride (length g) \<noteq> None"
proof -
  obtain gpu ce f le m i r where
    T: "0 < ps_total_deposits st" "d \<le> ps_total_deposits st"
    and cs: "coll_step (ps_total_deposits st) (ps_last_coll_error st) c = Inr (gpu, ce)"
    and ls: "loss_step (ps_total_deposits st) (ps_last_loss_error st) d = Inr (f, le)"
    and i: "s_idx (ps_epoch st) (ps_scale st) stride (length g) = Some i"
    and g: "m = gpu * ps_p st" "g ! i + m < 2 ^ 128" "g' = g[i := g ! i + m]"
    and r: "roll_product (st\<lparr> ps_last_coll_error := ce, ps_last_loss_error := le \<rparr>) (length g) stride f = Inr r"
    and st': "st' = r\<lparr> ps_total_deposits := ps_total_deposits st - d \<rparr>"
    using assms unfolding reactor_offset_def bindR_Inr ensure_Inr ok_or_Inr checked_add_Some checked_mul_Some
    by (elim exE conjE) (auto simp: bindR_Inr ok_or_Inr checked_add_Some checked_mul_Some)
  note ro = roll_product_Inr [OF r, simplified]
  show ?thesis
    using that [OF T _ _ _ _ i, of gpu f] coll_step_Inr [OF cs T(1)] ls g ro i by (simp add: st')
qed

subsection \<open>The exact shares of the depositors\<close>

text \<open>
  The product stays in its range and the current cell stays in the grid.
\<close>

definition pool_ok :: "pool_state \<Rightarrow> bool" where
  "pool_ok st \<longleftrightarrow> SCALE_FACTOR \<le> ps_p st \<and> ps_p st \<le> DECIMAL_PRECISION"

text \<open>A snapshot taken from the pool at some earlier time.\<close>

definition snap_ok :: "pool_state \<Rightarrow> snapshot \<Rightarrow> bool" where
  "snap_ok st sn \<longleftrightarrow> 0 < sn_p sn \<and> sn_epoch sn \<le> ps_epoch st \<and>
     (sn_epoch sn = ps_epoch st \<longrightarrow> sn_scale sn \<le> ps_scale st)"

text \<open>What a deposit is worth exactly, before any rounding.\<close>

definition share :: "pool_state \<Rightarrow> nat \<Rightarrow> snapshot \<Rightarrow> rat" where
  "share st d sn = (if sn_epoch sn < ps_epoch st then 0
     else of_nat d * of_nat (ps_p st) / (of_nat (sn_p sn) * of_nat SCALE_FACTOR ^ (ps_scale st - sn_scale sn)))"

lemma share_nonneg: "0 \<le> share st d sn"
  by (simp add: share_def)

lemma of_nat_div_le: "(of_nat (m div n) :: rat) \<le> of_nat m / of_nat n"
proof (cases "n = 0")
  case False
  have "(of_nat (m div n * n) :: rat) \<le> of_nat m" by (simp only: of_nat_le_iff) simp
  then show ?thesis using False by (simp add: field_simps)
qed simp

lemma of_nat_div_less: "0 < n \<Longrightarrow> (of_nat m :: rat) / of_nat n < of_nat (m div n) + 1"
proof -
  assume n: "0 < n"
  have "(of_nat m :: rat) < of_nat ((m div n + 1) * n)"
    using dividend_less_div_times [OF n, of m] by (simp only: of_nat_less_iff) simp
  then show ?thesis using n by (simp add: field_simps)
qed

text \<open>A compounded deposit never exceeds the exact share.\<close>

lemma compounded_le_share:
  assumes "snap_ok st sn" "compounded_deposit st d sn = (Inr x :: 'e failure + nat)"
  shows "of_nat x \<le> share st d sn"
proof (cases "d = 0 \<or> sn_epoch sn < ps_epoch st")
  case True
  then show ?thesis using assms(2) share_nonneg [of st d sn] by (auto simp: compounded_deposit_def)
next
  case False
  define q where "q = (case mul_div_floor d (ps_p st) (sn_p sn) of None \<Rightarrow> 0 | Some x \<Rightarrow> x)"
  define k where "k = ps_scale st - sn_scale sn"
  have "q \<le> d * ps_p st div sn_p sn" by (auto simp: q_def num_simps split: option.splits)
  then have "(of_nat q :: rat) \<le> of_nat (d * ps_p st div sn_p sn)" by (simp only: of_nat_le_iff)
  also have "\<dots> \<le> of_nat (d * ps_p st) / of_nat (sn_p sn)" by (rule of_nat_div_le)
  finally have q: "(of_nat q :: rat) \<le> of_nat d * of_nat (ps_p st) / of_nat (sn_p sn)" by simp
  have sh: "share st d sn = of_nat d * of_nat (ps_p st) / of_nat (sn_p sn) / of_nat SCALE_FACTOR ^ k"
    using False by (simp add: share_def k_def divide_divide_eq_left)
  have x: "x \<le> (if k = 0 then q else if k = 1 then q div SCALE_FACTOR else 0)"
    using assms(2) False by (auto simp: compounded_deposit_def q_def k_def Let_def res_simps num_simps split: if_splits)
  consider "k = 0" | "k = 1" | "k > 1" by linarith
  then show ?thesis
  proof cases
    case 1
    then have "(of_nat x :: rat) \<le> of_nat q" using x by simp
    then show ?thesis using q 1 by (simp add: sh)
  next
    case 2
    then have "(of_nat x :: rat) \<le> of_nat (q div SCALE_FACTOR)" using x by simp
    also have "\<dots> \<le> of_nat q / of_nat SCALE_FACTOR" by (rule of_nat_div_le)
    also have "\<dots> \<le> share st d sn" unfolding sh 2 power_one_right using q by (rule divide_right_mono) simp
    finally show ?thesis .
  next
    case 3
    then show ?thesis using x share_nonneg [of st d sn] by simp
  qed
qed

lemma snap_ok_offset:
  assumes "reactor_offset st g stride d c = Inr (st', g')" "snap_ok st sn"
  shows "snap_ok st' sn"
  by (rule reactor_offset_Inr [OF assms(1)]) (use assms(2) in \<open>auto simp: snap_ok_def\<close>)

lemma pool_ok_offset:
  assumes "reactor_offset st g stride d c = Inr (st', g')" "pool_ok st"
  shows "pool_ok st'"
proof (rule reactor_offset_Inr [OF assms(1)])
  fix f
  assume T: "0 < ps_total_deposits st"
    and l: "loss_step (ps_total_deposits st) (ps_last_loss_error st) d = Inr (f, ps_last_loss_error st')"
    and "f = 0 \<and> ps_epoch st' = ps_epoch st + 1 \<and> ps_scale st' = 0 \<and> ps_p st' = DECIMAL_PRECISION \<or>
     0 < f \<and> ps_epoch st' = ps_epoch st \<and>
       (\<exists>k. update_product (ps_p st) f = Inr (ps_p st', k) \<and> ps_scale st' = ps_scale st + k)"
  then show ?thesis
    using update_product_Inr(2,3) [of "ps_p st" f "ps_p st'"] loss_step_Inr(1) [OF l T] assms(2)
    by (auto simp: pool_ok_def DECIMAL_PRECISION_def SCALE_FACTOR_def)
qed

text \<open>An offset scales every share down by at least the product factor.\<close>

lemma share_offset:
  assumes "update_product (ps_p st) f = Inr (ps_p st', k)" "ps_scale st' = ps_scale st + k"
    and "ps_epoch st' = ps_epoch st" "snap_ok st sn"
  shows "share st' d sn \<le> share st d sn * (of_nat f / of_nat DECIMAL_PRECISION)"
proof (cases "sn_epoch sn < ps_epoch st")
  case True
  then show ?thesis by (simp add: share_def assms(3))
next
  case False
  then have e: "sn_epoch sn = ps_epoch st" and le: "sn_scale sn \<le> ps_scale st" and p: "0 < sn_p sn"
    using assms(4) by (auto simp: snap_ok_def)
  have "(of_nat (ps_p st') :: rat) \<le> of_nat (ps_p st * f * SCALE_FACTOR ^ k) / of_nat DECIMAL_PRECISION"
    unfolding update_product_Inr(1) [OF assms(1)] by (rule of_nat_div_le)
  then have "of_nat d * of_nat (ps_p st') \<le> of_nat d * (of_nat (ps_p st) * of_nat f * of_nat SCALE_FACTOR ^ k / of_nat DECIMAL_PRECISION :: rat)"
    by (intro mult_left_mono) simp_all
  then have "of_nat d * of_nat (ps_p st') / (of_nat (sn_p sn) * (of_nat SCALE_FACTOR ^ (ps_scale st - sn_scale sn) * of_nat SCALE_FACTOR ^ k))
    \<le> of_nat d * (of_nat (ps_p st) * of_nat f * of_nat SCALE_FACTOR ^ k / of_nat DECIMAL_PRECISION)
       / (of_nat (sn_p sn) * (of_nat SCALE_FACTOR ^ (ps_scale st - sn_scale sn) * of_nat SCALE_FACTOR ^ k :: rat))"
    by (rule divide_right_mono) simp
  also have "\<dots> = share st d sn * (of_nat f / of_nat DECIMAL_PRECISION)"
    using False precision_pos p by (simp add: share_def field_simps)
  finally show ?thesis using False le by (simp add: share_def assms(2,3) power_add [symmetric])
qed

text \<open>
  The pool backs a family of deposits when the exact shares, corrected by the loss counted in
  advance, exceed the recorded total by less than one unit.
\<close>

definition backed :: "pool_state \<Rightarrow> 'j set \<Rightarrow> ('j \<Rightarrow> nat) \<Rightarrow> ('j \<Rightarrow> snapshot) \<Rightarrow> bool" where
  "backed st J dep snap \<longleftrightarrow> finite J \<and> pool_ok st \<and> (\<forall>j \<in> J. snap_ok st (snap j)) \<and>
     ps_last_loss_error st < DECIMAL_PRECISION \<and>
     (\<Sum>j\<in>J. share st (dep j) (snap j)) * of_nat DECIMAL_PRECISION + of_nat (ps_last_loss_error st) \<le>
       of_nat (ps_total_deposits st) * of_nat DECIMAL_PRECISION + of_nat DECIMAL_PRECISION - 1"

lemma backed_arith:
  fixes S :: rat and D T d e e' f :: rat
  assumes "S * D + e \<le> T * D + D - 1" "S' \<le> S * (f / D)" "0 \<le> f" "f \<le> D" "0 < D" "e \<le> D - 1"
    and "(D - f) * T + e = d * D + e'"
  shows "S' * D + e' \<le> (T - d) * D + D - 1"
proof -
  have "(S * D) * f \<le> (T * D + (D - 1 - e)) * f"
    using assms(1,3) by (intro mult_right_mono) simp_all
  moreover have "(D - 1 - e) * f \<le> (D - 1 - e) * D" using assms(4,6) by (intro mult_left_mono) simp_all
  ultimately have "(S * f) * D \<le> (T * f + (D - 1 - e)) * D" by (simp add: algebra_simps)
  then have "S * f \<le> T * f + (D - 1 - e)" using assms(5) by simp
  moreover have "S' * D \<le> S * f" using mult_right_mono [OF assms(2), of D] assms(5) by simp
  moreover have "e' = D * T - f * T + e - d * D" using assms(7) by (simp add: algebra_simps)
  ultimately show ?thesis by (simp add: algebra_simps)
qed

lemma backed_offset:
  assumes "reactor_offset st g stride d c = Inr (st', g')" "backed st J dep snap"
    and small: "ps_total_deposits st < DECIMAL_PRECISION"
  shows "backed st' J dep snap"
proof (rule reactor_offset_Inr [OF assms(1)])
  fix f
  assume T: "0 < ps_total_deposits st" and d: "d \<le> ps_total_deposits st"
    and T': "ps_total_deposits st' = ps_total_deposits st - d"
    and l: "loss_step (ps_total_deposits st) (ps_last_loss_error st) d = Inr (f, ps_last_loss_error st')"
    and roll: "f = 0 \<and> ps_epoch st' = ps_epoch st + 1 \<and> ps_scale st' = 0 \<and> ps_p st' = DECIMAL_PRECISION \<or>
     0 < f \<and> ps_epoch st' = ps_epoch st \<and>
       (\<exists>k. update_product (ps_p st) f = Inr (ps_p st', k) \<and> ps_scale st' = ps_scale st + k)"
  note loss = loss_step_Inr [OF l T]
  have b: "finite J" "pool_ok st" "\<And>j. j \<in> J \<Longrightarrow> snap_ok st (snap j)" "ps_last_loss_error st < DECIMAL_PRECISION"
    using assms(2) by (auto simp: backed_def)
  define S S' where "S = (\<Sum>j\<in>J. share st (dep j) (snap j))" and "S' = (\<Sum>j\<in>J. share st' (dep j) (snap j))"
  have "share st' (dep j) (snap j) \<le> share st (dep j) (snap j) * (of_nat f / of_nat DECIMAL_PRECISION)" if "j \<in> J" for j
    using roll
  proof
    assume "f = 0 \<and> ps_epoch st' = ps_epoch st + 1 \<and> ps_scale st' = 0 \<and> ps_p st' = DECIMAL_PRECISION"
    then show ?thesis using b(3) [OF that] by (simp add: share_def snap_ok_def)
  qed (use share_offset b(3) [OF that] in blast)
  then have S': "S' \<le> S * (of_nat f / of_nat DECIMAL_PRECISION)"
    unfolding S_def S'_def sum_distrib_right by (rule sum_mono)
  have main: "S' * of_nat DECIMAL_PRECISION + of_nat (ps_last_loss_error st') \<le>
      of_nat (ps_total_deposits st') * of_nat DECIMAL_PRECISION + of_nat DECIMAL_PRECISION - 1"
  proof (cases "d = ps_total_deposits st")
    case True
    then have "f = 0" "ps_last_loss_error st' = 0" using loss(4) by simp_all
    then show ?thesis using S' T' True by (simp add: mult_le_0_iff DECIMAL_PRECISION_def)
  next
    case False
    have "(of_nat ((DECIMAL_PRECISION - f) * ps_total_deposits st + ps_last_loss_error st) :: rat) =
        of_nat (d * DECIMAL_PRECISION + ps_last_loss_error st')" using loss(3) [OF False] by (simp only:)
    then have eq: "(of_nat DECIMAL_PRECISION - of_nat f) * of_nat (ps_total_deposits st) + of_nat (ps_last_loss_error st) =
        of_nat d * of_nat DECIMAL_PRECISION + (of_nat (ps_last_loss_error st') :: rat)"
      using loss(1) by (simp add: of_nat_diff)
    have "S' * of_nat DECIMAL_PRECISION + of_nat (ps_last_loss_error st') \<le>
        (of_nat (ps_total_deposits st) - of_nat d) * of_nat DECIMAL_PRECISION + of_nat DECIMAL_PRECISION - 1"
    proof (rule backed_arith [OF _ S' _ _ _ _ eq])
      show "S * of_nat DECIMAL_PRECISION + of_nat (ps_last_loss_error st) \<le>
          of_nat (ps_total_deposits st) * of_nat DECIMAL_PRECISION + of_nat DECIMAL_PRECISION - 1"
        using assms(2) by (simp add: backed_def S_def)
      show "(of_nat f :: rat) \<le> of_nat DECIMAL_PRECISION" using loss(1) by simp
      have "Suc (ps_last_loss_error st) \<le> DECIMAL_PRECISION" using b(4) by simp
      then have "(of_nat (Suc (ps_last_loss_error st)) :: rat) \<le> of_nat DECIMAL_PRECISION" by (simp only: of_nat_le_iff)
      then show "(of_nat (ps_last_loss_error st) :: rat) \<le> of_nat DECIMAL_PRECISION - 1" by simp
    qed simp_all
    then show ?thesis using d by (simp add: T' of_nat_diff)
  qed
  have "ps_last_loss_error st' < DECIMAL_PRECISION" using loss(2) small by simp
  then show ?thesis
    unfolding backed_def using main b pool_ok_offset [OF assms(1) b(2)] snap_ok_offset [OF assms(1)]
    by (simp add: S'_def)
qed

text \<open>Backed deposits: what all depositors can withdraw together is at most the recorded total.\<close>

lemma backed_solvent:
  assumes "backed st J dep snap"
    and "\<And>j. j \<in> J \<Longrightarrow> compounded_deposit st (dep j) (snap j) = (Inr (x j) :: 'e failure + nat)"
  shows "sum x J \<le> ps_total_deposits st"
proof -
  define S where "S = (\<Sum>j\<in>J. share st (dep j) (snap j))"
  have "(of_nat (sum x J) :: rat) \<le> S"
    unfolding S_def of_nat_sum
    using assms(1) by (intro sum_mono compounded_le_share [OF _ assms(2)]) (auto simp: backed_def)
  moreover have "S * of_nat DECIMAL_PRECISION < (of_nat (ps_total_deposits st) + 1) * of_nat DECIMAL_PRECISION"
    using assms(1) by (simp add: backed_def S_def algebra_simps)
  then have "S < of_nat (ps_total_deposits st) + 1" by (rule mult_right_less_imp_less) simp
  ultimately have "(of_nat (sum x J) :: rat) < of_nat (Suc (ps_total_deposits st))" by simp
  then show ?thesis unfolding of_nat_less_iff by simp
qed

text \<open>
  A depositor whose deposit is realized and then set to \<open>n\<close> with a fresh snapshot, the total moving
  by the same amount, stays backed.
\<close>

lemma share_fresh: "pool_ok st \<Longrightarrow> share (st\<lparr> ps_total_deposits := T \<rparr>) n (pool_snapshot st g stride) = of_nat n"
  by (simp add: share_def pool_snapshot_def pool_ok_def SCALE_FACTOR_def)

lemma share_total: "share (st\<lparr> ps_total_deposits := T \<rparr>) n sn = share st n sn"
  by (simp add: share_def)

lemma snap_ok_fresh: "pool_ok st \<Longrightarrow> snap_ok (st\<lparr> ps_total_deposits := T \<rparr>) (pool_snapshot st g stride)"
  by (simp add: snap_ok_def pool_snapshot_def pool_ok_def SCALE_FACTOR_def)

lemma backed_reset:
  assumes "backed st J dep snap" "j \<in> J" "compounded_deposit st (dep j) (snap j) = (Inr x :: 'e failure + nat)"
    and "T + x = ps_total_deposits st + n"
  shows "backed (st\<lparr> ps_total_deposits := T \<rparr>) J (dep(j := n)) (snap(j := pool_snapshot st g stride))"
proof -
  let ?st = "st\<lparr> ps_total_deposits := T \<rparr>" and ?snap = "snap(j := pool_snapshot st g stride)"
  have b: "finite J" "pool_ok st" "\<And>j. j \<in> J \<Longrightarrow> snap_ok st (snap j)" using assms(1) by (auto simp: backed_def)
  have "(of_nat (T + x) :: rat) = of_nat (ps_total_deposits st + n)" using assms(4) by (simp only:)
  then have T: "of_nat T + of_nat x = (of_nat (ps_total_deposits st) + of_nat n :: rat)" by simp
  have x: "of_nat x \<le> share st (dep j) (snap j)" by (rule compounded_le_share [OF b(3) [OF assms(2)] assms(3)])
  define R where "R = (\<Sum>i\<in>J - {j}. share st (dep i) (snap i))"
  have old: "(\<Sum>i\<in>J. share st (dep i) (snap i)) = share st (dep j) (snap j) + R"
    unfolding R_def using b(1) assms(2) by (rule sum.remove)
  have "(\<Sum>i\<in>J. share ?st ((dep(j := n)) i) (?snap i)) =
      share ?st n (pool_snapshot st g stride) + (\<Sum>i\<in>J - {j}. share ?st ((dep(j := n)) i) (?snap i))"
    using b(1) assms(2) by (simp add: sum.remove)
  also have "(\<Sum>i\<in>J - {j}. share ?st ((dep(j := n)) i) (?snap i)) = R"
    unfolding R_def by (intro sum.cong) (auto simp: share_total)
  finally have new: "(\<Sum>i\<in>J. share ?st ((dep(j := n)) i) (?snap i)) = of_nat n + R"
    using share_fresh [OF b(2)] by simp
  have "(of_nat n + R) * of_nat DECIMAL_PRECISION \<le>
      (share st (dep j) (snap j) + R) * of_nat DECIMAL_PRECISION + (of_nat T - of_nat (ps_total_deposits st)) * of_nat DECIMAL_PRECISION"
    unfolding distrib_right [symmetric] using x T by (intro mult_right_mono) simp_all
  moreover have "(share st (dep j) (snap j) + R) * of_nat DECIMAL_PRECISION + of_nat (ps_last_loss_error st) \<le>
      of_nat (ps_total_deposits st) * of_nat DECIMAL_PRECISION + of_nat DECIMAL_PRECISION - 1"
    using assms(1) unfolding backed_def old by blast
  ultimately have "(\<Sum>i\<in>J. share ?st ((dep(j := n)) i) (?snap i)) * of_nat DECIMAL_PRECISION + of_nat (ps_last_loss_error ?st) \<le>
      of_nat (ps_total_deposits ?st) * of_nat DECIMAL_PRECISION + of_nat DECIMAL_PRECISION - 1"
    unfolding new by (simp add: algebra_simps)
  moreover have "pool_ok ?st" using b(2) by (simp add: pool_ok_def)
  moreover have "snap_ok ?st (?snap i)" if "i \<in> J" for i
    using snap_ok_fresh [OF b(2)] b(3) [OF that] by (simp add: snap_ok_def)
  ultimately show ?thesis using assms(1) b(1) by (simp add: backed_def)
qed

lemma backed_insert:
  assumes "backed st J dep snap" "j \<notin> J"
  shows "backed st (insert j J) (dep(j := 0)) (snap(j := pool_snapshot st g stride))"
proof -
  have "pool_ok st" "finite J" using assms(1) by (auto simp: backed_def)
  have "share st 0 sn = 0" for sn by (simp add: share_def)
  moreover have "(\<Sum>i\<in>J. share st ((dep(j := 0)) i) ((snap(j := pool_snapshot st g stride)) i)) =
      (\<Sum>i\<in>J. share st (dep i) (snap i))"
    using assms(2) by (intro sum.cong) auto
  ultimately have "(\<Sum>i\<in>insert j J. share st ((dep(j := 0)) i) ((snap(j := pool_snapshot st g stride)) i)) =
      (\<Sum>i\<in>J. share st (dep i) (snap i))"
    using \<open>finite J\<close> assms(2) by simp
  moreover have "snap_ok st (pool_snapshot st g stride)"
    using snap_ok_fresh [OF \<open>pool_ok st\<close>, of "ps_total_deposits st"] by (simp add: snap_ok_def)
  ultimately show ?thesis using assms(1) by (simp add: backed_def)
qed

subsection \<open>The properties of the component\<close>

text \<open>
  C16. Over the whole range of the pool's product and for every non-zero factor, \<open>update_product\<close>
  returns after at most two rescalings, keeps the product in its range, never rounds it up, and the
  shipped body over the 256-bit package returns the same result.
\<close>

theorem update_product_correct:
  assumes "SCALE_FACTOR \<le> p" "p \<le> DECIMAL_PRECISION" "0 < f" "f \<le> DECIMAL_PRECISION" "u256_laws U"
  shows "\<exists>p' k. update_product p f = Inr (p', k) \<and> update_product_bnum U p f = Inr (p', k) \<and> k \<le> 2 \<and>
    SCALE_FACTOR \<le> p' \<and> p' \<le> DECIMAL_PRECISION \<and> p' * DECIMAL_PRECISION \<le> p * f * SCALE_FACTOR ^ k"
proof -
  obtain p' k where r: "update_product p f = Inr (p', k)" "k \<le> 2"
    using update_product_total [OF assms(1-4)] by blast
  have le: "p * f \<le> DECIMAL_PRECISION * DECIMAL_PRECISION" using assms(2,4) by (rule mult_le_mono)
  then have lt: "p * f < 2 ^ 256" "p < 2 ^ 128" "f < 2 ^ 128" using assms(2,4) by (simp_all add: DECIMAL_PRECISION_def)
  then have v: "u_val U (u_mul U (u_from U p) (u_from U f)) = p * f"
    using u256_exact(1) [OF assms(5)] u256_exact(2) [OF assms(5), of "u_from U p" "u_from U f"] by simp
  have "update_product_loop (p * f) 0 = Inr (p', k)"
    using r(1) by (auto simp: update_product_def res_simps num_simps)
  then have "update_product_bnum U p f = Inr (p', k)"
    unfolding update_product_bnum_def update_product_bnum_loop_eq [OF assms(5) v le] .
  moreover have "p' * DECIMAL_PRECISION \<le> p * f * SCALE_FACTOR ^ k"
    unfolding update_product_Inr(1) [OF r(1)] by simp
  ultimately show ?thesis using r update_product_Inr(2,3) [OF r(1)] assms(2,4) by blast
qed

theorem update_product_correct_witness:
  "SCALE_FACTOR \<le> SCALE_FACTOR \<and> (\<exists>p' k. update_product SCALE_FACTOR 1 = Inr (p', k) \<and>
     update_product_bnum word256 SCALE_FACTOR 1 = Inr (p', k) \<and> k \<le> 2 \<and> SCALE_FACTOR \<le> p')"
  using update_product_correct [of SCALE_FACTOR 1 word256] word256_laws
  by (auto simp: SCALE_FACTOR_def DECIMAL_PRECISION_def)



end
