(* ===== verification/Core_State.thy ===== *)
theory Core_State
  imports Rate_Bucket Reactor_Math
begin

text \<open>
  The error codes, the constants and the accounts of the core program
  (\<^verbatim>\<open>programs/fusd-core/src/errors.rs\<close>, \<^verbatim>\<open>constants.rs\<close>, \<^verbatim>\<open>state/\<close>). A field keeps its source name
  behind a prefix for its account (\<open>m_\<close> market, \<open>p_\<close> position, \<open>rp_\<close> reactor pool, \<open>rd_\<close> reactor
  deposit, \<open>ib_\<close> insurance buffer, \<open>gb_\<close> global backstop, \<open>dl_\<close> debt-ceiling line, \<open>gg_\<close> governance
  gate, \<open>cfg_\<close> protocol configuration, \<open>mo_\<close> market oracle). Account bumps and reserved padding carry
  no behaviour and are left out.
\<close>

type_synonym pubkey = nat

datatype fusd_error =
    Unauthorized
  | ParamOutOfBounds
  | CollateralHasFreezeAuthority
  | OracleUnavailable
  | StalePrice
  | BelowMinCollateralRatio
  | DebtCeilingExceeded
  | ZeroAmount
  | InsufficientCollateral
  | PositionHealthy
  | ReactorPoolTooSmall
  | InsufficientReactorDeposit
  | ReactorGridExhausted
  | MathOverflow
  | NoRedistributionRecipients
  | RedistributionAccumulatorOverflow
  | PositionNotEmpty
  | NothingToRedeem
  | WrongRedemptionBucket
  | DuplicateRedemptionTarget
  | TimelockNotElapsed
  | TimelockMarketMismatch
  | MintFrozen
  | InvalidPriceUpdate
  | InvalidSwitchboardFeed
  | InvalidClmmPool
  | TwapSampleRejected
  | GuardianPaused
  | MarketShutdown
  | MarketNotShutdown
  | ShutdownConditionNotMet
  | RateLimitExceeded
  | CcrRestricted
  | LiquidationGracePeriod
  | InterestRateOutOfBounds
  | NoCollateralSurplus
  | NoPendingAuthority
  | DebtBelowMinimum
  | TooManyRedemptionCandidates
  | InsufficientProtocolCollateral
  | CollarExceedsMcr
  | ParamCombinationInvalid
  | VaultReconciliationFailed
  | InvalidRecipient
  | InsufficientBackstopExcess
  | OracleDivergent
  | InvalidStakePool
  | InvalidMetadataAccount
  | LiquidationInfraNotReady

type_synonym 'a res = "fusd_error failure + 'a"

text \<open>\<open>require!\<close> and \<open>ok_or\<close> with a program error.\<close>

abbreviation require :: "bool \<Rightarrow> fusd_error \<Rightarrow> unit res" where
  "require c e \<equiv> ensure c (Raised e)"

abbreviation ok_or_err :: "'a option \<Rightarrow> fusd_error \<Rightarrow> 'a res" where
  "ok_or_err r e \<equiv> ok_or r (Raised e)"

text \<open>Arithmetic that reports \<open>MathOverflow\<close>.\<close>

abbreviation math :: "'a option \<Rightarrow> 'a res" where
  "math r \<equiv> ok_or r (Raised MathOverflow)"

subsection \<open>Constants\<close>

definition REACTOR_MAX_EPOCHS :: nat where "REACTOR_MAX_EPOCHS = 32"
definition REACTOR_MAX_SCALES :: nat where "REACTOR_MAX_SCALES = 16"
definition MAX_PRICE_STALENESS_SLOTS :: nat where "MAX_PRICE_STALENESS_SLOTS = 250"
definition LIQ_RESUME_GRACE_SLOTS :: nat where "LIQ_RESUME_GRACE_SLOTS = 750"
definition MCR_RAISE_GRACE_SLOTS :: nat where "MCR_RAISE_GRACE_SLOTS = 9000"
definition LIQ_DIVERGENCE_GRACE_SLOTS :: nat where "LIQ_DIVERGENCE_GRACE_SLOTS = 750"
definition MIN_GOV_TIMELOCK_SECS :: int where "MIN_GOV_TIMELOCK_SECS = 0"
definition MAX_GOV_TIMELOCK_SECS :: int where "MAX_GOV_TIMELOCK_SECS = 2592000"
definition GUARDIAN_MAX_PAUSE_SECS :: int where "GUARDIAN_MAX_PAUSE_SECS = 604800"
definition DEFAULT_SCR_BPS :: nat where "DEFAULT_SCR_BPS = 11000"
definition MIN_SCR_BPS :: nat where "MIN_SCR_BPS = 10500"
definition MAX_SCR_BPS :: nat where "MAX_SCR_BPS = 15000"
definition SHUTDOWN_ORACLE_STALENESS_SLOTS :: nat where "SHUTDOWN_ORACLE_STALENESS_SLOTS = 9000"
definition SHUTDOWN_REASON_NONE :: nat where "SHUTDOWN_REASON_NONE = 0"
definition SHUTDOWN_REASON_SCR :: nat where "SHUTDOWN_REASON_SCR = 1"
definition SHUTDOWN_REASON_ORACLE_FAILURE :: nat where "SHUTDOWN_REASON_ORACLE_FAILURE = 2"
definition SHUTDOWN_REASON_UNHOMED_BAD_DEBT :: nat where "SHUTDOWN_REASON_UNHOMED_BAD_DEBT = 3"
definition RATELIMIT_WINDOW_SECS :: int where "RATELIMIT_WINDOW_SECS = 86400"
definition MIN_MCR_BPS :: nat where "MIN_MCR_BPS = 10000"
definition MAX_MCR_BPS :: nat where "MAX_MCR_BPS = 30000"
definition MIN_CCR_BPS :: nat where "MIN_CCR_BPS = 10000"
definition MAX_CCR_BPS :: nat where "MAX_CCR_BPS = 30000"
definition MAX_LIQ_GAS_COMP_BPS :: nat where "MAX_LIQ_GAS_COMP_BPS = 1000"
definition MAX_LIQ_BONUS_BPS :: nat where "MAX_LIQ_BONUS_BPS = 2000"
definition NUM_RATE_BUCKETS :: nat where "NUM_RATE_BUCKETS = 256"
definition MAX_REDEMPTION_FEE_BPS :: nat where "MAX_REDEMPTION_FEE_BPS = 500"
definition MAX_REDEMPTION_BASE_RATE_BPS :: nat where "MAX_REDEMPTION_BASE_RATE_BPS = 500"
definition MAX_BORROW_FEE_BPS :: nat where "MAX_BORROW_FEE_BPS = 500"
definition MAX_BAD_DEBT_PAYDOWN_BPS :: nat where "MAX_BAD_DEBT_PAYDOWN_BPS = 10000"
definition MAX_REDEMPTION_CANDIDATES :: nat where "MAX_REDEMPTION_CANDIDATES = 20"
definition MAX_RATE_ADJUST_COOLDOWN_SECS :: int where "MAX_RATE_ADJUST_COOLDOWN_SECS = 2592000"
definition MAX_KEEPER_REWARD_BPS :: nat where "MAX_KEEPER_REWARD_BPS = 1000"
definition MAX_BACKSTOP_CUT_BPS :: nat where "MAX_BACKSTOP_CUT_BPS = 3000"
definition MAX_BACKSTOP_DRAW_K_BPS :: nat where "MAX_BACKSTOP_DRAW_K_BPS = 100000"
definition MAX_BACKSTOP_DRAW_CEILING_SHARE_BPS :: nat where "MAX_BACKSTOP_DRAW_CEILING_SHARE_BPS = 10000"
definition MAX_BACKSTOP_DRAW_DEBT_SHARE_BPS :: nat where "MAX_BACKSTOP_DRAW_DEBT_SHARE_BPS = 10000"
definition MIN_USER_RATE_BPS :: nat where "MIN_USER_RATE_BPS = 50"
definition MAX_USER_RATE_BPS :: nat where "MAX_USER_RATE_BPS = 2550"
definition MAX_ORACLE_CONF_BPS :: nat where "MAX_ORACLE_CONF_BPS = 500"
definition MAX_ORACLE_DEVIATION_BPS :: nat where "MAX_ORACLE_DEVIATION_BPS = 500"
definition MAX_TWAP_DIVERGENCE_BPS :: nat where "MAX_TWAP_DIVERGENCE_BPS = 1000"
definition MAX_ORACLE_MAX_AGE_SECS :: int where "MAX_ORACLE_MAX_AGE_SECS = 3600"
definition MIN_ORACLE_K_BPS :: nat where "MIN_ORACLE_K_BPS = 10000"
definition MAX_ORACLE_K_BPS :: nat where "MAX_ORACLE_K_BPS = 30000"
definition MAX_TWAP_STALENESS_SECS :: int where "MAX_TWAP_STALENESS_SECS = 3600"
definition MAX_LIQ_DIVERGENCE_BPS :: nat where "MAX_LIQ_DIVERGENCE_BPS = 10000"

definition DEFAULT_BACKSTOP_CUT_BPS :: nat where "DEFAULT_BACKSTOP_CUT_BPS = 0"
definition DEFAULT_BACKSTOP_RESERVE_CAP :: nat where "DEFAULT_BACKSTOP_RESERVE_CAP = 0"
definition DEFAULT_BACKSTOP_DRAW_BASE :: nat where "DEFAULT_BACKSTOP_DRAW_BASE = 0"
definition DEFAULT_BACKSTOP_DRAW_K_BPS :: nat where "DEFAULT_BACKSTOP_DRAW_K_BPS = 0"
definition DEFAULT_BACKSTOP_DRAW_CEILING_SHARE_BPS :: nat where "DEFAULT_BACKSTOP_DRAW_CEILING_SHARE_BPS = 0"
definition DEFAULT_BACKSTOP_DRAW_DEBT_SHARE_BPS :: nat where "DEFAULT_BACKSTOP_DRAW_DEBT_SHARE_BPS = 0"
definition MAX_RESERVE_LAMPORTS :: nat where "MAX_RESERVE_LAMPORTS = 1000000000"
definition MIN_BUCKET_WIDTH_BPS :: nat where "MIN_BUCKET_WIDTH_BPS = 1"
definition MAX_BUCKET_WIDTH_BPS :: nat where "MAX_BUCKET_WIDTH_BPS = 100"
definition MAX_RECONCILE_MARKETS :: nat where "MAX_RECONCILE_MARKETS = 24"
definition MIN_PRICE_BAND_RATIO :: nat where "MIN_PRICE_BAND_RATIO = 4"
definition MAX_LIQUIDITY_HAIRCUT_BPS :: nat where "MAX_LIQUIDITY_HAIRCUT_BPS = 2000"
definition MIN_TWAP_WINDOW_SECS :: int where "MIN_TWAP_WINDOW_SECS = 300"
definition MAX_TWAP_WINDOW_SECS :: int where "MAX_TWAP_WINDOW_SECS = 86400"
definition MIN_TWAP_MIN_SAMPLES :: nat where "MIN_TWAP_MIN_SAMPLES = 3"
definition TWAP_RING_CAPACITY :: nat where "TWAP_RING_CAPACITY = 64"
definition MAX_STAKE_POOL_EPOCH_LAG :: nat where "MAX_STAKE_POOL_EPOCH_LAG = 2"
definition POOL_UPDATE_GRACE_DIVISOR :: nat where "POOL_UPDATE_GRACE_DIVISOR = 16"
definition ZOMBIE_BUCKET :: nat where "ZOMBIE_BUCKET = NUM_RATE_BUCKETS"
definition MAX_MIN_DEBT :: nat where "MAX_MIN_DEBT = 10000 * 1000000"
definition LIQ_INFRA_GATED :: "8 word" where "LIQ_INFRA_GATED = push_bit 0 1"
definition LIQ_INFRA_REACTOR_POOL :: "8 word" where "LIQ_INFRA_REACTOR_POOL = push_bit 1 1"
definition LIQ_INFRA_INSURANCE_BUFFER :: "8 word" where "LIQ_INFRA_INSURANCE_BUFFER = push_bit 2 1"
definition LIQ_INFRA_READY_MASK :: "8 word" where
  "LIQ_INFRA_READY_MASK = (LIQ_INFRA_REACTOR_POOL OR LIQ_INFRA_INSURANCE_BUFFER)"

subsection \<open>Accounts\<close>

record market =
  m_collateral_mint :: pubkey
  m_collateral_vault :: pubkey
  m_agg_recorded_debt :: nat
  m_agg_weighted_debt_sum :: nat
  m_unminted_interest :: nat
  m_last_update_ts :: int
  m_spot :: nat
  m_spot_updated_slot :: nat
  m_debt_spot :: nat
  m_mcr_bps :: nat
  m_debt_ceiling :: nat
  m_collateral_decimals :: nat
  m_l_coll :: nat
  m_l_art :: nat
  m_last_coll_redist_error :: nat
  m_last_art_redist_error :: nat
  m_total_stakes :: nat
  m_total_collateral :: nat
  m_total_stakes_snapshot :: nat
  m_total_collateral_snapshot :: nat
  m_reserve_lamports :: nat
  m_liq_gas_comp_bps :: nat
  m_liq_bonus_bps :: nat
  m_total_coll_surplus :: nat
  m_bucket_width_bps :: nat
  m_redemption_fee_bps :: nat
  m_surplus_collateral :: nat
  m_mint_frozen :: bool
  m_guardian_paused_until :: int
  m_shutdown :: bool
  m_scr_bps :: nat
  m_rl_cap :: nat
  m_rl_accrued :: nat
  m_rl_last_update :: int
  m_ccr_bps :: nat
  m_liq_grace_until :: nat
  m_liq_divergence_until :: nat
  m_bad_debt :: nat
  m_shutdown_reason :: nat
  m_min_debt :: nat
  m_rate_adjust_cooldown_secs :: int
  m_keeper_reward_bps :: nat
  m_borrow_fee_bps :: nat
  m_bad_debt_paydown_bps :: nat
  m_redemption_base_rate :: nat
  m_redemption_base_rate_ts :: int
  m_redemption_base_rate_max_bps :: nat
  m_protocol_collateral :: nat
  m_global_contributed :: nat
  m_global_drawn :: nat
  m_liq_infra_flags :: "8 word"

record position =
  p_owner :: pubkey
  p_collateral_mint :: pubkey
  p_ink :: nat
  p_recorded_debt :: nat
  p_user_rate_bps :: nat
  p_last_debt_update :: int
  p_stake :: nat
  p_redist_l_coll_snapshot :: nat
  p_redist_l_art_snapshot :: nat
  p_reserve_lamports :: nat
  p_bucket :: nat
  p_coll_surplus :: nat
  p_last_rate_adjust_ts :: int
  p_ink_nonce :: nat

record redemption_bitmap =
  bm_words :: "64 word list"
  bm_counts :: "nat list"
  bm_zombie_count :: nat

record reactor_pool =
  rp_collateral_mint :: pubkey
  rp_fusd_vault :: pubkey
  rp_coll_vault :: pubkey
  rp_epoch_to_scale_to_sum :: pubkey
  rp_p :: nat
  rp_epoch :: nat
  rp_scale :: nat
  rp_total_deposits :: nat
  rp_last_coll_error :: nat
  rp_last_loss_error :: nat

record reactor_deposit =
  rd_owner :: pubkey
  rd_reactor_pool :: pubkey
  rd_deposited_fusd :: nat
  rd_snapshot_p :: nat
  rd_snapshot_s :: nat
  rd_snapshot_scale :: nat
  rd_snapshot_epoch :: nat
  rd_pending_collateral_gain :: nat

record insurance_buffer =
  ib_collateral_mint :: pubkey
  ib_fusd_vault :: pubkey
  ib_total_funded :: nat
  ib_total_absorbed :: nat

record global_backstop_reserve =
  gb_fusd_vault :: pubkey
  gb_cut_bps :: nat
  gb_reserve_cap :: nat
  gb_draw_base_allowance :: nat
  gb_draw_k_bps :: nat
  gb_draw_ceiling_share_bps :: nat
  gb_draw_debt_share_bps :: nat
  gb_total_contributed :: nat
  gb_total_absorbed :: nat
  gb_total_withdrawn :: nat

record debt_ceiling_line =
  dl_collateral_mint :: pubkey
  dl_line :: nat
  dl_gap :: nat
  dl_ttl :: int
  dl_last_bump_ts :: int

datatype market_param =
    PMcr
  | PDebtCeiling
  | PRedemptionFee
  | PLiqGasComp
  | PRateLimitCap
  | PCcr
  | PLiqBonus
  | PMinDebt
  | PRateAdjustCooldown
  | PKeeperReward
  | PBorrowFee
  | PBadDebtPaydown
  | PRedemptionBaseRateMax
  | POracleMaxConf
  | POracleMaxDeviation
  | POracleTwapDivergence
  | POracleLiqDivergence
  | POracleMaxAge
  | POracleK
  | POracleTwapStaleness
  | PScr

datatype global_param =
    GCut
  | GReserveCap
  | GDrawBase
  | GDrawK
  | GDrawCeilingShare
  | GDrawDebtShare

record governance_gate =
  gg_inbound_authority :: pubkey
  gg_pending_inbound_authority :: pubkey
  gg_timelock_secs :: int
  gg_queue_nonce :: nat

record timelocked_param =
  tp_nonce :: nat
  tp_eta :: int
  tp_market :: pubkey
  tp_param :: market_param
  tp_value :: nat

record timelocked_global_param =
  tg_nonce :: nat
  tg_eta :: int
  tg_param :: global_param
  tg_value :: nat

record protocol_config =
  cfg_gov_authority :: pubkey
  cfg_guardian :: pubkey
  cfg_deployer :: pubkey
  cfg_fusd_mint :: pubkey
  cfg_pending_gov_authority :: pubkey
  cfg_pyth_receiver_program_id :: pubkey
  cfg_pyth_receiver_program_id_alt :: pubkey
  cfg_switchboard_program_id :: pubkey

record market_oracle =
  mo_collateral_mint :: pubkey
  mo_pyth_feed_id :: "nat list"
  mo_switchboard_feed :: pubkey
  mo_orca_pool :: pubkey
  mo_raydium_pool :: pubkey
  mo_collateral_decimals :: nat
  mo_quote_mint :: pubkey
  mo_quote_decimals :: nat
  mo_max_conf_bps :: nat
  mo_max_deviation_bps :: nat
  mo_twap_max_divergence_bps :: nat
  mo_max_age_secs :: int
  mo_k_bps :: nat
  mo_twap_window_secs :: int
  mo_twap_min_samples :: nat
  mo_twap_max_staleness_secs :: int
  mo_price_band_lower_ray :: nat
  mo_price_band_upper_ray :: nat
  mo_liq_max_divergence_bps :: nat
  mo_lst_stake_pool :: pubkey
  mo_canonical_primary :: nat
  mo_liquidity_haircut_bps :: nat
  mo_last_canonical_rate_ray :: nat

subsection \<open>Methods of the accounts\<close>

definition commit_fresh_spot :: "market \<Rightarrow> nat \<Rightarrow> nat \<Rightarrow> nat \<Rightarrow> market" where
  "commit_fresh_spot m spot debt_spot now_slot =
     (let m = (if m_spot m > 0 \<and> now_slot - m_spot_updated_slot m > MAX_PRICE_STALENESS_SLOTS
               then m\<lparr> m_liq_grace_until :=
                        max (m_liq_grace_until m) (saturating_add 64 now_slot LIQ_RESUME_GRACE_SLOTS) \<rparr>
               else m)
      in m\<lparr> m_spot := spot, m_debt_spot := debt_spot, m_spot_updated_slot := now_slot \<rparr>)"

definition set_ink :: "position \<Rightarrow> nat \<Rightarrow> position" where
  "set_ink p new_ink =
     (if new_ink \<noteq> p_ink p
      then p\<lparr> p_ink := new_ink, p_ink_nonce := saturating_add 64 (p_ink_nonce p) 1 \<rparr>
      else p)"

lemma set_ink_simps [simp]:
  "p_ink (set_ink p n) = n"
  "p_owner (set_ink p n) = p_owner p" "p_collateral_mint (set_ink p n) = p_collateral_mint p"
  "p_recorded_debt (set_ink p n) = p_recorded_debt p" "p_user_rate_bps (set_ink p n) = p_user_rate_bps p"
  "p_last_debt_update (set_ink p n) = p_last_debt_update p" "p_stake (set_ink p n) = p_stake p"
  "p_redist_l_coll_snapshot (set_ink p n) = p_redist_l_coll_snapshot p"
  "p_redist_l_art_snapshot (set_ink p n) = p_redist_l_art_snapshot p"
  "p_reserve_lamports (set_ink p n) = p_reserve_lamports p" "p_bucket (set_ink p n) = p_bucket p"
  "p_coll_surplus (set_ink p n) = p_coll_surplus p" "p_last_rate_adjust_ts (set_ink p n) = p_last_rate_adjust_ts p"
  by (simp_all add: set_ink_def)

end
