(* ===== verification/Supply_Transition.thy ===== *)
theory Supply_Transition
  imports Fixed_Point
begin

text \<open>
  The pure supply transitions of the core program, \<^verbatim>\<open>programs/fusd-core/src/supply_transition.rs\<close>. The
  source is generic over a numeric trait; the trait is a record of operations passed to every
  function. The laws of the trait are the locale \<open>supply_arith\<close>, in which each transition is shown
  to keep the supply identity once and for all; the 128-bit implementation is an instance.
\<close>

subsection \<open>The numeric trait and its 128-bit implementation\<close>

record 'a supply_num =
  cadd :: "'a \<Rightarrow> 'a \<Rightarrow> 'a option"
  csub :: "'a \<Rightarrow> 'a \<Rightarrow> 'a option"
  min2 :: "'a \<Rightarrow> 'a \<Rightarrow> 'a"
  bps_cut :: "'a \<Rightarrow> nat \<Rightarrow> 'a option"
  from_u64 :: "nat \<Rightarrow> 'a"
  greater :: "'a \<Rightarrow> 'a \<Rightarrow> bool"

definition u128_num :: "nat supply_num" where
  "u128_num = \<lparr> cadd = checked_add 128, csub = checked_sub, min2 = min,
     bps_cut = (\<lambda>a bps. case checked_mul 128 a bps of None \<Rightarrow> None | Some scaled \<Rightarrow> Some (scaled div BPS_DENOMINATOR)),
     from_u64 = (\<lambda>v. v), greater = (\<lambda>a b. a > b) \<rparr>"

subsection \<open>Transitions\<close>

record 'a borrow_delta =
  bd_debt_delta :: 'a
  bd_new_agg :: 'a
  bd_new_unminted :: 'a
  bd_minted :: 'a

definition st_borrow :: "'a supply_num \<Rightarrow> 'a \<Rightarrow> 'a \<Rightarrow> 'a \<Rightarrow> 'a \<Rightarrow> 'a borrow_delta option" where
  "st_borrow N agg0 unminted0 amount fee =
     (case cadd N amount fee of None \<Rightarrow> None | Some debt_delta \<Rightarrow>
     (case cadd N agg0 debt_delta of None \<Rightarrow> None | Some new_agg \<Rightarrow>
     (case cadd N unminted0 fee of None \<Rightarrow> None | Some new_unminted \<Rightarrow>
      Some \<lparr> bd_debt_delta = debt_delta, bd_new_agg = new_agg, bd_new_unminted = new_unminted, bd_minted = amount \<rparr>)))"

record 'a repay_delta =
  rd_burn :: 'a
  rd_new_position_debt :: 'a
  rd_new_agg :: 'a

definition st_repay :: "'a supply_num \<Rightarrow> 'a \<Rightarrow> 'a \<Rightarrow> 'a \<Rightarrow> 'a repay_delta option" where
  "st_repay N agg0 position_debt amount =
     (let burn = min2 N amount position_debt in
     (case csub N position_debt burn of None \<Rightarrow> None | Some new_position_debt \<Rightarrow>
     (case csub N agg0 burn of None \<Rightarrow> None | Some new_agg \<Rightarrow>
      Some \<lparr> rd_burn = burn, rd_new_position_debt = new_position_debt, rd_new_agg = new_agg \<rparr>)))"

record 'a refresh_delta =
  rf_amount :: 'a
  rf_keeper_cut :: 'a
  rf_paydown :: 'a
  rf_backstop_cut :: 'a
  rf_buffer_amount :: 'a
  rf_new_unminted :: 'a
  rf_new_bad :: 'a

definition st_refresh :: "'a supply_num \<Rightarrow> 'a \<Rightarrow> 'a \<Rightarrow> nat \<Rightarrow> nat \<Rightarrow> nat \<Rightarrow> 'a \<Rightarrow> 'a refresh_delta option" where
  "st_refresh N pending bad0 keeper_bps paydown_bps backstop_cut_bps backstop_headroom =
     (let zero = from_u64 N 0;
          amount = min2 N pending (from_u64 N (2 ^ 64 - 1)) in
     (case (if keeper_bps > 0 then bps_cut N amount keeper_bps else Some zero) of None \<Rightarrow> None | Some keeper_cut \<Rightarrow>
     (case csub N amount keeper_cut of None \<Rightarrow> None | Some post_keeper \<Rightarrow>
     (case (if paydown_bps > 0 \<and> greater N bad0 zero
            then (case bps_cut N post_keeper paydown_bps of None \<Rightarrow> None | Some want \<Rightarrow> Some (min2 N want bad0))
            else Some zero) of None \<Rightarrow> None | Some paydown \<Rightarrow>
     (case csub N post_keeper paydown of None \<Rightarrow> None | Some post_paydown \<Rightarrow>
     (case (if backstop_cut_bps > 0
            then (case bps_cut N post_paydown backstop_cut_bps of None \<Rightarrow> None | Some want \<Rightarrow> Some (min2 N want backstop_headroom))
            else Some zero) of None \<Rightarrow> None | Some backstop_cut \<Rightarrow>
     (case csub N post_paydown backstop_cut of None \<Rightarrow> None | Some buffer_amount \<Rightarrow>
     (case csub N pending amount of None \<Rightarrow> None | Some new_unminted \<Rightarrow>
     (case csub N bad0 paydown of None \<Rightarrow> None | Some new_bad \<Rightarrow>
      Some \<lparr> rf_amount = amount, rf_keeper_cut = keeper_cut, rf_paydown = paydown, rf_backstop_cut = backstop_cut,
             rf_buffer_amount = buffer_amount, rf_new_unminted = new_unminted, rf_new_bad = new_bad \<rparr>)))))))))"

record 'a liquidate_delta =
  ld_burned :: 'a
  ld_new_agg :: 'a
  ld_new_bad :: 'a

definition st_liquidate :: "'a supply_num \<Rightarrow> 'a \<Rightarrow> 'a \<Rightarrow> 'a \<Rightarrow> 'a \<Rightarrow> 'a \<Rightarrow> 'a \<Rightarrow> 'a \<Rightarrow> 'a liquidate_delta option" where
  "st_liquidate N agg0 bad0 reactor redist buffer global unhomed =
     (case csub N agg0 reactor of None \<Rightarrow> None | Some a1 \<Rightarrow>
     (case csub N a1 buffer of None \<Rightarrow> None | Some a2 \<Rightarrow>
     (case csub N a2 global of None \<Rightarrow> None | Some a3 \<Rightarrow>
     (case csub N a3 unhomed of None \<Rightarrow> None | Some new_agg \<Rightarrow>
     (case cadd N reactor buffer of None \<Rightarrow> None | Some b1 \<Rightarrow>
     (case cadd N b1 global of None \<Rightarrow> None | Some burned \<Rightarrow>
     (case cadd N bad0 unhomed of None \<Rightarrow> None | Some new_bad \<Rightarrow>
      Some \<lparr> ld_burned = burned, ld_new_agg = new_agg, ld_new_bad = new_bad \<rparr>)))))))"

record 'a redeem_step_delta =
  rs_burned :: 'a
  rs_new_agg :: 'a

definition st_redeem_step :: "'a supply_num \<Rightarrow> 'a \<Rightarrow> 'a \<Rightarrow> 'a redeem_step_delta option" where
  "st_redeem_step N agg0 redeem_amt =
     (case csub N agg0 redeem_amt of None \<Rightarrow> None | Some new_agg \<Rightarrow>
      Some \<lparr> rs_burned = redeem_amt, rs_new_agg = new_agg \<rparr>)"

definition st_settle_bad_debt :: "'a supply_num \<Rightarrow> 'a \<Rightarrow> 'a \<Rightarrow> 'a option" where
  "st_settle_bad_debt N bad0 burned = csub N bad0 burned"

record 'a interest_delta =
  id_new_agg :: 'a
  id_new_unminted :: 'a

definition st_book_interest :: "'a supply_num \<Rightarrow> 'a \<Rightarrow> 'a \<Rightarrow> 'a \<Rightarrow> 'a interest_delta option" where
  "st_book_interest N agg0 unminted0 x =
     (case cadd N agg0 x of None \<Rightarrow> None | Some new_agg \<Rightarrow>
     (case cadd N unminted0 x of None \<Rightarrow> None | Some new_unminted \<Rightarrow>
      Some \<lparr> id_new_agg = new_agg, id_new_unminted = new_unminted \<rparr>))"

subsection \<open>The supply identity, for every lawful arithmetic\<close>

text \<open>
  The laws of the trait, over the integers the numbers stand for. Tokens in circulation are the
  recorded debt less the interest not minted yet plus the bad debt.
\<close>

locale supply_arith =
  fixes N :: "'a supply_num" and val :: "'a \<Rightarrow> int"
  assumes cadd_val: "cadd N a b = Some c \<Longrightarrow> val c = val a + val b"
    and csub_val: "csub N a b = Some c \<Longrightarrow> val c = val a - val b \<and> val b \<le> val a"
    and min2_val: "val (min2 N a b) = min (val a) (val b)"
    and cut_val: "bps_cut N a bps = Some c \<Longrightarrow> 0 \<le> val c"
    and zero_val: "val (from_u64 N 0) = 0"
    and nonneg: "0 \<le> val a"
begin

definition circulating :: "'a \<Rightarrow> 'a \<Rightarrow> 'a \<Rightarrow> int" where
  "circulating agg unminted bad = val agg - val unminted + val bad"

lemma borrow_identity:
  assumes "st_borrow N agg unminted amount fee = Some d"
  shows "circulating (bd_new_agg d) (bd_new_unminted d) bad = circulating agg unminted bad + val (bd_minted d)"
    and "bd_minted d = amount" "val (bd_debt_delta d) = val amount + val fee"
    and "val (bd_new_agg d) = val agg + val (bd_debt_delta d)"
  using assms by (auto simp: st_borrow_def circulating_def res_simps dest!: cadd_val)

lemma repay_identity:
  assumes "st_repay N agg debt amount = Some d"
  shows "circulating (rd_new_agg d) unminted bad = circulating agg unminted bad - val (rd_burn d)"
    and "val (rd_new_position_debt d) = val debt - val (rd_burn d)"
    and "val (rd_burn d) = min (val amount) (val debt)"
    and "val (rd_new_agg d) = val agg - val (rd_burn d)"
  using assms by (auto simp: st_repay_def circulating_def Let_def res_simps min2_val dest!: csub_val)

lemma refresh_identity:
  assumes "st_refresh N unminted bad kb pb bb head = Some d"
  shows "circulating agg (rf_new_unminted d) (rf_new_bad d) =
           circulating agg unminted bad + val (rf_keeper_cut d) + val (rf_backstop_cut d) + val (rf_buffer_amount d)"
    and "val (rf_keeper_cut d) + val (rf_paydown d) + val (rf_backstop_cut d) + val (rf_buffer_amount d) = val (rf_amount d)"
    and "val (rf_amount d) \<le> val unminted" "val (rf_paydown d) \<le> val bad"
    and "val (rf_new_bad d) = val bad - val (rf_paydown d)"
    and "val (rf_new_unminted d) = val unminted - val (rf_amount d)"
proof -
  obtain kc pk pd pp bc where *:
    "csub N (rf_amount d) kc = Some pk" "csub N pk pd = Some pp" "csub N pp bc = Some (rf_buffer_amount d)"
    "csub N unminted (rf_amount d) = Some (rf_new_unminted d)" "csub N bad pd = Some (rf_new_bad d)"
    "kc = rf_keeper_cut d" "pd = rf_paydown d" "bc = rf_backstop_cut d"
    using assms unfolding st_refresh_def Let_def case_option_Some by (elim exE conjE) auto
  then show "circulating agg (rf_new_unminted d) (rf_new_bad d) =
           circulating agg unminted bad + val (rf_keeper_cut d) + val (rf_backstop_cut d) + val (rf_buffer_amount d)"
    "val (rf_keeper_cut d) + val (rf_paydown d) + val (rf_backstop_cut d) + val (rf_buffer_amount d) = val (rf_amount d)"
    "val (rf_amount d) \<le> val unminted" "val (rf_paydown d) \<le> val bad"
    "val (rf_new_bad d) = val bad - val (rf_paydown d)"
    "val (rf_new_unminted d) = val unminted - val (rf_amount d)"
    by (auto simp: circulating_def dest!: csub_val)
qed

lemma liquidate_identity:
  assumes "st_liquidate N agg bad r rd b g u = Some d"
  shows "circulating (ld_new_agg d) unminted (ld_new_bad d) = circulating agg unminted bad - val (ld_burned d)"
    and "val (ld_burned d) = val r + val b + val g"
    and "val (ld_new_agg d) = val agg - val (ld_burned d) - val u" "val (ld_new_bad d) = val bad + val u"
proof -
  obtain a1 a2 a3 b1 where "csub N agg r = Some a1" "csub N a1 b = Some a2" "csub N a2 g = Some a3"
    "csub N a3 u = Some (ld_new_agg d)" "cadd N r b = Some b1" "cadd N b1 g = Some (ld_burned d)"
    "cadd N bad u = Some (ld_new_bad d)"
    using assms unfolding st_liquidate_def case_option_Some by (elim exE conjE) auto
  then show "circulating (ld_new_agg d) unminted (ld_new_bad d) = circulating agg unminted bad - val (ld_burned d)"
    "val (ld_burned d) = val r + val b + val g"
    "val (ld_new_agg d) = val agg - val (ld_burned d) - val u" "val (ld_new_bad d) = val bad + val u"
    by (auto simp: circulating_def dest!: csub_val cadd_val)
qed

lemma redeem_identity:
  assumes "st_redeem_step N agg amt = Some d"
  shows "circulating (rs_new_agg d) unminted bad = circulating agg unminted bad - val (rs_burned d)"
    and "rs_burned d = amt" "val (rs_new_agg d) = val agg - val amt"
  using assms by (auto simp: st_redeem_step_def circulating_def res_simps dest!: csub_val)

lemma settle_identity:
  assumes "st_settle_bad_debt N bad burned = Some bad'"
  shows "circulating agg unminted bad' = circulating agg unminted bad - val burned" "val bad' = val bad - val burned"
  using assms by (auto simp: st_settle_bad_debt_def circulating_def dest!: csub_val)

lemma interest_identity:
  assumes "st_book_interest N agg unminted x = Some d"
  shows "circulating (id_new_agg d) (id_new_unminted d) bad = circulating agg unminted bad"
    and "val (id_new_agg d) = val agg + val x" "val (id_new_unminted d) = val unminted + val x"
  using assms by (auto simp: st_book_interest_def circulating_def res_simps dest!: cadd_val)

end

interpretation u128_supply: supply_arith u128_num int
  by unfold_locales (auto simp: u128_num_def num_simps of_nat_diff split: option.splits)

end
