(* ===== verification/Accrual.thy ===== *)
theory Accrual
  imports Core_State Interest Supply_Transition
begin

text \<open>
  Interest accrual and the glue between accounts and redistribution,
  \<^verbatim>\<open>programs/fusd-core/src/redist.rs\<close> and \<^verbatim>\<open>accrual.rs\<close>.
\<close>

subsection \<open>Redistribution glue\<close>

definition redist_of_market :: "market \<Rightarrow> redist_state" where
  "redist_of_market m = \<lparr> l_coll = m_l_coll m, l_art = m_l_art m,
     last_coll_error = m_last_coll_redist_error m, last_art_error = m_last_art_redist_error m \<rparr>"

definition write_redist_state :: "market \<Rightarrow> redist_state \<Rightarrow> market" where
  "write_redist_state m st = m\<lparr> m_l_coll := l_coll st, m_l_art := l_art st,
     m_last_coll_redist_error := last_coll_error st, m_last_art_redist_error := last_art_error st \<rparr>"

definition redist_snapshot_of_position :: "position \<Rightarrow> redist_snapshot" where
  "redist_snapshot_of_position p =
     \<lparr> snap_l_coll = p_redist_l_coll_snapshot p, snap_l_art = p_redist_l_art_snapshot p \<rparr>"

fun redist_map_err :: "redist_error \<Rightarrow> fusd_error failure" where
  "redist_map_err NoStakes = Raised NoRedistributionRecipients"
| "redist_map_err AccumulatorOverflow = Raised RedistributionAccumulatorOverflow"
| "redist_map_err RedistMath = Raised MathOverflow"

definition pending_of_position :: "market \<Rightarrow> position \<Rightarrow> (nat \<times> nat) res" where
  "pending_of_position m p =
     map_err redist_map_err (redist_pending (p_stake p) (redist_of_market m) (redist_snapshot_of_position p))"

definition roll_snapshot :: "market \<Rightarrow> position \<Rightarrow> position" where
  "roll_snapshot m p = p\<lparr> p_redist_l_coll_snapshot := m_l_coll m, p_redist_l_art_snapshot := m_l_art m \<rparr>"

definition set_stake :: "market \<Rightarrow> position \<Rightarrow> (market \<times> position) res" where
  "set_stake m p =
     bindR (map_err redist_map_err
              (compute_stake (p_ink p) (m_total_stakes_snapshot m) (m_total_collateral_snapshot m))) (\<lambda>new_stake.
     bindR (math (case checked_sub (m_total_stakes m) (p_stake p) of
                    None \<Rightarrow> None | Some t \<Rightarrow> checked_add 128 t new_stake)) (\<lambda>total_stakes.
     Inr (m\<lparr> m_total_stakes := total_stakes \<rparr>, p\<lparr> p_stake := new_stake \<rparr>)))"

subsection \<open>Accrual\<close>

definition accrue :: "market \<Rightarrow> int \<Rightarrow> market res" where
  "accrue m now =
     (let dt = i64_sat (now - m_last_update_ts m) in
      if dt \<le> 0 \<or> m_shutdown m then Inr m
      else bindR (math (pending_aggregate_interest (m_agg_weighted_debt_sum m) (nat dt))) (\<lambda>pending.
           bindR (math (st_book_interest u128_num (m_agg_recorded_debt m) (m_unminted_interest m) pending)) (\<lambda>d.
           Inr (m\<lparr> m_agg_recorded_debt := id_new_agg d, m_unminted_interest := id_new_unminted d,
                   m_last_update_ts := now \<rparr>))))"

definition realize :: "market \<Rightarrow> position \<Rightarrow> int \<Rightarrow> position res" where
  "realize m p now =
     (let cap = (if m_shutdown m then m_last_update_ts m else now);
          period = nat (max (i64_sat (cap - p_last_debt_update p)) 0) in
      bindR (math (accrued_interest (p_recorded_debt p) (p_user_rate_bps p) period)) (\<lambda>accrued.
      bindR (pending_of_position m p) (\<lambda>(pending_coll, pending_debt).
      bindR (if pending_coll > 0
             then bindR (math (try_from 64 pending_coll)) (\<lambda>add.
                  bindR (math (checked_add 64 (p_ink p) add)) (\<lambda>new_ink.
                  Inr (set_ink p new_ink)))
             else Inr p) (\<lambda>p.
      bindR (math (case checked_add 128 (p_recorded_debt p) accrued of
                     None \<Rightarrow> None | Some d \<Rightarrow> checked_add 128 d pending_debt)) (\<lambda>debt.
      Inr (roll_snapshot m (p\<lparr> p_recorded_debt := debt, p_last_debt_update := cap \<rparr>)))))))"

definition weighted :: "position \<Rightarrow> nat res" where
  "weighted p = math (weighted_debt (p_recorded_debt p) (p_user_rate_bps p))"

definition reweight :: "market \<Rightarrow> position \<Rightarrow> nat \<Rightarrow> market res" where
  "reweight m p old_weighted =
     bindR (weighted p) (\<lambda>new_weighted.
     bindR (math (case checked_add 128 (m_agg_weighted_debt_sum m) new_weighted of
                    None \<Rightarrow> None | Some s \<Rightarrow> checked_sub s old_weighted)) (\<lambda>s.
     Inr (m\<lparr> m_agg_weighted_debt_sum := s \<rparr>)))"

subsection \<open>Effects\<close>

lemma accrue_Inr:
  assumes "accrue m now = Inr m'"
  obtains x t where "m' = m\<lparr> m_agg_recorded_debt := m_agg_recorded_debt m + x,
      m_unminted_interest := m_unminted_interest m + x, m_last_update_ts := t \<rparr>"
    "x = 0 \<and> t = m_last_update_ts m \<or>
     \<not> m_shutdown m \<and> m_last_update_ts m < now \<and> t = now \<and>
     pending_aggregate_interest (m_agg_weighted_debt_sum m) (nat (i64_sat (now - m_last_update_ts m))) = Some x"
proof (cases "i64_sat (now - m_last_update_ts m) \<le> 0 \<or> m_shutdown m")
  case True
  then have "m' = m" using assms by (simp add: accrue_def)
  then show ?thesis using that [where x = 0 and t = "m_last_update_ts m"] by simp
next
  case False
  obtain x d where x: "pending_aggregate_interest (m_agg_weighted_debt_sum m) (nat (i64_sat (now - m_last_update_ts m))) = Some x"
    and d: "st_book_interest u128_num (m_agg_recorded_debt m) (m_unminted_interest m) x = Some d"
    and m': "m' = m\<lparr> m_agg_recorded_debt := id_new_agg d, m_unminted_interest := id_new_unminted d, m_last_update_ts := now \<rparr>"
    using assms False by (auto simp: accrue_def Let_def res_simps)
  have "m_last_update_ts m < now" using False by (auto simp: i64_sat_def)
  then show ?thesis
    using that [where x = x and t = now] u128_supply.interest_identity(2,3) [OF d] False x m' by (simp flip: of_nat_add)
qed

lemma accrue_total_debt:
  assumes "accrue m now = Inr m'"
  shows "int (m_agg_recorded_debt m') - int (m_unminted_interest m') + int (m_bad_debt m') =
         int (m_agg_recorded_debt m) - int (m_unminted_interest m) + int (m_bad_debt m)"
  by (rule accrue_Inr [OF assms]) simp

lemma pending_of_position_Inr:
  "pending_of_position m p = Inr (c, a) \<Longrightarrow>
     c = p_stake p * (m_l_coll m - p_redist_l_coll_snapshot p) div PRECISION \<and>
     a = p_stake p * (m_l_art m - p_redist_l_art_snapshot p) div PRECISION"
  by (auto simp: pending_of_position_def res_simps redist_of_market_def redist_snapshot_of_position_def
      dest!: redist_pending_Inr)

lemma roll_snapshot_simps [simp]:
  "p_ink (roll_snapshot m p) = p_ink p" "p_owner (roll_snapshot m p) = p_owner p"
  "p_collateral_mint (roll_snapshot m p) = p_collateral_mint p"
  "p_recorded_debt (roll_snapshot m p) = p_recorded_debt p" "p_user_rate_bps (roll_snapshot m p) = p_user_rate_bps p"
  "p_last_debt_update (roll_snapshot m p) = p_last_debt_update p" "p_stake (roll_snapshot m p) = p_stake p"
  "p_reserve_lamports (roll_snapshot m p) = p_reserve_lamports p" "p_bucket (roll_snapshot m p) = p_bucket p"
  "p_coll_surplus (roll_snapshot m p) = p_coll_surplus p"
  "p_last_rate_adjust_ts (roll_snapshot m p) = p_last_rate_adjust_ts p"
  "p_redist_l_coll_snapshot (roll_snapshot m p) = m_l_coll m"
  "p_redist_l_art_snapshot (roll_snapshot m p) = m_l_art m"
  by (simp_all add: roll_snapshot_def)

lemma realize_Inr:
  assumes "realize m p now = Inr p'"
  obtains accrued pc pd where
    "accrued_interest (p_recorded_debt p) (p_user_rate_bps p)
       (nat (max (i64_sat ((if m_shutdown m then m_last_update_ts m else now) - p_last_debt_update p)) 0)) = Some accrued"
    "pending_of_position m p = Inr (pc, pd)"
    "p_ink p' = p_ink p + pc" "p_recorded_debt p' = p_recorded_debt p + accrued + pd"
    "p_recorded_debt p + accrued + pd < 2 ^ 128" "pc = 0 \<or> p_ink p + pc < 2 ^ 64"
    "p_last_debt_update p' = (if m_shutdown m then m_last_update_ts m else now)"
    "p_redist_l_coll_snapshot p' = m_l_coll m" "p_redist_l_art_snapshot p' = m_l_art m"
    "p_owner p' = p_owner p" "p_collateral_mint p' = p_collateral_mint p" "p_user_rate_bps p' = p_user_rate_bps p"
    "p_stake p' = p_stake p" "p_reserve_lamports p' = p_reserve_lamports p" "p_bucket p' = p_bucket p"
    "p_coll_surplus p' = p_coll_surplus p" "p_last_rate_adjust_ts p' = p_last_rate_adjust_ts p"
proof -
  let ?cap = "if m_shutdown m then m_last_update_ts m else now"
  obtain accrued pc pd q d where *:
    "accrued_interest (p_recorded_debt p) (p_user_rate_bps p) (nat (max (i64_sat (?cap - p_last_debt_update p)) 0)) = Some accrued"
    "pending_of_position m p = Inr (pc, pd)"
    "(if pc > 0 then bindR (math (try_from 64 pc)) (\<lambda>add. bindR (math (checked_add 64 (p_ink p) add)) (\<lambda>new_ink. Inr (set_ink p new_ink)))
      else Inr p) = Inr q"
    "d = p_recorded_debt q + accrued + pd" "p_recorded_debt q + accrued + pd < 2 ^ 128"
    "p' = roll_snapshot m (q\<lparr> p_recorded_debt := d, p_last_debt_update := ?cap \<rparr>)"
    using assms unfolding realize_def Let_def bindR_Inr case_prod_Inr ok_or_Inr case_option_Some
    by (elim exE conjE) (auto simp: num_simps)
  have "q = p \<and> pc = 0 \<or> q = set_ink p (p_ink p + pc) \<and> p_ink p + pc < 2 ^ 64"
    using *(3) by (auto simp: res_simps num_simps split: if_splits)
  then show ?thesis using that [OF *(1,2)] *(4-6) by auto
qed

lemma weighted_Inr [res_simps]: "weighted p = Inr w \<longleftrightarrow> w = p_recorded_debt p * p_user_rate_bps p \<and> w < 2 ^ 128"
  by (auto simp: weighted_def res_simps num_simps)

lemma reweight_Inr [res_simps]:
  "reweight m p old = Inr m' \<longleftrightarrow>
     m' = m\<lparr> m_agg_weighted_debt_sum := m_agg_weighted_debt_sum m + p_recorded_debt p * p_user_rate_bps p - old \<rparr> \<and>
     p_recorded_debt p * p_user_rate_bps p < 2 ^ 128 \<and>
     old \<le> m_agg_weighted_debt_sum m + p_recorded_debt p * p_user_rate_bps p \<and>
     m_agg_weighted_debt_sum m + p_recorded_debt p * p_user_rate_bps p < 2 ^ 128"
  by (auto simp: reweight_def res_simps num_simps)

lemma set_stake_Inr:
  assumes "set_stake m p = Inr (m', p')"
  obtains s where "m' = m\<lparr> m_total_stakes := m_total_stakes m - p_stake p + s \<rparr>" "p' = p\<lparr> p_stake := s \<rparr>"
    "p_stake p \<le> m_total_stakes m" "m_total_stakes m - p_stake p + s < 2 ^ 128"
    "compute_stake (p_ink p) (m_total_stakes_snapshot m) (m_total_collateral_snapshot m) = Inr s"
  using assms by (auto simp: set_stake_def res_simps num_simps)

end
