(* ===== verification/Buckets.thy ===== *)
theory Buckets
  imports Core_State
begin

text \<open>
  Membership of positions in rate buckets, \<^verbatim>\<open>programs/fusd-core/src/bucket.rs\<close>. The account keeps a
  bitmap, a member count per bucket and a count of zombie positions; the bitmap and the counts are
  coupled through the interface \<open>bucket_set\<close>.
\<close>

subsection \<open>Operations\<close>

definition bucket_for :: "market \<Rightarrow> position \<Rightarrow> nat res" where
  "bucket_for m p = bucket_of (p_user_rate_bps p) (m_bucket_width_bps m) NUM_RATE_BUCKETS"

definition bucket_target :: "market \<Rightarrow> position \<Rightarrow> nat option res" where
  "bucket_target m p =
     (if p_recorded_debt p = 0 then Inr None
      else if p_ink p = 0 \<or> p_recorded_debt p < m_min_debt m then Inr (Some ZOMBIE_BUCKET)
      else bindR (bucket_for m p) (\<lambda>b. Inr (Some b)))"

definition add_member :: "redemption_bitmap \<Rightarrow> nat \<Rightarrow> redemption_bitmap res" where
  "add_member bm b =
     (if b = ZOMBIE_BUCKET
      then bindR (math (checked_add 64 (bm_zombie_count bm) 1)) (\<lambda>z. Inr (bm\<lparr> bm_zombie_count := z \<rparr>))
      else bindR (ensure (b < length (bm_counts bm)) Panic) (\<lambda>_.
           bindR (if bm_counts bm ! b = 0 then bm_set (bm_words bm) b else Inr (bm_words bm)) (\<lambda>words.
           bindR (math (checked_add 32 (bm_counts bm ! b) 1)) (\<lambda>c.
           Inr (bm\<lparr> bm_words := words, bm_counts := (bm_counts bm)[b := c] \<rparr>)))))"

definition remove_member :: "redemption_bitmap \<Rightarrow> nat \<Rightarrow> redemption_bitmap res" where
  "remove_member bm b =
     (if b = ZOMBIE_BUCKET
      then bindR (math (checked_sub (bm_zombie_count bm) 1)) (\<lambda>z. Inr (bm\<lparr> bm_zombie_count := z \<rparr>))
      else bindR (ensure (b < length (bm_counts bm)) Panic) (\<lambda>_.
           bindR (math (checked_sub (bm_counts bm ! b) 1)) (\<lambda>c.
           bindR (if c = 0 then bm_clear (bm_words bm) b else Inr (bm_words bm)) (\<lambda>words.
           Inr (bm\<lparr> bm_words := words, bm_counts := (bm_counts bm)[b := c] \<rparr>)))))"

definition reconcile :: "redemption_bitmap \<Rightarrow> market \<Rightarrow> position \<Rightarrow> nat \<Rightarrow> (redemption_bitmap \<times> position) res" where
  "reconcile bm m p art_before =
     bindR (bucket_target m p) (\<lambda>t.
     case (art_before > 0, t) of
       (False, None) \<Rightarrow> Inr (bm, p)
     | (False, Some new) \<Rightarrow> bindR (add_member bm new) (\<lambda>bm. Inr (bm, p\<lparr> p_bucket := new \<rparr>))
     | (True, None) \<Rightarrow> bindR (remove_member bm (p_bucket p)) (\<lambda>bm. Inr (bm, p))
     | (True, Some new) \<Rightarrow>
         if p_bucket p \<noteq> new
         then bindR (remove_member bm (p_bucket p)) (\<lambda>bm.
              bindR (add_member bm new) (\<lambda>bm. Inr (bm, p\<lparr> p_bucket := new \<rparr>)))
         else Inr (bm, p))"

subsection \<open>Coupling of bitmap and counts\<close>

definition bitmap_ok :: "redemption_bitmap \<Rightarrow> bool" where
  "bitmap_ok bm \<longleftrightarrow> num_buckets (bm_words bm) = NUM_RATE_BUCKETS \<and> bitmap.coupled (bm_words bm) (bm_counts bm)"

text \<open>The recorded number of members of a bucket, the zombie bucket included.\<close>

definition tally :: "redemption_bitmap \<Rightarrow> nat \<Rightarrow> nat" where
  "tally bm k = (if k = ZOMBIE_BUCKET then bm_zombie_count bm else bm_counts bm ! k)"

text \<open>The bucket a position with debt before the operation belongs to.\<close>

definition member_of :: "nat \<Rightarrow> position \<Rightarrow> nat option" where
  "member_of debt p = (if debt > 0 then Some (p_bucket p) else None)"

lemma ZOMBIE_BUCKET_eq: "ZOMBIE_BUCKET = 256" "NUM_RATE_BUCKETS = 256"
  by (simp_all add: ZOMBIE_BUCKET_def NUM_RATE_BUCKETS_def)

lemma bitmap_ok_length: "bitmap_ok bm \<Longrightarrow> length (bm_counts bm) = 256"
  by (simp add: bitmap_ok_def bitmap.coupled_def ZOMBIE_BUCKET_eq)

lemma add_member_ok:
  assumes "bitmap_ok bm" "add_member bm b = Inr bm'"
  shows "bitmap_ok bm'" "b \<le> ZOMBIE_BUCKET" "\<And>k. k \<le> ZOMBIE_BUCKET \<Longrightarrow> tally bm' k = tally bm k + (if k = b then 1 else 0)"
proof -
  have len: "length (bm_counts bm) = 256" by (rule bitmap_ok_length [OF assms(1)])
  consider "b = ZOMBIE_BUCKET" "bm' = bm\<lparr> bm_zombie_count := bm_zombie_count bm + 1 \<rparr>"
    | ws where "b < 256" "(if bm_counts bm ! b = 0 then bm_set (bm_words bm) b else Inr (bm_words bm)) = (Inr ws :: fusd_error failure + _)"
      "bm' = bm\<lparr> bm_words := ws, bm_counts := (bm_counts bm)[b := bm_counts bm ! b + 1] \<rparr>"
  proof (cases "b = ZOMBIE_BUCKET")
    case True
    then show ?thesis using assms(2) that(1) by (simp add: add_member_def res_simps num_simps)
  next
    case False
    then show ?thesis
      using assms(2) len that(2) by (simp add: add_member_def res_simps num_simps split del: if_split) blast
  qed
  note c = this
  show "b \<le> ZOMBIE_BUCKET" using c by cases (auto simp: ZOMBIE_BUCKET_eq)
  show "tally bm' k = tally bm k + (if k = b then 1 else 0)" if "k \<le> ZOMBIE_BUCKET" for k
    using c by cases (use that len in \<open>auto simp: tally_def nth_list_update ZOMBIE_BUCKET_eq\<close>)
  show "bitmap_ok bm'"
    using c
  proof cases
    case 1
    then show ?thesis using assms(1) by (simp add: bitmap_ok_def)
  next
    case 2
    have cap: "b < num_buckets (bm_words bm)" using assms(1) 2(1) by (simp add: bitmap_ok_def ZOMBIE_BUCKET_eq)
    show ?thesis
    proof (cases "bm_counts bm ! b = 0")
      case True
      then have s: "bm_set (bm_words bm) b = (Inr ws :: fusd_error failure + _)" using 2(2) by simp
      then have "num_buckets ws = num_buckets (bm_words bm)" by (auto simp: bm_set_def Let_def num_buckets_def split: if_splits)
      then show ?thesis
        using assms(1) bitmap.coupled_add [OF _ cap s, of "bm_counts bm"] 2(3) by (simp add: bitmap_ok_def)
    next
      case False
      then show ?thesis
        using assms(1) bitmap.coupled_same [OF _ cap, of "bm_counts bm" "bm_counts bm ! b + 1"] 2(2,3)
        by (simp add: bitmap_ok_def)
    qed
  qed
qed

lemma remove_member_ok:
  assumes "bitmap_ok bm" "remove_member bm b = Inr bm'"
  shows "bitmap_ok bm'" "b \<le> ZOMBIE_BUCKET" "\<And>k. k \<le> ZOMBIE_BUCKET \<Longrightarrow> tally bm' k + (if k = b then 1 else 0) = tally bm k"
proof -
  have len: "length (bm_counts bm) = 256" by (rule bitmap_ok_length [OF assms(1)])
  consider "b = ZOMBIE_BUCKET" "0 < bm_zombie_count bm" "bm' = bm\<lparr> bm_zombie_count := bm_zombie_count bm - 1 \<rparr>"
    | ws where "b < 256" "0 < bm_counts bm ! b"
      "(if bm_counts bm ! b - 1 = 0 then bm_clear (bm_words bm) b else Inr (bm_words bm)) = (Inr ws :: fusd_error failure + _)"
      "bm' = bm\<lparr> bm_words := ws, bm_counts := (bm_counts bm)[b := bm_counts bm ! b - 1] \<rparr>"
  proof (cases "b = ZOMBIE_BUCKET")
    case True
    then show ?thesis using assms(2) that(1) by (auto simp: remove_member_def res_simps num_simps)
  next
    case False
    then have "\<exists>ws. b < 256 \<and> 1 \<le> bm_counts bm ! b \<and>
        (if bm_counts bm ! b - 1 = 0 then bm_clear (bm_words bm) b else Inr (bm_words bm)) = (Inr ws :: fusd_error failure + _) \<and>
        bm' = bm\<lparr> bm_words := ws, bm_counts := (bm_counts bm)[b := bm_counts bm ! b - 1] \<rparr>"
      using assms(2) len unfolding remove_member_def
      by (simp only: if_False res_simps num_simps) (elim exE conjE, simp)
    then show ?thesis using that(2) by auto
  qed
  note c = this
  show "b \<le> ZOMBIE_BUCKET" using c by cases (auto simp: ZOMBIE_BUCKET_eq)
  show "tally bm' k + (if k = b then 1 else 0) = tally bm k" if "k \<le> ZOMBIE_BUCKET" for k
    using c by cases (use that len in \<open>auto simp: tally_def nth_list_update ZOMBIE_BUCKET_eq\<close>)
  show "bitmap_ok bm'"
    using c
  proof cases
    case 1
    then show ?thesis using assms(1) by (simp add: bitmap_ok_def)
  next
    case 2
    have cap: "b < num_buckets (bm_words bm)" using assms(1) 2(1) by (simp add: bitmap_ok_def ZOMBIE_BUCKET_eq)
    show ?thesis
    proof (cases "bm_counts bm ! b - 1 = 0")
      case True
      then have s: "bm_clear (bm_words bm) b = (Inr ws :: fusd_error failure + _)" using 2(3) by simp
      then have "num_buckets ws = num_buckets (bm_words bm)" by (auto simp: bm_clear_def Let_def num_buckets_def split: if_splits)
      then show ?thesis
        using assms(1) bitmap.coupled_del [OF _ cap s, of "bm_counts bm"] 2(4) True by (simp add: bitmap_ok_def)
    next
      case False
      then show ?thesis
        using assms(1) bitmap.coupled_same [OF _ cap, of "bm_counts bm" "bm_counts bm ! b - 1"] 2
        by (simp add: bitmap_ok_def)
    qed
  qed
qed

lemma bucket_target_le: "bucket_target m p = Inr (Some b) \<Longrightarrow> b \<le> ZOMBIE_BUCKET"
  by (auto simp: bucket_target_def bucket_for_def res_simps ZOMBIE_BUCKET_eq split: if_splits)

lemma bucket_target_None: "bucket_target m p = Inr None \<longleftrightarrow> p_recorded_debt p = 0"
  by (auto simp: bucket_target_def res_simps)

text \<open>
  Reconciling moves one member from the bucket of the old debt to the bucket of the new debt and
  keeps bitmap and counts coupled.
\<close>

lemma reconcile_Inr:
  assumes "reconcile bm m p old = Inr (bm', p')" "bitmap_ok bm"
  obtains b where "bitmap_ok bm'" "p' = p\<lparr> p_bucket := b \<rparr>"
    "bucket_target m p = Inr (member_of (p_recorded_debt p) p')"
    "\<And>k. k \<le> ZOMBIE_BUCKET \<Longrightarrow> tally bm' k + (if member_of old p = Some k then 1 else 0) =
          tally bm k + (if member_of (p_recorded_debt p) p' = Some k then 1 else 0)"
proof -
  obtain t where t: "bucket_target m p = Inr t" using assms(1) by (auto simp: reconcile_def res_simps)
  consider "old = 0" "t = None" | new where "old = 0" "t = Some new" | "0 < old" "t = None"
    | new where "0 < old" "t = Some new" "p_bucket p \<noteq> new" | "0 < old" "t = Some (p_bucket p)"
    by (cases t) auto
  then show ?thesis
  proof cases
    case 1
    then show ?thesis
      using assms t that [of "p_bucket p"] by (simp add: reconcile_def member_of_def bucket_target_None)
  next
    case (2 new)
    then obtain bm1 where "add_member bm new = Inr bm1" "bm' = bm1" "p' = p\<lparr> p_bucket := new \<rparr>"
      using assms(1) t by (auto simp: reconcile_def res_simps)
    moreover have "0 < p_recorded_debt p" using t 2 bucket_target_None [of m p] by (cases "p_recorded_debt p") auto
    ultimately show ?thesis
      using that [of new] add_member_ok [OF assms(2)] t 2 by (simp add: member_of_def)
  next
    case 3
    then have "remove_member bm (p_bucket p) = Inr bm'" "p' = p"
      using assms(1) t by (auto simp: reconcile_def res_simps)
    moreover have "p_recorded_debt p = 0" using t 3 by (simp add: bucket_target_None)
    ultimately show ?thesis
      using that [of "p_bucket p"] remove_member_ok [OF assms(2), of "p_bucket p" bm'] t 3
      by (simp add: member_of_def eq_commute [of _ "p_bucket p"])
  next
    case (4 new)
    then obtain bm1 where r: "remove_member bm (p_bucket p) = Inr bm1" and a: "add_member bm1 new = Inr bm'"
      and p': "p' = p\<lparr> p_bucket := new \<rparr>"
      using assms(1) t by (auto simp: reconcile_def res_simps)
    have d: "0 < p_recorded_debt p" using t 4 bucket_target_None [of m p] by (cases "p_recorded_debt p") auto
    note r = remove_member_ok [OF assms(2) r]
    note a = add_member_ok [OF r(1) a]
    show ?thesis
    proof (rule that [of new])
      fix k assume k: "k \<le> ZOMBIE_BUCKET"
      show "tally bm' k + (if member_of old p = Some k then 1 else 0) =
          tally bm k + (if member_of (p_recorded_debt p) p' = Some k then 1 else 0)"
        using r(3) [OF k] a(3) [OF k] 4 d by (auto simp: member_of_def p')
    qed (use a p' t 4 d in \<open>simp_all add: member_of_def\<close>)
  next
    case 5
    then have "bm' = bm" "p' = p" using assms(1) t by (auto simp: reconcile_def res_simps)
    moreover have "0 < p_recorded_debt p" using t 5 bucket_target_None [of m p] by (cases "p_recorded_debt p") auto
    ultimately show ?thesis using that [of "p_bucket p"] assms(2) t 5 by (simp add: member_of_def)
  qed
qed

text \<open>
  C20. Reconciling the bucket of a position keeps the bitmap and the member counts coupled (a bit is set
  exactly for a bucket with a member), moves exactly one membership from the position's old bucket
  to its target bucket, and leaves every other field of the position alone.
\<close>

theorem reconcile_moves_one_member:
  assumes "reconcile bm m p old = Inr (bm', p')" "bitmap_ok bm"
  shows "bitmap_ok bm' \<and> (\<exists>b. p' = p\<lparr> p_bucket := b \<rparr>) \<and>
    bucket_target m p = Inr (member_of (p_recorded_debt p) p') \<and>
    (\<forall>k \<le> ZOMBIE_BUCKET. tally bm' k + (if member_of old p = Some k then 1 else 0) =
          tally bm k + (if member_of (p_recorded_debt p) p' = Some k then 1 else 0)) \<and>
    (\<forall>b. first_set (bm_words bm') = Some b \<longrightarrow> 0 < bm_counts bm' ! b \<and> (\<forall>c < b. bm_counts bm' ! c = 0))"
proof (rule reconcile_Inr [OF assms])
  fix b
  assume *: "bitmap_ok bm'" "p' = p\<lparr> p_bucket := b \<rparr>" "bucket_target m p = Inr (member_of (p_recorded_debt p) p')"
    "\<And>k. k \<le> ZOMBIE_BUCKET \<Longrightarrow> tally bm' k + (if member_of old p = Some k then 1 else 0) =
          tally bm k + (if member_of (p_recorded_debt p) p' = Some k then 1 else 0)"
  then have "bitmap.coupled (bm_words bm') (bm_counts bm')" by (simp add: bitmap_ok_def)
  then show ?thesis using * bitmap.coupled_low by blast
qed

text \<open>A market and a position for evaluation.\<close>

definition market0 :: market where
  "market0 = \<lparr> m_collateral_mint = 1, m_collateral_vault = 2, m_agg_recorded_debt = 0, m_agg_weighted_debt_sum = 0,
     m_unminted_interest = 0, m_last_update_ts = 0, m_spot = 0, m_spot_updated_slot = 0, m_debt_spot = 0,
     m_mcr_bps = 11000, m_debt_ceiling = 1000000000000, m_collateral_decimals = 9, m_l_coll = 0, m_l_art = 0,
     m_last_coll_redist_error = 0, m_last_art_redist_error = 0, m_total_stakes = 0, m_total_collateral = 0,
     m_total_stakes_snapshot = 0, m_total_collateral_snapshot = 0, m_reserve_lamports = 20000000,
     m_liq_gas_comp_bps = 50, m_liq_bonus_bps = 1000, m_total_coll_surplus = 0, m_bucket_width_bps = 10,
     m_redemption_fee_bps = 50, m_surplus_collateral = 0, m_mint_frozen = False, m_guardian_paused_until = 0,
     m_shutdown = False, m_scr_bps = 11000, m_rl_cap = 0, m_rl_accrued = 0, m_rl_last_update = 0, m_ccr_bps = 0,
     m_liq_grace_until = 0, m_liq_divergence_until = 0, m_bad_debt = 0, m_shutdown_reason = 0, m_min_debt = 0,
     m_rate_adjust_cooldown_secs = 0, m_keeper_reward_bps = 0, m_borrow_fee_bps = 0, m_bad_debt_paydown_bps = 0,
     m_redemption_base_rate = 0, m_redemption_base_rate_ts = 0, m_redemption_base_rate_max_bps = 0,
     m_protocol_collateral = 0, m_global_contributed = 0, m_global_drawn = 0, m_liq_infra_flags = 7 \<rparr>"

definition position0 :: position where
  "position0 = \<lparr> p_owner = 5, p_collateral_mint = 1, p_ink = 0, p_recorded_debt = 0, p_user_rate_bps = 500,
     p_last_debt_update = 0, p_stake = 0, p_redist_l_coll_snapshot = 0, p_redist_l_art_snapshot = 0,
     p_reserve_lamports = 20000000, p_bucket = 0, p_coll_surplus = 0, p_last_rate_adjust_ts = 0, p_ink_nonce = 0 \<rparr>"

definition bitmap0 :: redemption_bitmap where
  "bitmap0 = \<lparr> bm_words = replicate 4 0, bm_counts = replicate 256 0, bm_zombie_count = 0 \<rparr>"

lemma members_zero: "members (replicate n 0) = {}"
  by (auto simp: members_bit)

lemma bitmap0_ok: "bitmap_ok bitmap0"
  by (auto simp: bitmap_ok_def bitmap0_def bitmap.coupled_def num_buckets_def members_zero ZOMBIE_BUCKET_eq)

theorem reconcile_moves_one_member_witness:
  "\<exists>bm' p'. reconcile bitmap0 market0 (position0\<lparr> p_ink := 9, p_recorded_debt := 700 \<rparr>) 0 = Inr (bm', p') \<and>
     bitmap_ok bitmap0 \<and> bitmap_ok bm' \<and> p_bucket p' = 50 \<and> tally bm' 50 = 1"
proof -
  let ?p = "position0\<lparr> p_ink := 9, p_recorded_debt := 700 \<rparr>"
  have t: "bucket_target market0 ?p = Inr (Some 50)"
    by (simp add: bucket_target_def bucket_for_def bucket_of_def sub_or_panic_def checked_sub_def
        market0_def position0_def NUM_RATE_BUCKETS_def)
  obtain ws where "bm_set (replicate 4 0) 50 = (Inr ws :: fusd_error failure + _)"
    using bm_set_members [of 50 "replicate 4 0"] by (auto simp: num_buckets_def)
  then obtain bm' p' where r: "reconcile bitmap0 market0 ?p 0 = Inr (bm', p')" and p': "p_bucket p' = 50"
    using t by (simp add: reconcile_def add_member_def bitmap0_def ZOMBIE_BUCKET_eq checked_add_def)
  have "tally bm' 50 = tally bitmap0 50 + 1"
    using reconcile_moves_one_member [OF r bitmap0_ok] p'
    by (auto simp: member_of_def position0_def ZOMBIE_BUCKET_eq dest!: spec [of _ 50])
  moreover have "tally bitmap0 50 = 0" by (simp add: tally_def bitmap0_def ZOMBIE_BUCKET_eq)
  ultimately show ?thesis using r p' reconcile_moves_one_member [OF r bitmap0_ok] bitmap0_ok by auto
qed

end
