(* ===== verification/Cdp_Math.thy ===== *)
theory Cdp_Math
  imports Fixed_Point
begin

text \<open>
  Health, liquidation sizing and the issuance rate limiter,
  \<^verbatim>\<open>programs/fusd-core/src/cdp.rs\<close>.
\<close>

definition BPS :: nat where "BPS = 10000"

definition collateral_value :: "nat \<Rightarrow> nat \<Rightarrow> nat option" where
  "collateral_value ink spot = ray_mul ink spot"

definition max_debt :: "nat \<Rightarrow> nat \<Rightarrow> nat option" where
  "max_debt value mcr_bps = (if mcr_bps = 0 then None else mul_div_floor value BPS mcr_bps)"

definition seize_collateral :: "nat \<Rightarrow> nat \<Rightarrow> nat \<Rightarrow> nat \<Rightarrow> (nat \<times> nat) option" where
  "seize_collateral ink debt spot bonus_bps =
     (if bonus_bps = 0 then Some (ink, 0)
      else (case mul_div_ceil debt (BPS + bonus_bps) BPS of None \<Rightarrow> None | Some seize_value \<Rightarrow>
           (case mul_div_ceil seize_value RAY spot of None \<Rightarrow> None | Some c \<Rightarrow>
            let seize_coll = min c ink in Some (seize_coll, ink - seize_coll))))"

definition is_healthy :: "nat \<Rightarrow> nat \<Rightarrow> nat \<Rightarrow> nat \<Rightarrow> bool" where
  "is_healthy ink recorded_debt spot mcr_bps =
     (case collateral_value ink spot of
        None \<Rightarrow> False
      | Some value \<Rightarrow> (case max_debt value mcr_bps of None \<Rightarrow> False | Some m \<Rightarrow> recorded_debt \<le> m))"

definition tcr_below :: "nat \<Rightarrow> nat \<Rightarrow> nat \<Rightarrow> nat \<Rightarrow> bool" where
  "tcr_below total_collateral agg_recorded_debt spot ratio_bps =
     (if agg_recorded_debt = 0 then False
      else (case ray_mul total_collateral spot of
              None \<Rightarrow> False
            | Some value \<Rightarrow> (case max_debt value ratio_bps of None \<Rightarrow> False | Some m \<Rightarrow> agg_recorded_debt > m)))"

definition ratelimit_decayed :: "nat \<Rightarrow> int \<Rightarrow> int \<Rightarrow> nat \<Rightarrow> int \<Rightarrow> nat" where
  "ratelimit_decayed accrued last_update now cap window_secs =
     (if window_secs \<le> 0 then accrued
      else (let elapsed = nat (max (i64_sat (now - last_update)) 0);
                restored = min (cap * elapsed) (2 ^ 128 - 1) div nat window_secs
            in accrued - min restored (2 ^ 64 - 1)))"

definition ratelimit_consume :: "nat \<Rightarrow> int \<Rightarrow> int \<Rightarrow> nat \<Rightarrow> int \<Rightarrow> nat \<Rightarrow> nat option" where
  "ratelimit_consume accrued last_update now cap window_secs outflow =
     (case checked_add 64 (ratelimit_decayed accrued last_update now cap window_secs) outflow of
        None \<Rightarrow> None
      | Some next \<Rightarrow> if next > cap then None else Some next)"

definition ratelimit_restore :: "nat \<Rightarrow> int \<Rightarrow> int \<Rightarrow> nat \<Rightarrow> int \<Rightarrow> nat \<Rightarrow> nat" where
  "ratelimit_restore accrued last_update now cap window_secs inflow =
     ratelimit_decayed accrued last_update now cap window_secs - inflow"

subsection \<open>Functional behaviour\<close>

lemma BPS_pos [simp]: "0 < BPS" "BPS \<noteq> 0" by (simp_all add: BPS_def)

lemma is_healthy_iff:
  assumes "ink < 2 ^ 64" "spot < 2 ^ 128" "ink * spot div RAY * BPS div mcr < 2 ^ 128" "ink * spot div RAY < 2 ^ 128"
    and "0 < mcr" "mcr < 2 ^ 16"
  shows "is_healthy ink debt spot mcr \<longleftrightarrow> debt * mcr \<le> ink * spot div RAY * BPS"
proof -
  have u: "is_u128 ink" "is_u128 spot" "is_u128 RAY" "is_u128 BPS" "is_u128 mcr" "is_u128 (ink * spot div RAY)"
    using assms by (auto simp: is_u128_def RAY_def BPS_def)
  have "collateral_value ink spot = Some (ink * spot div RAY)"
    using u assms(4) by (simp add: collateral_value_def ray_mul_def num_simps)
  moreover have "max_debt (ink * spot div RAY) mcr = Some (ink * spot div RAY * BPS div mcr)"
    using u assms(3,5) by (simp add: max_debt_def num_simps)
  moreover have "debt \<le> ink * spot div RAY * BPS div mcr \<longleftrightarrow> debt * mcr \<le> ink * spot div RAY * BPS"
    using assms(5) by (simp add: less_eq_div_iff_mult_less_eq)
  ultimately show ?thesis by (simp add: is_healthy_def)
qed

text \<open>A healthy position is covered at the minimum ratio by its collateral at that price.\<close>

lemma is_healthy_covers:
  assumes "is_healthy ink debt spot mcr"
  shows "debt * mcr * RAY \<le> ink * spot * BPS" "0 < mcr"
proof -
  obtain v m where v: "collateral_value ink spot = Some v" "max_debt v mcr = Some m" "debt \<le> m"
    using assms by (auto simp: is_healthy_def split: option.splits)
  then have mcr: "0 < mcr" and m: "m * mcr \<le> v * BPS" and r: "v * RAY \<le> ink * spot"
    by (auto simp: max_debt_def collateral_value_def ray_mul_def split: if_splits dest: mul_div_floor_le)
  have "debt * mcr * RAY \<le> m * mcr * RAY" using v(3) by simp
  also have "\<dots> \<le> v * BPS * RAY" using m by simp
  also have "\<dots> \<le> ink * spot * BPS" using r by (simp add: mult.commute mult.left_commute)
  finally show "debt * mcr * RAY \<le> ink * spot * BPS" .
  show "0 < mcr" by (rule mcr)
qed

lemma not_tcr_below_covers:
  assumes "\<not> tcr_below coll agg spot ratio" "ray_mul coll spot = Some v" "max_debt v ratio = Some m"
  shows "agg * ratio * RAY \<le> coll * spot * BPS"
proof (cases "agg = 0")
  case False
  then have "agg \<le> m" using assms by (simp add: tcr_below_def)
  moreover have "m * ratio \<le> v * BPS" "v * RAY \<le> coll * spot"
    using assms(2,3) by (auto simp: max_debt_def ray_mul_def split: if_splits dest: mul_div_floor_le)
  ultimately have "agg * ratio * RAY \<le> v * BPS * RAY" by (meson le_trans mult_le_mono1)
  also have "\<dots> \<le> coll * spot * BPS" using \<open>v * RAY \<le> coll * spot\<close> by (simp add: mult.commute mult.left_commute)
  finally show ?thesis .
qed simp

lemma seize_collateral_split:
  assumes "seize_collateral ink debt spot bonus = Some (s, r)"
  shows "s + r = ink"
  using assms by (auto simp: seize_collateral_def Let_def split: if_splits option.splits)

lemma seize_collateral_collar:
  assumes "seize_collateral ink debt spot bonus = Some (s, r)" "0 < bonus"
  shows "s < ink \<Longrightarrow> debt * (BPS + bonus) * RAY \<le> s * spot * BPS"
    and "0 < s \<Longrightarrow> (s - 1) * spot * BPS < (debt * (BPS + bonus) + BPS) * RAY"
proof -
  obtain v c where v: "mul_div_ceil debt (BPS + bonus) BPS = Some v" "mul_div_ceil v RAY spot = Some c"
    and s: "s = min c ink"
    using assms by (auto simp: seize_collateral_def Let_def split: if_splits option.splits)
  have v': "debt * (BPS + bonus) \<le> v * BPS" "v * BPS < debt * (BPS + bonus) + BPS"
    using v(1) cdiv_bounds [of BPS "debt * (BPS + bonus)"] by (auto simp: num_simps)
  have c': "v * RAY \<le> c * spot" "c * spot < v * RAY + spot"
    using v(2) cdiv_bounds [of spot "v * RAY"] by (auto simp: num_simps)
  show "debt * (BPS + bonus) * RAY \<le> s * spot * BPS" if "s < ink"
  proof -
    have "debt * (BPS + bonus) * RAY \<le> v * BPS * RAY" using v'(1) by simp
    also have "\<dots> \<le> c * spot * BPS" using c'(1) by (simp add: mult.commute mult.left_commute)
    also have "c = s" using s that by (simp add: min_def split: if_splits)
    finally show ?thesis .
  qed
  show "(s - 1) * spot * BPS < (debt * (BPS + bonus) + BPS) * RAY" if "0 < s"
  proof -
    have "(s - 1) * spot + spot \<le> c * spot"
      using s that by (metis Suc_pred' add.commute min.cobounded1 mult_Suc mult_le_mono1)
    then have "(s - 1) * spot < v * RAY" using c'(2) by linarith
    then have "(s - 1) * spot * BPS < v * RAY * BPS" by simp
    also have "\<dots> = v * BPS * RAY" by simp
    also have "\<dots> < (debt * (BPS + bonus) + BPS) * RAY" using v'(2) by simp
    finally show ?thesis .
  qed
qed

lemma ratelimit_decayed_le: "ratelimit_decayed a l n c w \<le> a"
  by (simp add: ratelimit_decayed_def Let_def)

lemma ratelimit_consume_Some:
  "ratelimit_consume a l n c w out = Some x \<longleftrightarrow>
     x = ratelimit_decayed a l n c w + out \<and> x \<le> c \<and> x < 2 ^ 64"
  by (auto simp: ratelimit_consume_def checked_add_def not_less)

lemma ratelimit_decayed_eq:
  assumes "cap < 2 ^ 64" "a < 2 ^ 64" "0 < w" "l \<le> n" "n - l < 2 ^ 63"
  shows "ratelimit_decayed a l n cap w = a - cap * nat (n - l) div nat w"
proof -
  have "nat (n - l) < 2 ^ 63" using assms(4,5) by (simp add: nat_less_iff)
  then have "cap * nat (n - l) < 2 ^ 64 * 2 ^ 63" using assms(1) by (intro mult_strict_mono) simp_all
  then have "min (cap * nat (n - l)) (2 ^ 128 - 1) = cap * nat (n - l)" by simp
  moreover have "i64_sat (n - l) = n - l" using assms(4,5) by (simp add: i64_sat_def)
  moreover have "a - min k (2 ^ 64 - 1) = a - k" for k using assms(2) by (simp add: min_def)
  ultimately show ?thesis using assms(3,4) by (simp add: ratelimit_decayed_def Let_def)
qed

lemma ratelimit_decayed_ge:
  assumes "0 < w"
  shows "a \<le> ratelimit_decayed a l n cap w + cap * nat (n - l) div nat w"
proof -
  define e where "e = nat (max (i64_sat (n - l)) 0)"
  define r where "r = min (cap * e) (2 ^ 128 - 1) div nat w"
  have "max (i64_sat x) 0 \<le> int (nat x)" for x by (auto simp: i64_sat_def)
  then have "e \<le> nat (n - l)" unfolding e_def nat_le_iff .
  then have "r \<le> cap * nat (n - l) div nat w"
    unfolding r_def by (intro div_le_mono order_trans [OF min.cobounded1] mult_le_mono2)
  moreover have "ratelimit_decayed a l n cap w = a - min r (2 ^ 64 - 1)"
    unfolding ratelimit_decayed_def Let_def e_def r_def using assms by (intro if_not_P) simp
  ultimately show ?thesis by linarith
qed

text \<open>
  A run of the limiter: issuances (\<open>Inl\<close>) and repayments (\<open>Inr\<close>) at given times, each storing the new level
  and its time; a refused issuance ends the run.
\<close>

fun ratelimit_run :: "nat \<Rightarrow> int \<Rightarrow> nat \<Rightarrow> int \<Rightarrow> (int \<times> (nat + nat)) list \<Rightarrow> (nat \<times> int) option" where
  "ratelimit_run cap w a l [] = Some (a, l)"
| "ratelimit_run cap w a l ((t, Inl out) # es) =
     (case ratelimit_consume a l t cap w out of None \<Rightarrow> None | Some a' \<Rightarrow> ratelimit_run cap w a' t es)"
| "ratelimit_run cap w a l ((t, Inr inflow) # es) = ratelimit_run cap w (ratelimit_restore a l t cap w inflow) t es"

definition issued :: "(int \<times> (nat + nat)) list \<Rightarrow> nat" where
  "issued es = sum_list (map (\<lambda>e. case snd e of Inl out \<Rightarrow> out | Inr _ \<Rightarrow> 0) es)"

definition repaid :: "(int \<times> (nat + nat)) list \<Rightarrow> nat" where
  "repaid es = sum_list (map (\<lambda>e. case snd e of Inl _ \<Rightarrow> 0 | Inr inflow \<Rightarrow> inflow) es)"

lemma issued_simps [simp]:
  "issued [] = 0" "issued ((t, Inl out) # es) = out + issued es" "issued ((t, Inr inflow) # es) = issued es"
  "repaid [] = 0" "repaid ((t, Inl out) # es) = repaid es" "repaid ((t, Inr inflow) # es) = inflow + repaid es"
  by (simp_all add: issued_def repaid_def)

lemma leak_add:
  assumes "l \<le> (t::int)" "t \<le> l'"
  shows "cap * nat (t - l) div k + cap * nat (l' - t) div k \<le> cap * nat (l' - l) div (k::nat)"
proof -
  have "nat (l' - l) = nat (t - l) + nat (l' - t)" using assms by simp
  then show ?thesis by (simp only: distrib_left) (metis div_add1_eq le_add1)
qed

lemma ratelimit_run_mono:
  "ratelimit_run cap w a l es = Some (a', l') \<Longrightarrow> sorted (l # map fst es) \<Longrightarrow> l \<le> l'"
  by (induction cap w a l es rule: ratelimit_run.induct) (auto split: option.splits)

lemma ratelimit_run_level:
  "0 < w \<Longrightarrow> ratelimit_run cap w a l es = Some (a', l') \<Longrightarrow> sorted (l # map fst es) \<Longrightarrow>
    issued es + a \<le> a' + repaid es + cap * nat (l' - l) div nat w \<and> (a \<le> cap \<longrightarrow> a' \<le> cap)"
proof (induction cap w a l es rule: ratelimit_run.induct)
  case (2 cap w a l t out es)
  then obtain x where x: "ratelimit_consume a l t cap w out = Some x" and run: "ratelimit_run cap w x t es = Some (a', l')"
    by (auto split: option.splits)
  have x': "x = ratelimit_decayed a l t cap w + out" "x \<le> cap" using x by (auto simp: ratelimit_consume_Some)
  have ord: "l \<le> t" "sorted (t # map fst es)" using "2.prems" by auto
  note IH = "2.IH" [OF x "2.prems"(1) run ord(2)]
  have "cap * nat (t - l) div nat w + cap * nat (l' - t) div nat w \<le> cap * nat (l' - l) div nat w"
    using ord(1) ratelimit_run_mono [OF run ord(2)] by (rule leak_add)
  then show ?case using IH x' ratelimit_decayed_ge [OF "2.prems"(1), of a l t cap] by simp
next
  case (3 cap w a l t inflow es)
  have ord: "l \<le> t" "sorted (t # map fst es)" using "3.prems" by auto
  have run: "ratelimit_run cap w (ratelimit_restore a l t cap w inflow) t es = Some (a', l')" using "3.prems" by simp
  note IH = "3.IH" [OF "3.prems"(1) run ord(2)]
  have "cap * nat (t - l) div nat w + cap * nat (l' - t) div nat w \<le> cap * nat (l' - l) div nat w"
    using ord(1) ratelimit_run_mono [OF run ord(2)] by (rule leak_add)
  then show ?case using IH ratelimit_decayed_ge [OF "3.prems"(1), of a l t cap] ratelimit_decayed_le [of a l t cap w]
    unfolding ratelimit_restore_def issued_simps by linarith
qed simp

lemma ratelimit_recovers:
  assumes "cap < 2 ^ 64" "a \<le> cap" "0 < w" "n - l < 2 ^ 63" "w \<le> n - l"
  shows "ratelimit_decayed a l n cap w = 0"
proof -
  have "nat w \<le> nat (n - l)" "0 < nat w" using assms(3,5) by simp_all
  then have "cap \<le> cap * nat (n - l) div nat w"
    using div_le_mono [OF mult_le_mono2 [of "nat w" "nat (n - l)" cap], of "nat w"] by simp
  moreover have "ratelimit_decayed a l n cap w = a - cap * nat (n - l) div nat w"
    using assms by (intro ratelimit_decayed_eq) simp_all
  ultimately show ?thesis using assms(2) by simp
qed

text \<open>
  C18. A partial seizure takes collateral worth at least the debt plus the liquidation bonus and less
  than one unit of each rounding more, and seized and returned collateral always add up to the
  collateral of the position; with the bonus collar off everything is seized.
\<close>

theorem seize_collateral_bounds:
  assumes "seize_collateral ink debt spot bonus = Some (s, r)"
  shows "s + r = ink \<and> (bonus = 0 \<longrightarrow> s = ink) \<and>
    (0 < bonus \<and> 0 < r \<longrightarrow> debt * (BPS + bonus) * RAY \<le> s * spot * BPS) \<and>
    (0 < bonus \<and> 0 < s \<longrightarrow> (s - 1) * spot * BPS < (debt * (BPS + bonus) + BPS) * RAY)"
proof -
  have "0 < r \<longleftrightarrow> s < ink" using seize_collateral_split [OF assms] by linarith
  moreover have "bonus = 0 \<longrightarrow> s = ink" using assms by (auto simp: seize_collateral_def)
  ultimately show ?thesis
    using seize_collateral_split [OF assms] seize_collateral_collar [OF assms] by simp
qed

theorem seize_collateral_bounds_witness:
  "seize_collateral 1000 1000000 (2000 * RAY) 1000 = Some (550, 450) \<and>
   1000000 * (BPS + 1000) * RAY \<le> 550 * (2000 * RAY) * BPS"
proof -
  have r: "seize_collateral 1000 1000000 (2000 * RAY) 1000 = Some (550, 450)"
    by (simp add: seize_collateral_def mul_div_ceil_def wide_mul_div_eq is_u128_def RAY_def BPS_def)
  show ?thesis using r seize_collateral_bounds [OF r] by simp
qed

text \<open>
  C19. The level of the rate limiter leaks linearly, by the cap per window and rounded down: an issuance
  succeeds exactly when the leaked level plus the issuance is within the cap, and stores that sum; a
  repayment lowers the leaked level by the amount repaid, down to zero. A level within the cap leaks
  away in one window, after which the whole cap can be issued again. Over every admitted sequence of
  issuances and repayments, in order of time, the total issued is at most the cap, plus what was repaid,
  plus the cap for each window that went by.
\<close>

theorem ratelimit_sound:
  assumes "cap < 2 ^ 64" "a < 2 ^ 64" "0 < w" "l \<le> n" "n - l < 2 ^ 63"
  shows "(ratelimit_consume a l n cap w out = Some x \<longleftrightarrow>
       x = (a - cap * nat (n - l) div nat w) + out \<and> x \<le> cap) \<and>
    ratelimit_restore a l n cap w inflow = (a - cap * nat (n - l) div nat w) - inflow \<and>
    (a \<le> cap \<and> w \<le> n - l \<longrightarrow> ratelimit_consume a l n cap w cap = Some cap) \<and>
    (\<forall>es a' l'. ratelimit_run cap w a l es = Some (a', l') \<and> a \<le> cap \<and> sorted (l # map fst es) \<longrightarrow>
       issued es \<le> cap + repaid es + cap * nat (l' - l) div nat w)"
proof (intro conjI allI impI)
  show "ratelimit_consume a l n cap w out = Some x \<longleftrightarrow> x = (a - cap * nat (n - l) div nat w) + out \<and> x \<le> cap"
    using assms(1) by (auto simp: ratelimit_consume_Some ratelimit_decayed_eq [OF assms])
  show "ratelimit_restore a l n cap w inflow = (a - cap * nat (n - l) div nat w) - inflow"
    by (simp add: ratelimit_restore_def ratelimit_decayed_eq [OF assms])
  show "ratelimit_consume a l n cap w cap = Some cap" if "a \<le> cap \<and> w \<le> n - l"
    using that ratelimit_recovers [of cap a w n l] assms by (simp add: ratelimit_consume_Some)
  show "issued es \<le> cap + repaid es + cap * nat (l' - l) div nat w"
    if "ratelimit_run cap w a l es = Some (a', l') \<and> a \<le> cap \<and> sorted (l # map fst es)" for es a' l'
    using that ratelimit_run_level [OF assms(3), of cap a l es a' l'] by linarith
qed

theorem ratelimit_sound_witness:
  "ratelimit_consume 900 0 43200 1000 86400 500 = Some 900 \<and>
   ratelimit_consume 900 0 43200 1000 86400 601 = None \<and>
   ratelimit_restore 900 0 43200 1000 86400 100 = 300 \<and>
   ratelimit_consume 900 0 86400 1000 86400 1000 = Some 1000 \<and>
   ratelimit_run 1000 86400 900 0 [(43200, Inl 500), (43200, Inr 200), (86400, Inl 800)] = Some (1000, 86400) \<and>
   (1300::nat) \<le> 1000 + 200 + 1000 * 86400 div 86400"
proof -
  have run: "ratelimit_run 1000 86400 900 0 [(43200, Inl 500), (43200, Inr 200), (86400, Inl 800)] = Some (1000, 86400)"
    by (simp add: ratelimit_consume_def ratelimit_restore_def ratelimit_decayed_def i64_sat_def checked_add_def)
  have "issued [(43200, Inl 500), (43200, Inr 200), (86400, Inl 800)]
      \<le> 1000 + repaid [(43200, Inl 500), (43200, Inr 200), (86400, Inl 800)] + 1000 * nat (86400 - 0) div nat 86400"
    using ratelimit_sound [where cap = 1000 and a = 900 and w = 86400 and l = 0 and n = 0,
        THEN conjunct2, THEN conjunct2, THEN conjunct2, rule_format, OF _ _ _ _ _ conjI [OF run]]
    by (simp del: ratelimit_run.simps)
  then have "(1300::nat) \<le> 1000 + 200 + 1000 * 86400 div 86400" by simp
  moreover have "ratelimit_consume 900 0 43200 1000 86400 500 = Some 900"
    using ratelimit_sound [of 1000 900 86400 0 43200 500 900] by simp
  moreover have "ratelimit_consume 900 0 43200 1000 86400 601 \<noteq> Some x" for x
    using ratelimit_sound [of 1000 900 86400 0 43200 601 x] by simp
  moreover have "ratelimit_restore 900 0 43200 1000 86400 100 = 300"
    using ratelimit_sound [of 1000 900 86400 0 43200 0 0 100] by simp
  moreover have "ratelimit_consume 900 0 86400 1000 86400 1000 = Some 1000"
    using ratelimit_sound [of 1000 900 86400 0 86400] by simp
  ultimately show ?thesis using run by (metis option.exhaust)
qed

end
