(* ===== verification/Runtime.thy ===== *)
theory Runtime
  imports Core_State
begin

text \<open>
  What the handlers call outside the program: the SPL token program and the system program. Their
  state and operations are a parameter of every handler. The laws collect their documented
  behaviour: a transfer moves an amount between two accounts of one mint, minting and burning
  change one account and the supply of its mint by the same amount, a new account starts empty, a
  new mint without supply, and none of them touches anything else. An operation that is refused returns \<open>None\<close> and fails the transaction.

  The check that the collateral vault covers the tracked collateral,
  \<^verbatim>\<open>programs/fusd-core/src/reconcile.rs\<close>, is at the end.
\<close>

record clock =
  unix_timestamp :: int
  clock_slot :: nat

record 'l runtime =
  tk_amount :: "'l \<Rightarrow> pubkey \<Rightarrow> nat"
  tk_mint :: "'l \<Rightarrow> pubkey \<Rightarrow> pubkey"
  tk_owner :: "'l \<Rightarrow> pubkey \<Rightarrow> pubkey"
  tk_supply :: "'l \<Rightarrow> pubkey \<Rightarrow> nat"
  tk_transfer :: "'l \<Rightarrow> pubkey \<Rightarrow> pubkey \<Rightarrow> pubkey \<Rightarrow> nat \<Rightarrow> 'l option"
  tk_mint_to :: "'l \<Rightarrow> pubkey \<Rightarrow> pubkey \<Rightarrow> pubkey \<Rightarrow> nat \<Rightarrow> 'l option"
  tk_burn :: "'l \<Rightarrow> pubkey \<Rightarrow> pubkey \<Rightarrow> pubkey \<Rightarrow> nat \<Rightarrow> 'l option"
  sys_transfer :: "'l \<Rightarrow> pubkey \<Rightarrow> pubkey \<Rightarrow> nat \<Rightarrow> 'l option"
  sys_create :: "'l \<Rightarrow> pubkey \<Rightarrow> pubkey \<Rightarrow> 'l option"
  sys_close :: "'l \<Rightarrow> pubkey \<Rightarrow> pubkey \<Rightarrow> 'l"
  lamports_move :: "'l \<Rightarrow> pubkey \<Rightarrow> pubkey \<Rightarrow> nat \<Rightarrow> 'l option"
  tk_freeze_authority :: "'l \<Rightarrow> pubkey \<Rightarrow> pubkey option"
  tk_decimals :: "'l \<Rightarrow> pubkey \<Rightarrow> nat"
  tk_init_account :: "'l \<Rightarrow> pubkey \<Rightarrow> pubkey \<Rightarrow> pubkey \<Rightarrow> pubkey \<Rightarrow> 'l option"
  tk_init_mint :: "'l \<Rightarrow> pubkey \<Rightarrow> pubkey \<Rightarrow> pubkey \<Rightarrow> nat \<Rightarrow> 'l option"

text \<open>Two ledgers agree on everything the token program keeps.\<close>

definition same_tokens :: "'l runtime \<Rightarrow> 'l \<Rightarrow> 'l \<Rightarrow> bool" where
  "same_tokens T l l' \<longleftrightarrow> tk_amount T l' = tk_amount T l \<and> tk_mint T l' = tk_mint T l \<and>
     tk_owner T l' = tk_owner T l \<and> tk_supply T l' = tk_supply T l"

definition token_laws :: "'l runtime \<Rightarrow> bool" where
  "token_laws T \<longleftrightarrow>
     (\<forall>l a b auth n l'. tk_transfer T l a b auth n = Some l' \<longrightarrow>
        n \<le> tk_amount T l a \<and> tk_mint T l a = tk_mint T l b \<and>
        tk_amount T l' = (if a = b then tk_amount T l
                          else (tk_amount T l)(a := tk_amount T l a - n, b := tk_amount T l b + n)) \<and>
        tk_mint T l' = tk_mint T l \<and> tk_owner T l' = tk_owner T l \<and> tk_supply T l' = tk_supply T l) \<and>
     (\<forall>l m a auth n l'. tk_mint_to T l m a auth n = Some l' \<longrightarrow>
        tk_mint T l a = m \<and>
        tk_amount T l' = (tk_amount T l)(a := tk_amount T l a + n) \<and>
        tk_mint T l' = tk_mint T l \<and> tk_owner T l' = tk_owner T l \<and>
        tk_supply T l' = (tk_supply T l)(m := tk_supply T l m + n)) \<and>
     (\<forall>l m a auth n l'. tk_burn T l m a auth n = Some l' \<longrightarrow>
        tk_mint T l a = m \<and> n \<le> tk_amount T l a \<and> n \<le> tk_supply T l m \<and>
        tk_amount T l' = (tk_amount T l)(a := tk_amount T l a - n) \<and>
        tk_mint T l' = tk_mint T l \<and> tk_owner T l' = tk_owner T l \<and>
        tk_supply T l' = (tk_supply T l)(m := tk_supply T l m - n)) \<and>
     (\<forall>l a b n l'. sys_transfer T l a b n = Some l' \<longrightarrow> same_tokens T l l') \<and>
     (\<forall>l a b l'. sys_create T l a b = Some l' \<longrightarrow> same_tokens T l l') \<and>
     (\<forall>l a b. same_tokens T l (sys_close T l a b)) \<and>
     (\<forall>l a b n l'. lamports_move T l a b n = Some l' \<longrightarrow> same_tokens T l l') \<and>
     (\<forall>l payer a m own l'. tk_init_account T l payer a m own = Some l' \<longrightarrow>
        tk_amount T l' = (tk_amount T l)(a := 0) \<and> tk_mint T l' = (tk_mint T l)(a := m) \<and>
        tk_owner T l' = (tk_owner T l)(a := own) \<and> tk_supply T l' = tk_supply T l) \<and>
     (\<forall>l payer m auth d l'. tk_init_mint T l payer m auth d = Some l' \<longrightarrow>
        tk_amount T l' = tk_amount T l \<and> tk_mint T l' = tk_mint T l \<and>
        tk_owner T l' = tk_owner T l \<and> tk_supply T l' = (tk_supply T l)(m := 0))"

abbreviation cpi :: "'a option \<Rightarrow> 'a res" where
  "cpi r \<equiv> ok_or r External"

abbreviation constraint :: "bool \<Rightarrow> unit res" where
  "constraint c \<equiv> ensure c Constraint"

lemma transferD:
  assumes "token_laws T" "tk_transfer T l a b auth n = Some l'"
  shows "n \<le> tk_amount T l a" "tk_mint T l a = tk_mint T l b" "tk_mint T l' = tk_mint T l"
    "tk_owner T l' = tk_owner T l" "tk_supply T l' = tk_supply T l"
    "a \<noteq> b \<Longrightarrow> tk_amount T l' a = tk_amount T l a - n"
    "a \<noteq> b \<Longrightarrow> tk_amount T l' b = tk_amount T l b + n"
    "a = b \<Longrightarrow> tk_amount T l' = tk_amount T l"
    "x \<noteq> a \<Longrightarrow> x \<noteq> b \<Longrightarrow> tk_amount T l' x = tk_amount T l x"
  using assms by (auto simp: token_laws_def split: if_splits)

lemma mint_toD:
  assumes "token_laws T" "tk_mint_to T l m a auth n = Some l'"
  shows "tk_mint T l a = m" "tk_mint T l' = tk_mint T l" "tk_owner T l' = tk_owner T l"
    "tk_supply T l' = (tk_supply T l)(m := tk_supply T l m + n)"
    "tk_amount T l' = (tk_amount T l)(a := tk_amount T l a + n)"
  using assms by (auto simp: token_laws_def)

lemma burnD:
  assumes "token_laws T" "tk_burn T l m a auth n = Some l'"
  shows "tk_mint T l a = m" "n \<le> tk_amount T l a" "n \<le> tk_supply T l m" "tk_mint T l' = tk_mint T l"
    "tk_owner T l' = tk_owner T l" "tk_supply T l' = (tk_supply T l)(m := tk_supply T l m - n)"
    "tk_amount T l' = (tk_amount T l)(a := tk_amount T l a - n)"
  using assms by (auto simp: token_laws_def)

lemma init_accountD:
  assumes "token_laws T" "tk_init_account T l payer a m own = Some l'"
  shows "tk_amount T l' = (tk_amount T l)(a := 0)" "tk_mint T l' = (tk_mint T l)(a := m)"
    "tk_owner T l' = (tk_owner T l)(a := own)" "tk_supply T l' = tk_supply T l"
  using assms by (auto simp: token_laws_def)

lemma init_mintD:
  assumes "token_laws T" "tk_init_mint T l payer m auth d = Some l'"
  shows "tk_amount T l' = tk_amount T l" "tk_mint T l' = tk_mint T l" "tk_owner T l' = tk_owner T l"
    "tk_supply T l' = (tk_supply T l)(m := 0)"
  using assms by (auto simp: token_laws_def)

lemma sys_same:
  assumes "token_laws T"
  shows "sys_transfer T l a b n = Some l' \<Longrightarrow> same_tokens T l l'"
    "sys_create T l a b = Some l' \<Longrightarrow> same_tokens T l l'"
    "same_tokens T l (sys_close T l a b)"
    "lamports_move T l a b n = Some l' \<Longrightarrow> same_tokens T l l'"
  using assms by (auto simp: token_laws_def)

subsection \<open>Vault sufficiency\<close>

definition check_sufficiency :: "nat \<Rightarrow> nat \<Rightarrow> nat \<Rightarrow> nat \<Rightarrow> nat \<Rightarrow> unit res" where
  "check_sufficiency vault_amount total_collateral surplus_collateral total_coll_surplus protocol_collateral =
     bindR (math (case checked_add 128 total_collateral surplus_collateral of
                    None \<Rightarrow> None
                  | Some t \<Rightarrow> (case checked_add 128 t total_coll_surplus of
                      None \<Rightarrow> None | Some t \<Rightarrow> checked_add 128 t protocol_collateral))) (\<lambda>tracked.
     require (vault_amount \<ge> tracked) VaultReconciliationFailed)"

definition assert_collateral_vault_sufficiency :: "'l runtime \<Rightarrow> 'l \<Rightarrow> pubkey \<Rightarrow> market \<Rightarrow> unit res" where
  "assert_collateral_vault_sufficiency T l vault m =
     check_sufficiency (tk_amount T l vault) (m_total_collateral m) (m_surplus_collateral m)
       (m_total_coll_surplus m) (m_protocol_collateral m)"

text \<open>The collateral the market owes, by category.\<close>

definition tracked_collateral :: "market \<Rightarrow> nat" where
  "tracked_collateral m =
     m_total_collateral m + m_surplus_collateral m + m_total_coll_surplus m + m_protocol_collateral m"

lemma assert_sufficiency_Inr:
  "assert_collateral_vault_sufficiency T l v m = Inr u \<longleftrightarrow>
     tracked_collateral m \<le> tk_amount T l v \<and> tracked_collateral m < 2 ^ 128"
  by (auto simp: assert_collateral_vault_sufficiency_def check_sufficiency_def tracked_collateral_def
      res_simps num_simps)

subsection \<open>A ledger for evaluation\<close>

record ledger =
  lg_amount :: "pubkey \<Rightarrow> nat"
  lg_mint :: "pubkey \<Rightarrow> pubkey"
  lg_owner :: "pubkey \<Rightarrow> pubkey"
  lg_supply :: "pubkey \<Rightarrow> nat"
  lg_lamports :: "pubkey \<Rightarrow> nat"

definition move_lamports :: "ledger \<Rightarrow> pubkey \<Rightarrow> pubkey \<Rightarrow> nat \<Rightarrow> ledger option" where
  "move_lamports l a b n =
     (if n \<le> lg_lamports l a
      then Some (l\<lparr> lg_lamports := (let f = (lg_lamports l)(a := lg_lamports l a - n) in f(b := f b + n)) \<rparr>) else None)"

definition ledger_runtime :: "ledger runtime" where
  "ledger_runtime = \<lparr>
     tk_amount = lg_amount, tk_mint = lg_mint, tk_owner = lg_owner, tk_supply = lg_supply,
     tk_transfer = (\<lambda>l a b auth n.
       if n \<le> lg_amount l a \<and> lg_mint l a = lg_mint l b \<and> lg_owner l a = auth
       then Some (if a = b then l
                  else l\<lparr> lg_amount := (lg_amount l)(a := lg_amount l a - n, b := lg_amount l b + n) \<rparr>) else None),
     tk_mint_to = (\<lambda>l m a auth n.
       if lg_mint l a = m
       then Some (l\<lparr> lg_amount := (lg_amount l)(a := lg_amount l a + n), lg_supply := (lg_supply l)(m := lg_supply l m + n) \<rparr>)
       else None),
     tk_burn = (\<lambda>l m a auth n.
       if lg_mint l a = m \<and> n \<le> lg_amount l a \<and> n \<le> lg_supply l m \<and> lg_owner l a = auth
       then Some (l\<lparr> lg_amount := (lg_amount l)(a := lg_amount l a - n), lg_supply := (lg_supply l)(m := lg_supply l m - n) \<rparr>)
       else None),
     sys_transfer = move_lamports, sys_create = (\<lambda>l a b. Some l), sys_close = (\<lambda>l a b. l),
     lamports_move = move_lamports,
     tk_freeze_authority = (\<lambda>l m. None), tk_decimals = (\<lambda>l m. 9),
     tk_init_account = (\<lambda>l payer a m own.
       Some (l\<lparr> lg_amount := (lg_amount l)(a := 0), lg_mint := (lg_mint l)(a := m), lg_owner := (lg_owner l)(a := own) \<rparr>)),
     tk_init_mint = (\<lambda>l payer m auth d. Some (l\<lparr> lg_supply := (lg_supply l)(m := 0) \<rparr>)) \<rparr>"

lemma ledger_runtime_laws: "token_laws ledger_runtime"
  by (auto simp: token_laws_def ledger_runtime_def same_tokens_def move_lamports_def fun_eq_iff Let_def
      split: if_splits)

end
