(* ===== verification/Books.thy ===== *)
theory Books
  imports Accrual Buckets Cdp_Math Runtime
begin

text \<open>
  The bookkeeping every handler that touches a position shares: it opens by accruing the market and
  realizing the position and closes by reweighting, staking and reconciling. The lemmas give the
  effect of both halves on the sums the market keeps over its positions, and on the number of
  tokens the market accounts for.
\<close>

subsection \<open>What the market accounts for\<close>

definition weight :: "position \<Rightarrow> nat" where
  "weight p = p_recorded_debt p * p_user_rate_bps p"

text \<open>Tokens in circulation by the market's books: recorded debt, less interest not minted yet, plus bad debt.\<close>

definition booked_supply :: "market \<Rightarrow> int" where
  "booked_supply m = int (m_agg_recorded_debt m) - int (m_unminted_interest m) + int (m_bad_debt m)"

text \<open>
  One operation on a position keeps the books: the sums over positions move with the position, the
  bucket tallies move one membership, and the position keeps its identity and its claim.
\<close>

definition books_step ::
    "market \<Rightarrow> position \<Rightarrow> redemption_bitmap \<Rightarrow> market \<Rightarrow> position \<Rightarrow> redemption_bitmap \<Rightarrow> bool" where
  "books_step m p bm m' p' bm' \<longleftrightarrow>
     m_agg_weighted_debt_sum m' + weight p = m_agg_weighted_debt_sum m + weight p' \<and>
     m_total_stakes m' + p_stake p = m_total_stakes m + p_stake p' \<and>
     bitmap_ok bm' \<and>
     (\<forall>k \<le> ZOMBIE_BUCKET. tally bm' k + (if member_of (p_recorded_debt p) p = Some k then 1 else 0) =
        tally bm k + (if member_of (p_recorded_debt p') p' = Some k then 1 else 0)) \<and>
     p_owner p' = p_owner p \<and> p_collateral_mint p' = p_collateral_mint p"

subsection \<open>Opening and closing\<close>

text \<open>What accruing the market and realizing the position changes.\<close>

lemma position_opened:
  assumes "accrue m now = Inr m1" "realize m1 p now = Inr p1"
  obtains x t where "m1 = m\<lparr> m_agg_recorded_debt := m_agg_recorded_debt m + x,
      m_unminted_interest := m_unminted_interest m + x, m_last_update_ts := t \<rparr>"
    "p_owner p1 = p_owner p" "p_collateral_mint p1 = p_collateral_mint p" "p_user_rate_bps p1 = p_user_rate_bps p"
    "p_stake p1 = p_stake p" "p_reserve_lamports p1 = p_reserve_lamports p" "p_bucket p1 = p_bucket p"
    "p_coll_surplus p1 = p_coll_surplus p" "p_ink p \<le> p_ink p1" "p_recorded_debt p \<le> p_recorded_debt p1"
    "p_redist_l_coll_snapshot p1 = m_l_coll m" "p_redist_l_art_snapshot p1 = m_l_art m"
proof (rule accrue_Inr [OF assms(1)])
  fix x t
  assume m1: "m1 = m\<lparr> m_agg_recorded_debt := m_agg_recorded_debt m + x,
      m_unminted_interest := m_unminted_interest m + x, m_last_update_ts := t \<rparr>"
  show thesis by (rule realize_Inr [OF assms(2)], rule that [OF m1]) (simp_all add: m1)
qed

text \<open>What reweighting and staking change.\<close>

lemma position_closed:
  assumes "reweight m1 q (weight p) = Inr m2" "set_stake m2 q = Inr (m3, q3)"
  obtains w s t where "m3 = m1\<lparr> m_agg_weighted_debt_sum := w, m_total_stakes := t \<rparr>" "q3 = q\<lparr> p_stake := s \<rparr>"
    "w + weight p = m_agg_weighted_debt_sum m1 + weight q" "t + p_stake q = m_total_stakes m1 + s"
    "compute_stake (p_ink q) (m_total_stakes_snapshot m1) (m_total_collateral_snapshot m1) = Inr s"
proof -
  let ?w = "m_agg_weighted_debt_sum m1 + weight q - weight p"
  have m2: "m2 = m1\<lparr> m_agg_weighted_debt_sum := ?w \<rparr>" and le: "weight p \<le> m_agg_weighted_debt_sum m1 + weight q"
    using assms(1) unfolding reweight_Inr weight_def by simp_all
  show thesis
  proof (rule set_stake_Inr [OF assms(2)])
    fix s
    assume s: "m3 = m2\<lparr> m_total_stakes := m_total_stakes m2 - p_stake q + s \<rparr>" "q3 = q\<lparr> p_stake := s \<rparr>"
      "p_stake q \<le> m_total_stakes m2"
      "compute_stake (p_ink q) (m_total_stakes_snapshot m2) (m_total_collateral_snapshot m2) = Inr s"
    show thesis
      by (rule that [where w = ?w and s = s and t = "m_total_stakes m1 - p_stake q + s"])
        (use s m2 le in simp_all)
  qed
qed

text \<open>A closed operation keeps the books.\<close>

lemma books_stepI:
  assumes "bitmap_ok bm" "reconcile bm m' q (p_recorded_debt p) = Inr (bm', p')" "p_bucket q = p_bucket p"
    and "m_agg_weighted_debt_sum m' + weight p = m_agg_weighted_debt_sum m + weight q"
    and "m_total_stakes m' + p_stake p = m_total_stakes m + p_stake q"
    and "p_owner q = p_owner p" "p_collateral_mint q = p_collateral_mint p"
  shows "books_step m p bm m' p' bm'" "p' = q\<lparr> p_bucket := p_bucket p' \<rparr>"
    "bucket_target m' q = Inr (member_of (p_recorded_debt q) p')"
proof -
  obtain b where b: "bitmap_ok bm'" "p' = q\<lparr> p_bucket := b \<rparr>" "bucket_target m' q = Inr (member_of (p_recorded_debt q) p')"
    "\<And>k. k \<le> ZOMBIE_BUCKET \<Longrightarrow> tally bm' k + (if member_of (p_recorded_debt p) q = Some k then 1 else 0) =
          tally bm k + (if member_of (p_recorded_debt q) p' = Some k then 1 else 0)"
    using reconcile_Inr [OF assms(2,1)] by blast
  have "member_of (p_recorded_debt p) q = member_of (p_recorded_debt p) p" using assms(3) by (simp add: member_of_def)
  moreover have "p_recorded_debt p' = p_recorded_debt q" "weight p' = weight q" "p_stake p' = p_stake q"
    using b(2) by (simp_all add: weight_def)
  ultimately show "books_step m p bm m' p' bm'"
    using assms(4-7) b by (simp add: books_step_def)
  show "p' = q\<lparr> p_bucket := p_bucket p' \<rparr>" using b(2) by simp
  show "bucket_target m' q = Inr (member_of (p_recorded_debt q) p')" by (rule b(3))
qed

end
