(* ===== verification/Cdp_Ops.thy ===== *)
theory Cdp_Ops
  imports Books
begin

text \<open>
  The instructions a borrower sends: \<^verbatim>\<open>open_position.rs\<close>, \<^verbatim>\<open>deposit.rs\<close>, \<^verbatim>\<open>withdraw.rs\<close>, \<^verbatim>\<open>borrow.rs\<close>,
  \<^verbatim>\<open>repay.rs\<close>, \<^verbatim>\<open>adjust_rate.rs\<close> and \<^verbatim>\<open>close_position.rs\<close> under \<^verbatim>\<open>programs/fusd-core/src/instructions\<close>. A
  handler takes the ledger, the market, the position and the bitmap and returns them updated; the
  account constraints come first. Accounts found by their seeds are the ones passed in. The events
  a handler emits are not modelled.
\<close>

record cdp_accounts =
  ca_owner :: pubkey
  ca_collateral_mint :: pubkey
  ca_market :: pubkey
  ca_position :: pubkey
  ca_owner_collateral_ata :: pubkey
  ca_collateral_vault :: pubkey
  ca_fusd_mint :: pubkey
  ca_mint_authority :: pubkey
  ca_owner_fusd_ata :: pubkey

subsection \<open>Handlers\<close>

definition open_position_handler ::
    "'l runtime \<Rightarrow> clock \<Rightarrow> cdp_accounts \<Rightarrow> nat \<Rightarrow> 'l \<Rightarrow> market \<Rightarrow> ('l \<times> position) res" where
  "open_position_handler T clk A user_rate_bps l m =
     bindR (cpi (sys_create T l (ca_owner A) (ca_position A))) (\<lambda>l.
     bindR (require (user_rate_bps \<ge> MIN_USER_RATE_BPS \<and> user_rate_bps \<le> MAX_USER_RATE_BPS) InterestRateOutOfBounds) (\<lambda>_.
     let reserve = m_reserve_lamports m;
         now = unix_timestamp clk;
         p = \<lparr> p_owner = ca_owner A, p_collateral_mint = ca_collateral_mint A, p_ink = 0, p_recorded_debt = 0,
               p_user_rate_bps = user_rate_bps, p_last_debt_update = now, p_stake = 0,
               p_redist_l_coll_snapshot = m_l_coll m, p_redist_l_art_snapshot = m_l_art m,
               p_reserve_lamports = reserve, p_bucket = 0, p_coll_surplus = 0, p_last_rate_adjust_ts = now,
               p_ink_nonce = 0 \<rparr> in
     bindR (if reserve > 0 then cpi (sys_transfer T l (ca_owner A) (ca_position A) reserve) else Inr l) (\<lambda>l.
     Inr (l, p))))"

definition deposit_handler ::
    "'l runtime \<Rightarrow> clock \<Rightarrow> cdp_accounts \<Rightarrow> nat \<Rightarrow> 'l \<Rightarrow> market \<Rightarrow> position \<Rightarrow> redemption_bitmap \<Rightarrow>
     ('l \<times> market \<times> position \<times> redemption_bitmap) res" where
  "deposit_handler T clk A amount l m p bm =
     bindR (constraint (m_collateral_vault m = ca_collateral_vault A)) (\<lambda>_.
     bindR (constraint (p_owner p = ca_owner A)) (\<lambda>_.
     bindR (constraint (tk_mint T l (ca_owner_collateral_ata A) = ca_collateral_mint A)) (\<lambda>_.
     bindR (constraint (tk_owner T l (ca_owner_collateral_ata A) = ca_owner A)) (\<lambda>_.
     bindR (require (amount > 0) ZeroAmount) (\<lambda>_.
     bindR (weighted p) (\<lambda>old_weighted.
     bindR (cpi (tk_transfer T l (ca_owner_collateral_ata A) (ca_collateral_vault A) (ca_owner A) amount)) (\<lambda>l.
     bindR (accrue m (unix_timestamp clk)) (\<lambda>m1.
     bindR (realize m1 p (unix_timestamp clk)) (\<lambda>p1.
     bindR (math (checked_add 64 (p_ink p1) amount)) (\<lambda>new_ink.
     bindR (math (checked_add 128 (m_total_collateral m1) amount)) (\<lambda>total_collateral.
     bindR (reweight (m1\<lparr> m_total_collateral := total_collateral \<rparr>) (set_ink p1 new_ink) old_weighted) (\<lambda>m2.
     bindR (set_stake m2 (set_ink p1 new_ink)) (\<lambda>(m3, p3).
     bindR (if m_reserve_lamports m3 > p_reserve_lamports p3
            then bindR (cpi (sys_transfer T l (ca_owner A) (ca_position A) (m_reserve_lamports m3 - p_reserve_lamports p3)))
                   (\<lambda>l. Inr (l, p3\<lparr> p_reserve_lamports := m_reserve_lamports m3 \<rparr>))
            else Inr (l, p3)) (\<lambda>(l, p4).
     bindR (reconcile bm m3 p4 (p_recorded_debt p)) (\<lambda>(bm, p5).
     bindR (assert_collateral_vault_sufficiency T l (ca_collateral_vault A) m3) (\<lambda>_.
     Inr (l, m3, p5, bm)))))))))))))))))"

definition withdraw_handler ::
    "'l runtime \<Rightarrow> clock \<Rightarrow> cdp_accounts \<Rightarrow> nat \<Rightarrow> 'l \<Rightarrow> market \<Rightarrow> position \<Rightarrow> redemption_bitmap \<Rightarrow>
     ('l \<times> market \<times> position \<times> redemption_bitmap) res" where
  "withdraw_handler T clk A amount l m p bm =
     bindR (constraint (m_collateral_vault m = ca_collateral_vault A)) (\<lambda>_.
     bindR (constraint (p_owner p = ca_owner A)) (\<lambda>_.
     bindR (constraint (tk_mint T l (ca_owner_collateral_ata A) = ca_collateral_mint A)) (\<lambda>_.
     bindR (constraint (tk_owner T l (ca_owner_collateral_ata A) = ca_owner A)) (\<lambda>_.
     bindR (require (amount > 0) ZeroAmount) (\<lambda>_.
     bindR (weighted p) (\<lambda>old_weighted.
     bindR (accrue m (unix_timestamp clk)) (\<lambda>m1.
     bindR (realize m1 p (unix_timestamp clk)) (\<lambda>p1.
     bindR (require (p_ink p1 \<ge> amount) InsufficientCollateral) (\<lambda>_.
     bindR (if p_recorded_debt p1 > 0
            then bindR (require (m_spot m1 > 0) OracleUnavailable) (\<lambda>_.
                 bindR (require (clock_slot clk - m_spot_updated_slot m1 \<le> MAX_PRICE_STALENESS_SLOTS) StalePrice) (\<lambda>_.
                 require (is_healthy (p_ink p1 - amount) (p_recorded_debt p1) (m_spot m1) (m_mcr_bps m1))
                   BelowMinCollateralRatio))
            else Inr ()) (\<lambda>_.
     bindR (if m_ccr_bps m1 > 0 \<and> \<not> m_shutdown m1 \<and>
               m_spot m1 > 0 \<and> clock_slot clk - m_spot_updated_slot m1 \<le> MAX_PRICE_STALENESS_SLOTS
            then bindR (math (checked_sub (m_total_collateral m1) amount)) (\<lambda>post_collateral.
                 require (\<not> tcr_below post_collateral (m_agg_recorded_debt m1) (m_spot m1) (m_ccr_bps m1)) CcrRestricted)
            else Inr ()) (\<lambda>_.
     bindR (cpi (tk_transfer T l (ca_collateral_vault A) (ca_owner_collateral_ata A) (ca_market A) amount)) (\<lambda>l.
     bindR (math (checked_sub (m_total_collateral m1) amount)) (\<lambda>total_collateral.
     bindR (reweight (m1\<lparr> m_total_collateral := total_collateral \<rparr>) (set_ink p1 (p_ink p1 - amount)) old_weighted) (\<lambda>m2.
     bindR (set_stake m2 (set_ink p1 (p_ink p1 - amount))) (\<lambda>(m3, p3).
     bindR (reconcile bm m3 p3 (p_recorded_debt p)) (\<lambda>(bm, p4).
     bindR (assert_collateral_vault_sufficiency T l (ca_collateral_vault A) m3) (\<lambda>_.
     Inr (l, m3, p4, bm))))))))))))))))))"

definition borrow_handler ::
    "'l runtime \<Rightarrow> clock \<Rightarrow> cdp_accounts \<Rightarrow> nat \<Rightarrow> 'l \<Rightarrow> market \<Rightarrow> position \<Rightarrow> redemption_bitmap \<Rightarrow>
     ('l \<times> market \<times> position \<times> redemption_bitmap) res" where
  "borrow_handler T clk A amount l m p bm =
     bindR (constraint (p_owner p = ca_owner A)) (\<lambda>_.
     bindR (constraint (tk_mint T l (ca_owner_fusd_ata A) = ca_fusd_mint A)) (\<lambda>_.
     bindR (constraint (tk_owner T l (ca_owner_fusd_ata A) = ca_owner A)) (\<lambda>_.
     bindR (require (amount > 0) ZeroAmount) (\<lambda>_.
     bindR (weighted p) (\<lambda>old_weighted.
     bindR (accrue m (unix_timestamp clk)) (\<lambda>m1.
     bindR (realize m1 p (unix_timestamp clk)) (\<lambda>p1.
     bindR (require (\<not> m_shutdown m1) MarketShutdown) (\<lambda>_.
     bindR (require (m_liq_infra_flags m1 = 0 \<or>
                     m_liq_infra_flags m1 AND LIQ_INFRA_READY_MASK = LIQ_INFRA_READY_MASK) LiquidationInfraNotReady) (\<lambda>_.
     bindR (require (m_spot m1 > 0) OracleUnavailable) (\<lambda>_.
     bindR (require (\<not> m_mint_frozen m1) MintFrozen) (\<lambda>_.
     bindR (require (unix_timestamp clk \<ge> m_guardian_paused_until m1) GuardianPaused) (\<lambda>_.
     bindR (require (clock_slot clk - m_spot_updated_slot m1 \<le> MAX_PRICE_STALENESS_SLOTS) StalePrice) (\<lambda>_.
     bindR (if m_borrow_fee_bps m1 > 0
            then math (mul_div_ceil amount (m_borrow_fee_bps m1) BPS_DENOMINATOR) else Inr 0) (\<lambda>fee.
     bindR (math (st_borrow u128_num (m_agg_recorded_debt m1) (m_unminted_interest m1) amount fee)) (\<lambda>d.
     bindR (math (checked_add 128 (p_recorded_debt p1) (bd_debt_delta d))) (\<lambda>new_debt.
     bindR (require (is_healthy (p_ink p1) new_debt (m_spot m1) (m_mcr_bps m1)) BelowMinCollateralRatio) (\<lambda>_.
     bindR (require (m_min_debt m1 = 0 \<or> new_debt \<ge> m_min_debt m1) DebtBelowMinimum) (\<lambda>_.
     bindR (require (bd_new_agg d \<le> m_debt_ceiling m1) DebtCeilingExceeded) (\<lambda>_.
     bindR (if m_ccr_bps m1 > 0
            then require (\<not> tcr_below (m_total_collateral m1) (bd_new_agg d) (m_spot m1) (m_ccr_bps m1)) CcrRestricted
            else Inr ()) (\<lambda>_.
     bindR (if m_rl_cap m1 > 0
            then bindR (ok_or_err (ratelimit_consume (m_rl_accrued m1) (m_rl_last_update m1) (unix_timestamp clk)
                          (m_rl_cap m1) RATELIMIT_WINDOW_SECS amount) RateLimitExceeded) (\<lambda>new_accrued.
                 Inr (m1\<lparr> m_rl_accrued := new_accrued, m_rl_last_update := unix_timestamp clk \<rparr>))
            else Inr m1) (\<lambda>m2.
     bindR (reweight (m2\<lparr> m_agg_recorded_debt := bd_new_agg d, m_unminted_interest := bd_new_unminted d \<rparr>)
              (p1\<lparr> p_recorded_debt := new_debt \<rparr>) old_weighted) (\<lambda>m3.
     bindR (set_stake m3 (p1\<lparr> p_recorded_debt := new_debt \<rparr>)) (\<lambda>(m4, p4).
     bindR (cpi (tk_mint_to T l (ca_fusd_mint A) (ca_owner_fusd_ata A) (ca_mint_authority A) amount)) (\<lambda>l.
     bindR (reconcile bm m4 p4 (p_recorded_debt p)) (\<lambda>(bm, p5).
     Inr (l, m4, p5, bm))))))))))))))))))))))))))"

definition repay_handler ::
    "'l runtime \<Rightarrow> clock \<Rightarrow> cdp_accounts \<Rightarrow> nat \<Rightarrow> 'l \<Rightarrow> market \<Rightarrow> position \<Rightarrow> redemption_bitmap \<Rightarrow>
     ('l \<times> market \<times> position \<times> redemption_bitmap) res" where
  "repay_handler T clk A amount l m p bm =
     bindR (constraint (p_owner p = ca_owner A)) (\<lambda>_.
     bindR (constraint (tk_mint T l (ca_owner_fusd_ata A) = ca_fusd_mint A)) (\<lambda>_.
     bindR (constraint (tk_owner T l (ca_owner_fusd_ata A) = ca_owner A)) (\<lambda>_.
     bindR (require (amount > 0) ZeroAmount) (\<lambda>_.
     bindR (weighted p) (\<lambda>old_weighted.
     bindR (accrue m (unix_timestamp clk)) (\<lambda>m1.
     bindR (realize m1 p (unix_timestamp clk)) (\<lambda>p1.
     if p_recorded_debt p1 = 0
     then bindR (set_stake m1 p1) (\<lambda>(m2, p2). Inr (l, m2, p2, bm))
     else
     bindR (math (st_repay u128_num (m_agg_recorded_debt m1) (p_recorded_debt p1) amount)) (\<lambda>d.
     bindR (require (m_min_debt m1 = 0 \<or> rd_new_position_debt d = 0 \<or> rd_new_position_debt d \<ge> m_min_debt m1)
              DebtBelowMinimum) (\<lambda>_.
     bindR (cpi (tk_burn T l (ca_fusd_mint A) (ca_owner_fusd_ata A) (ca_owner A) (rd_burn d mod 2 ^ 64))) (\<lambda>l.
     bindR (reweight (m1\<lparr> m_agg_recorded_debt := rd_new_agg d \<rparr>)
              (p1\<lparr> p_recorded_debt := rd_new_position_debt d \<rparr>) old_weighted) (\<lambda>m2.
     bindR (set_stake m2 (p1\<lparr> p_recorded_debt := rd_new_position_debt d \<rparr>)) (\<lambda>(m3, p3).
     let m4 = (if m_rl_cap m3 > 0
               then m3\<lparr> m_rl_accrued := ratelimit_restore (m_rl_accrued m3) (m_rl_last_update m3) (unix_timestamp clk)
                          (m_rl_cap m3) RATELIMIT_WINDOW_SECS (rd_burn d mod 2 ^ 64),
                        m_rl_last_update := unix_timestamp clk \<rparr>
               else m3) in
     bindR (reconcile bm m4 p3 (p_recorded_debt p)) (\<lambda>(bm, p4).
     Inr (l, m4, p4, bm))))))))))))))"

definition charge_premature_fee :: "clock \<Rightarrow> nat \<Rightarrow> market \<Rightarrow> position \<Rightarrow> (market \<times> position) res" where
  "charge_premature_fee clk new_rate_bps m p =
     (if m_rate_adjust_cooldown_secs m > 0 \<and>
         unix_timestamp clk < i64_sat (p_last_rate_adjust_ts p + m_rate_adjust_cooldown_secs m) \<and>
         p_recorded_debt p > 0
      then bindR (math (premature_adjustment_fee (p_recorded_debt p) new_rate_bps
                          (nat (m_rate_adjust_cooldown_secs m)))) (\<lambda>fee.
           bindR (math (checked_add 128 (p_recorded_debt p) fee)) (\<lambda>debt.
           bindR (math (st_book_interest u128_num (m_agg_recorded_debt m) (m_unminted_interest m) fee)) (\<lambda>d.
           bindR (require (m_spot m > 0) OracleUnavailable) (\<lambda>_.
           bindR (require (clock_slot clk - m_spot_updated_slot m \<le> MAX_PRICE_STALENESS_SLOTS) StalePrice) (\<lambda>_.
           bindR (require (is_healthy (p_ink p) debt (m_spot m) (m_mcr_bps m)) BelowMinCollateralRatio) (\<lambda>_.
           bindR (if m_ccr_bps m > 0 \<and> \<not> m_shutdown m
                  then require (\<not> tcr_below (m_total_collateral m) (id_new_agg d) (m_spot m) (m_ccr_bps m)) CcrRestricted
                  else Inr ()) (\<lambda>_.
           Inr (m\<lparr> m_agg_recorded_debt := id_new_agg d, m_unminted_interest := id_new_unminted d \<rparr>,
                p\<lparr> p_recorded_debt := debt \<rparr>))))))))
      else Inr (m, p))"

definition adjust_rate_handler ::
    "clock \<Rightarrow> cdp_accounts \<Rightarrow> nat \<Rightarrow> market \<Rightarrow> position \<Rightarrow> redemption_bitmap \<Rightarrow>
     (market \<times> position \<times> redemption_bitmap) res" where
  "adjust_rate_handler clk A new_rate_bps m p bm =
     bindR (constraint (p_owner p = ca_owner A)) (\<lambda>_.
     bindR (require (\<not> m_shutdown m) MarketShutdown) (\<lambda>_.
     bindR (require (new_rate_bps \<ge> MIN_USER_RATE_BPS \<and> new_rate_bps \<le> MAX_USER_RATE_BPS) InterestRateOutOfBounds) (\<lambda>_.
     bindR (weighted p) (\<lambda>old_weighted.
     bindR (accrue m (unix_timestamp clk)) (\<lambda>m1.
     bindR (realize m1 p (unix_timestamp clk)) (\<lambda>p1.
     bindR (charge_premature_fee clk new_rate_bps m1 p1) (\<lambda>(m2, p2).
     bindR (reweight m2 (p2\<lparr> p_last_rate_adjust_ts := unix_timestamp clk, p_user_rate_bps := new_rate_bps \<rparr>) old_weighted) (\<lambda>m3.
     bindR (set_stake m3 (p2\<lparr> p_last_rate_adjust_ts := unix_timestamp clk, p_user_rate_bps := new_rate_bps \<rparr>)) (\<lambda>(m4, p4).
     bindR (reconcile bm m4 p4 (p_recorded_debt p)) (\<lambda>(bm, p5).
     Inr (m4, p5, bm)))))))))))"

definition close_position_handler :: "'l runtime \<Rightarrow> cdp_accounts \<Rightarrow> 'l \<Rightarrow> position \<Rightarrow> 'l res" where
  "close_position_handler T A l p =
     bindR (constraint (p_owner p = ca_owner A)) (\<lambda>_.
     bindR (constraint (p_collateral_mint p = ca_collateral_mint A)) (\<lambda>_.
     bindR (require (p_recorded_debt p = 0) PositionNotEmpty) (\<lambda>_.
     bindR (require (p_ink p = 0) PositionNotEmpty) (\<lambda>_.
     bindR (require (p_coll_surplus p = 0) PositionNotEmpty) (\<lambda>_.
     Inr (sys_close T l (ca_position A) (ca_owner A)))))))"

subsection \<open>Effects\<close>

lemma weighted_weight: "weighted p = Inr w \<Longrightarrow> w = weight p"
  by (simp add: weighted_Inr weight_def)

lemmas handler_Inr = bindR_Inr case_prod_Inr ensure_Inr ok_or_Inr checked_add_Some checked_sub_Some
  sum.inject prod.inject

lemma deposit_Inr:
  assumes "deposit_handler T clk A amount l m p bm = Inr (l', m', p', bm')"
  obtains l1 m1 p1 m2 p3 p4 where
    "0 < amount" "p_owner p = ca_owner A" "m_collateral_vault m = ca_collateral_vault A"
    "tk_transfer T l (ca_owner_collateral_ata A) (ca_collateral_vault A) (ca_owner A) amount = Some l1"
    "accrue m (unix_timestamp clk) = Inr m1" "realize m1 p (unix_timestamp clk) = Inr p1"
    "p_ink p1 + amount < 2 ^ 64"
    "reweight (m1\<lparr> m_total_collateral := m_total_collateral m1 + amount \<rparr>) (set_ink p1 (p_ink p1 + amount)) (weight p) = Inr m2"
    "set_stake m2 (set_ink p1 (p_ink p1 + amount)) = Inr (m', p3)"
    "(if m_reserve_lamports m' > p_reserve_lamports p3
      then bindR (cpi (sys_transfer T l1 (ca_owner A) (ca_position A) (m_reserve_lamports m' - p_reserve_lamports p3)))
                   (\<lambda>l. Inr (l, p3\<lparr> p_reserve_lamports := m_reserve_lamports m' \<rparr>))
      else Inr (l1, p3)) = Inr (l', p4)"
    "reconcile bm m' p4 (p_recorded_debt p) = Inr (bm', p')"
    "assert_collateral_vault_sufficiency T l' (ca_collateral_vault A) m' = Inr ()"
  using assms unfolding deposit_handler_def handler_Inr
  by clarify (drule weighted_weight, hypsubst, rule that; assumption)

lemma withdraw_Inr:
  assumes "withdraw_handler T clk A amount l m p bm = Inr (l', m', p', bm')"
  obtains m1 p1 m2 p3 where
    "0 < amount" "p_owner p = ca_owner A" "m_collateral_vault m = ca_collateral_vault A"
    "tk_owner T l (ca_owner_collateral_ata A) = ca_owner A"
    "accrue m (unix_timestamp clk) = Inr m1" "realize m1 p (unix_timestamp clk) = Inr p1" "amount \<le> p_ink p1"
    "(if p_recorded_debt p1 > 0
      then bindR (require (m_spot m1 > 0) OracleUnavailable) (\<lambda>_.
           bindR (require (clock_slot clk - m_spot_updated_slot m1 \<le> MAX_PRICE_STALENESS_SLOTS) StalePrice) (\<lambda>_.
           require (is_healthy (p_ink p1 - amount) (p_recorded_debt p1) (m_spot m1) (m_mcr_bps m1)) BelowMinCollateralRatio))
      else Inr ()) = Inr ()"
    "(if m_ccr_bps m1 > 0 \<and> \<not> m_shutdown m1 \<and>
         m_spot m1 > 0 \<and> clock_slot clk - m_spot_updated_slot m1 \<le> MAX_PRICE_STALENESS_SLOTS
      then bindR (math (checked_sub (m_total_collateral m1) amount)) (\<lambda>post_collateral.
           require (\<not> tcr_below post_collateral (m_agg_recorded_debt m1) (m_spot m1) (m_ccr_bps m1)) CcrRestricted)
      else Inr ()) = Inr ()"
    "tk_transfer T l (ca_collateral_vault A) (ca_owner_collateral_ata A) (ca_market A) amount = Some l'"
    "amount \<le> m_total_collateral m1"
    "reweight (m1\<lparr> m_total_collateral := m_total_collateral m1 - amount \<rparr>) (set_ink p1 (p_ink p1 - amount)) (weight p) = Inr m2"
    "set_stake m2 (set_ink p1 (p_ink p1 - amount)) = Inr (m', p3)"
    "reconcile bm m' p3 (p_recorded_debt p) = Inr (bm', p')"
    "assert_collateral_vault_sufficiency T l' (ca_collateral_vault A) m' = Inr ()"
  using assms unfolding withdraw_handler_def handler_Inr
  by clarify (drule weighted_weight, hypsubst, rule that; assumption)

lemma borrow_Inr:
  assumes "borrow_handler T clk A amount l m p bm = Inr (l', m', p', bm')"
  obtains m1 p1 fee d m2 m3 p4 where
    "p_owner p = ca_owner A" "tk_owner T l (ca_owner_fusd_ata A) = ca_owner A" "0 < amount"
    "accrue m (unix_timestamp clk) = Inr m1" "realize m1 p (unix_timestamp clk) = Inr p1" "\<not> m_shutdown m1"
    "m_liq_infra_flags m1 = 0 \<or> m_liq_infra_flags m1 AND LIQ_INFRA_READY_MASK = LIQ_INFRA_READY_MASK"
    "0 < m_spot m1" "\<not> m_mint_frozen m1" "m_guardian_paused_until m1 \<le> unix_timestamp clk"
    "clock_slot clk - m_spot_updated_slot m1 \<le> MAX_PRICE_STALENESS_SLOTS"
    "(if m_borrow_fee_bps m1 > 0 then math (mul_div_ceil amount (m_borrow_fee_bps m1) BPS_DENOMINATOR) else Inr 0) = Inr fee"
    "st_borrow u128_num (m_agg_recorded_debt m1) (m_unminted_interest m1) amount fee = Some d"
    "is_healthy (p_ink p1) (p_recorded_debt p1 + bd_debt_delta d) (m_spot m1) (m_mcr_bps m1)"
    "m_min_debt m1 = 0 \<or> m_min_debt m1 \<le> p_recorded_debt p1 + bd_debt_delta d"
    "bd_new_agg d \<le> m_debt_ceiling m1"
    "(if m_ccr_bps m1 > 0
      then require (\<not> tcr_below (m_total_collateral m1) (bd_new_agg d) (m_spot m1) (m_ccr_bps m1)) CcrRestricted
      else Inr ()) = Inr ()"
    "(if m_rl_cap m1 > 0
      then bindR (ok_or_err (ratelimit_consume (m_rl_accrued m1) (m_rl_last_update m1) (unix_timestamp clk)
                    (m_rl_cap m1) RATELIMIT_WINDOW_SECS amount) RateLimitExceeded) (\<lambda>new_accrued.
           Inr (m1\<lparr> m_rl_accrued := new_accrued, m_rl_last_update := unix_timestamp clk \<rparr>))
      else Inr m1) = Inr m2"
    "reweight (m2\<lparr> m_agg_recorded_debt := bd_new_agg d, m_unminted_interest := bd_new_unminted d \<rparr>)
       (p1\<lparr> p_recorded_debt := p_recorded_debt p1 + bd_debt_delta d \<rparr>) (weight p) = Inr m3"
    "set_stake m3 (p1\<lparr> p_recorded_debt := p_recorded_debt p1 + bd_debt_delta d \<rparr>) = Inr (m', p4)"
    "tk_mint_to T l (ca_fusd_mint A) (ca_owner_fusd_ata A) (ca_mint_authority A) amount = Some l'"
    "reconcile bm m' p4 (p_recorded_debt p) = Inr (bm', p')"
  using assms unfolding borrow_handler_def handler_Inr
  by clarify (drule weighted_weight, hypsubst, rule that; assumption)

lemma repay_Inr:
  assumes "repay_handler T clk A amount l m p bm = Inr (l', m', p', bm')"
  obtains (idle) m1 p1 where "accrue m (unix_timestamp clk) = Inr m1" "realize m1 p (unix_timestamp clk) = Inr p1"
      "p_recorded_debt p1 = 0" "set_stake m1 p1 = Inr (m', p')" "l' = l" "bm' = bm"
  | (paid) m1 p1 d m2 m3 p3 where
    "p_owner p = ca_owner A" "0 < amount"
    "accrue m (unix_timestamp clk) = Inr m1" "realize m1 p (unix_timestamp clk) = Inr p1"
    "st_repay u128_num (m_agg_recorded_debt m1) (p_recorded_debt p1) amount = Some d"
    "m_min_debt m1 = 0 \<or> rd_new_position_debt d = 0 \<or> m_min_debt m1 \<le> rd_new_position_debt d"
    "tk_burn T l (ca_fusd_mint A) (ca_owner_fusd_ata A) (ca_owner A) (rd_burn d mod 2 ^ 64) = Some l'"
    "reweight (m1\<lparr> m_agg_recorded_debt := rd_new_agg d \<rparr>) (p1\<lparr> p_recorded_debt := rd_new_position_debt d \<rparr>)
       (weight p) = Inr m2"
    "set_stake m2 (p1\<lparr> p_recorded_debt := rd_new_position_debt d \<rparr>) = Inr (m3, p3)"
    "m' = (if m_rl_cap m3 > 0
           then m3\<lparr> m_rl_accrued := ratelimit_restore (m_rl_accrued m3) (m_rl_last_update m3) (unix_timestamp clk)
                      (m_rl_cap m3) RATELIMIT_WINDOW_SECS (rd_burn d mod 2 ^ 64),
                    m_rl_last_update := unix_timestamp clk \<rparr>
           else m3)"
    "reconcile bm m' p3 (p_recorded_debt p) = Inr (bm', p')"
proof -
  obtain m1 p1 where o: "accrue m (unix_timestamp clk) = Inr m1" "realize m1 p (unix_timestamp clk) = Inr p1"
    and c: "p_owner p = ca_owner A" "0 < amount"
    and rest: "(if p_recorded_debt p1 = 0
     then bindR (set_stake m1 p1) (\<lambda>(m2, p2). Inr (l, m2, p2, bm))
     else
     bindR (math (st_repay u128_num (m_agg_recorded_debt m1) (p_recorded_debt p1) amount)) (\<lambda>d.
     bindR (require (m_min_debt m1 = 0 \<or> rd_new_position_debt d = 0 \<or> rd_new_position_debt d \<ge> m_min_debt m1)
              DebtBelowMinimum) (\<lambda>_.
     bindR (cpi (tk_burn T l (ca_fusd_mint A) (ca_owner_fusd_ata A) (ca_owner A) (rd_burn d mod 2 ^ 64))) (\<lambda>l.
     bindR (reweight (m1\<lparr> m_agg_recorded_debt := rd_new_agg d \<rparr>)
              (p1\<lparr> p_recorded_debt := rd_new_position_debt d \<rparr>) (weight p)) (\<lambda>m2.
     bindR (set_stake m2 (p1\<lparr> p_recorded_debt := rd_new_position_debt d \<rparr>)) (\<lambda>(m3, p3).
     let m4 = (if m_rl_cap m3 > 0
               then m3\<lparr> m_rl_accrued := ratelimit_restore (m_rl_accrued m3) (m_rl_last_update m3) (unix_timestamp clk)
                          (m_rl_cap m3) RATELIMIT_WINDOW_SECS (rd_burn d mod 2 ^ 64),
                        m_rl_last_update := unix_timestamp clk \<rparr>
               else m3) in
     bindR (reconcile bm m4 p3 (p_recorded_debt p)) (\<lambda>(bm, p4).
     Inr (l, m4, p4, bm)))))))) = Inr (l', m', p', bm')"
    using assms unfolding repay_handler_def bindR_Inr [where y = "(l', m', p', bm')"] ensure_Inr
    by clarify (drule weighted_weight, hypsubst, rule that; assumption)
  show thesis
  proof (cases "p_recorded_debt p1 = 0")
    case True
    then show thesis using rest idle [OF o] by (auto simp: res_simps)
  next
    case False
    show thesis
      using rest unfolding if_not_P [OF False] Let_def handler_Inr
      by clarify (rule paid [OF c o]; (assumption | simp only:))
  qed
qed

lemma charge_premature_fee_Inr:
  assumes "charge_premature_fee clk new_rate_bps m p = Inr (m', p')"
  obtains (none) "m' = m" "p' = p"
  | (charged) fee d where
    "premature_adjustment_fee (p_recorded_debt p) new_rate_bps (nat (m_rate_adjust_cooldown_secs m)) = Some fee"
    "m' = m\<lparr> m_agg_recorded_debt := m_agg_recorded_debt m + fee, m_unminted_interest := m_unminted_interest m + fee \<rparr>"
    "p' = p\<lparr> p_recorded_debt := p_recorded_debt p + fee \<rparr>"
    "is_healthy (p_ink p) (p_recorded_debt p + fee) (m_spot m) (m_mcr_bps m)"
proof -
  consider "m' = m \<and> p' = p" | fee d where
    "premature_adjustment_fee (p_recorded_debt p) new_rate_bps (nat (m_rate_adjust_cooldown_secs m)) = Some fee"
    "st_book_interest u128_num (m_agg_recorded_debt m) (m_unminted_interest m) fee = Some d"
    "m' = m\<lparr> m_agg_recorded_debt := id_new_agg d, m_unminted_interest := id_new_unminted d \<rparr>"
    "p' = p\<lparr> p_recorded_debt := p_recorded_debt p + fee \<rparr>"
    "is_healthy (p_ink p) (p_recorded_debt p + fee) (m_spot m) (m_mcr_bps m)"
    using assms unfolding charge_premature_fee_def if_Inr handler_Inr by blast
  then show thesis
  proof cases
    case (2 fee d)
    then show thesis
      using charged u128_supply.interest_identity(2,3) [OF 2(2)] by (simp flip: of_nat_add)
  qed (use none in blast)
qed

lemma adjust_rate_Inr:
  assumes "adjust_rate_handler clk A new_rate_bps m p bm = Inr (m', p', bm')"
  obtains m1 p1 m2 p2 m3 p4 where
    "p_owner p = ca_owner A" "\<not> m_shutdown m"
    "MIN_USER_RATE_BPS \<le> new_rate_bps" "new_rate_bps \<le> MAX_USER_RATE_BPS"
    "accrue m (unix_timestamp clk) = Inr m1" "realize m1 p (unix_timestamp clk) = Inr p1"
    "charge_premature_fee clk new_rate_bps m1 p1 = Inr (m2, p2)"
    "reweight m2 (p2\<lparr> p_last_rate_adjust_ts := unix_timestamp clk, p_user_rate_bps := new_rate_bps \<rparr>) (weight p) = Inr m3"
    "set_stake m3 (p2\<lparr> p_last_rate_adjust_ts := unix_timestamp clk, p_user_rate_bps := new_rate_bps \<rparr>) = Inr (m', p4)"
    "reconcile bm m' p4 (p_recorded_debt p) = Inr (bm', p')"
  using assms unfolding adjust_rate_handler_def handler_Inr
  by clarify (drule weighted_weight, hypsubst, rule that; assumption)

subsection \<open>Every operation keeps the books\<close>

lemma deposit_effect:
  assumes "deposit_handler T clk A amount l m p bm = Inr (l', m', p', bm')" "token_laws T" "bitmap_ok bm"
  shows "books_step m p bm m' p' bm' \<and> booked_supply m' = booked_supply m \<and> tk_supply T l' = tk_supply T l \<and>
    tracked_collateral m' = tracked_collateral m + amount \<and>
    tracked_collateral m' \<le> tk_amount T l' (m_collateral_vault m') \<and> m_collateral_vault m' = m_collateral_vault m \<and>
    m_total_coll_surplus m' = m_total_coll_surplus m \<and> p_coll_surplus p' = p_coll_surplus p \<and>
    p_ink p + amount \<le> p_ink p' \<and> m_reserve_lamports m \<le> p_reserve_lamports p'"
  using assms(1)
proof (cases rule: deposit_Inr)
  case h: (1 l1 m1 p1 m2 p3 p4)
  show ?thesis
  proof (cases rule: position_opened [OF h(5,6)])
    case op: (1 x t)
    show ?thesis
    proof (cases rule: position_closed [OF h(8,9)])
      case cl: (1 w s u)
      have l': "same_tokens T l1 l'" and "\<exists>n \<ge> m_reserve_lamports m'. p4 = p3\<lparr> p_reserve_lamports := n \<rparr>"
        using h(10) sys_same(1) [OF assms(2)]
        by (auto simp: res_simps same_tokens_def split: if_splits intro: exI [of _ "p_reserve_lamports p3"])
      then obtain n where n: "m_reserve_lamports m \<le> n" "p4 = p3\<lparr> p_reserve_lamports := n \<rparr>"
        by (auto simp: cl(1) op(1))
      have b: "books_step m p bm m' p' bm'" "p' = p4\<lparr> p_bucket := p_bucket p' \<rparr>"
        by (rule books_stepI [OF assms(3) h(11)]; use cl in \<open>simp add: n op weight_def\<close>)+
      have "p_ink p' = p_ink p1 + amount" "p_coll_surplus p' = p_coll_surplus p" "p_reserve_lamports p' = n"
        by (subst b(2), simp add: n cl(2) op)+
      then show ?thesis
        using b(1) op(9) h(3,12) n(1) transferD(5) [OF assms(2) h(4)] l'
        by (simp add: cl(1) op(1) booked_supply_def tracked_collateral_def assert_sufficiency_Inr same_tokens_def)
    qed
  qed
qed

lemma withdraw_effect:
  assumes "withdraw_handler T clk A amount l m p bm = Inr (l', m', p', bm')" "token_laws T" "bitmap_ok bm"
  shows "books_step m p bm m' p' bm' \<and> booked_supply m' = booked_supply m \<and> tk_supply T l' = tk_supply T l \<and>
    tracked_collateral m' + amount = tracked_collateral m \<and>
    tracked_collateral m' \<le> tk_amount T l' (m_collateral_vault m') \<and> m_collateral_vault m' = m_collateral_vault m \<and>
    m_total_coll_surplus m' = m_total_coll_surplus m \<and> p_coll_surplus p' = p_coll_surplus p \<and>
    p_ink p \<le> p_ink p' + amount \<and>
    (p_recorded_debt p' = 0 \<or> 0 < m_spot m \<and> clock_slot clk - m_spot_updated_slot m \<le> MAX_PRICE_STALENESS_SLOTS \<and>
      is_healthy (p_ink p') (p_recorded_debt p') (m_spot m) (m_mcr_bps m))"
  using assms(1)
proof (cases rule: withdraw_Inr)
  case h: (1 m1 p1 m2 p3)
  show ?thesis
  proof (cases rule: position_opened [OF h(5,6)])
    case op: (1 x t)
    show ?thesis
    proof (cases rule: position_closed [OF h(12,13)])
      case cl: (1 w s u)
      have b: "books_step m p bm m' p' bm'" "p' = p3\<lparr> p_bucket := p_bucket p' \<rparr>"
        by (rule books_stepI [OF assms(3) h(14)]; use cl in \<open>simp add: op weight_def\<close>)+
      have p': "p_ink p' = p_ink p1 - amount" "p_coll_surplus p' = p_coll_surplus p" "p_recorded_debt p' = p_recorded_debt p1"
        by (subst b(2), simp add: cl(2) op)+
      have "p_recorded_debt p' = 0 \<or> 0 < m_spot m \<and> clock_slot clk - m_spot_updated_slot m \<le> MAX_PRICE_STALENESS_SLOTS \<and>
          is_healthy (p_ink p') (p_recorded_debt p') (m_spot m) (m_mcr_bps m)"
        using h(8) unfolding p' if_Inr handler_Inr by (auto simp: op(1))
      then show ?thesis
        using b(1) op(9) h(3,7,11,15) p' transferD(5) [OF assms(2) h(10)]
        by (simp add: cl(1) op(1) booked_supply_def tracked_collateral_def assert_sufficiency_Inr)
    qed
  qed
qed

lemma limiter_step:
  assumes "(if 0 < m_rl_cap m
      then bindR (ok_or_err (ratelimit_consume (m_rl_accrued m) (m_rl_last_update m) now (m_rl_cap m) win amount) e)
             (\<lambda>a. Inr (m\<lparr> m_rl_accrued := a, m_rl_last_update := now \<rparr>))
      else Inr m) = Inr m'"
  obtains a n where "m' = m\<lparr> m_rl_accrued := a, m_rl_last_update := n \<rparr>" "0 < m_rl_cap m \<longrightarrow> a \<le> m_rl_cap m"
proof (cases "0 < m_rl_cap m")
  case True
  then show thesis using assms that by (auto simp: bindR_Inr ok_or_Inr ratelimit_consume_Some)
next
  case False
  then show thesis
    using assms that [where a = "m_rl_accrued m" and n = "m_rl_last_update m"] by simp
qed

lemma borrow_effect:
  assumes "borrow_handler T clk A amount l m p bm = Inr (l', m', p', bm')" "token_laws T" "bitmap_ok bm"
  shows "books_step m p bm m' p' bm' \<and> booked_supply m' = booked_supply m + int amount \<and>
    tk_supply T l' = (tk_supply T l)(ca_fusd_mint A := tk_supply T l (ca_fusd_mint A) + amount) \<and>
    tk_amount T l' = (tk_amount T l)(ca_owner_fusd_ata A := tk_amount T l (ca_owner_fusd_ata A) + amount) \<and>
    tracked_collateral m' = tracked_collateral m \<and> m_collateral_vault m' = m_collateral_vault m \<and>
    m_total_coll_surplus m' = m_total_coll_surplus m \<and> p_coll_surplus p' = p_coll_surplus p \<and>
    p_recorded_debt p + amount \<le> p_recorded_debt p' \<and> m_agg_recorded_debt m + amount \<le> m_agg_recorded_debt m' \<and>
    m_agg_recorded_debt m' \<le> m_debt_ceiling m \<and> m_min_debt m \<le> p_recorded_debt p' \<and>
    is_healthy (p_ink p') (p_recorded_debt p') (m_spot m) (m_mcr_bps m) \<and>
    (0 < m_ccr_bps m \<longrightarrow> \<not> tcr_below (m_total_collateral m') (m_agg_recorded_debt m') (m_spot m) (m_ccr_bps m)) \<and>
    (0 < m_rl_cap m \<longrightarrow> m_rl_accrued m' \<le> m_rl_cap m)"
  using assms(1)
proof (cases rule: borrow_Inr)
  case h: (1 m1 p1 fee d m2 m3 p4)
  show ?thesis
  proof (cases rule: position_opened [OF h(4,5)])
    case op: (1 x t)
    obtain a n where m2: "m2 = m1\<lparr> m_rl_accrued := a, m_rl_last_update := n \<rparr>" and rl: "0 < m_rl_cap m1 \<longrightarrow> a \<le> m_rl_cap m1"
      by (rule limiter_step [OF h(18)])
    note d = u128_supply.borrow_identity [OF h(13)]
    have new: "bd_debt_delta d = amount + fee" "bd_new_agg d = m_agg_recorded_debt m1 + amount + fee"
      "int (bd_new_agg d) - int (bd_new_unminted d) = int (m_agg_recorded_debt m1) - int (m_unminted_interest m1) + int amount"
      using d(3,4) d(1) [of 0] d(2) by (auto simp: u128_supply.circulating_def)
    show ?thesis
    proof (cases rule: position_closed [OF h(19,20)])
      case cl: (1 w s u)
      have b: "books_step m p bm m' p' bm'" "p' = p4\<lparr> p_bucket := p_bucket p' \<rparr>"
        by (rule books_stepI [OF assms(3) h(22)]; use cl in \<open>simp add: op m2 weight_def\<close>)+
      have p': "p_ink p' = p_ink p1" "p_coll_surplus p' = p_coll_surplus p"
          "p_recorded_debt p' = p_recorded_debt p1 + (amount + fee)"
        by (subst b(2), simp add: cl(2) op new(1))+
      have "booked_supply m' = booked_supply m + int amount" using new(3) by (simp add: cl(1) m2 op(1) booked_supply_def)
      moreover have "m_agg_recorded_debt m' = m_agg_recorded_debt m + x + amount + fee"
        using new(2) by (simp add: cl(1) m2 op(1))
      moreover have "m_agg_recorded_debt m' \<le> m_debt_ceiling m"
        "0 < m_ccr_bps m \<longrightarrow> \<not> tcr_below (m_total_collateral m') (m_agg_recorded_debt m') (m_spot m) (m_ccr_bps m)"
        using h(16,17) by (auto simp: cl(1) m2 op(1) if_Inr ensure_Inr)
      moreover have "m_min_debt m \<le> p_recorded_debt p'"
        "is_healthy (p_ink p') (p_recorded_debt p') (m_spot m) (m_mcr_bps m)"
        using h(14,15) unfolding p' new(1) by (auto simp: op(1))
      moreover have "0 < m_rl_cap m \<longrightarrow> m_rl_accrued m' \<le> m_rl_cap m" "tracked_collateral m' = tracked_collateral m"
        "m_collateral_vault m' = m_collateral_vault m" "m_total_coll_surplus m' = m_total_coll_surplus m"
        using rl by (simp_all add: cl(1) m2 op(1) tracked_collateral_def)
      ultimately show ?thesis
        using b(1) op(10) p'(2,3) mint_toD(4,5) [OF assms(2) h(21)] by simp
    qed
  qed
qed

lemma repay_effect:
  assumes "repay_handler T clk A amount l m p bm = Inr (l', m', p', bm')" "token_laws T" "bitmap_ok bm" "amount < 2 ^ 64"
  shows "\<exists>n \<le> amount. books_step m p bm m' p' bm' \<and> booked_supply m' = booked_supply m - int n \<and>
    n \<le> tk_supply T l (ca_fusd_mint A) \<and>
    tk_supply T l' = (tk_supply T l)(ca_fusd_mint A := tk_supply T l (ca_fusd_mint A) - n) \<and>
    tk_amount T l' = (tk_amount T l)(ca_owner_fusd_ata A := tk_amount T l (ca_owner_fusd_ata A) - n) \<and>
    p_recorded_debt p \<le> p_recorded_debt p' + n \<and> (n < amount \<longrightarrow> p_recorded_debt p' = 0) \<and>
    (p_recorded_debt p' = 0 \<or> m_min_debt m \<le> p_recorded_debt p') \<and>
    tracked_collateral m' = tracked_collateral m \<and> m_collateral_vault m' = m_collateral_vault m \<and>
    m_total_coll_surplus m' = m_total_coll_surplus m \<and> p_coll_surplus p' = p_coll_surplus p"
  using assms(1)
proof (cases rule: repay_Inr)
  case h: (idle m1 p1)
  show ?thesis
  proof (cases rule: position_opened [OF h(1,2)])
    case op: (1 x t)
    have "p_recorded_debt p = 0" using op(10) h(3) by simp
    moreover obtain s where "m' = m1\<lparr> m_total_stakes := m_total_stakes m1 - p_stake p1 + s \<rparr>" "p' = p1\<lparr> p_stake := s \<rparr>"
        "p_stake p1 \<le> m_total_stakes m1"
      using set_stake_Inr [OF h(4)] by metis
    ultimately show ?thesis
      using assms(3) h(3,5,6)
      by (intro exI [of _ 0]) (simp add: books_step_def op booked_supply_def tracked_collateral_def weight_def member_of_def)
  qed
next
  case h: (paid m1 p1 d m2 m3 p3)
  show ?thesis
  proof (cases rule: position_opened [OF h(3,4)])
    case op: (1 x t)
    note d = u128_supply.repay_identity [OF h(5)]
    have new: "rd_burn d = min amount (p_recorded_debt p1)" "p_recorded_debt p1 = rd_new_position_debt d + rd_burn d"
      "m_agg_recorded_debt m1 = rd_new_agg d + rd_burn d"
      using d(2-4) by (auto simp: of_nat_min [symmetric] simp del: of_nat_min)
    have n: "rd_burn d mod 2 ^ 64 = rd_burn d" using assms(4) new(1) by (simp add: min_less_iff_disj)
    show ?thesis
    proof (cases rule: position_closed [OF h(8,9)])
      case cl: (1 w s u)
      obtain a k where m': "m' = m3\<lparr> m_rl_accrued := a, m_rl_last_update := k \<rparr>"
        using h(10) by (cases "0 < m_rl_cap m3") (auto intro: that [where a = "m_rl_accrued m3" and k = "m_rl_last_update m3"])
      have b: "books_step m p bm m' p' bm'" "p' = p3\<lparr> p_bucket := p_bucket p' \<rparr>"
        by (rule books_stepI [OF assms(3) h(11)]; use cl in \<open>simp add: op m' weight_def\<close>)+
      have p': "p_coll_surplus p' = p_coll_surplus p" "p_recorded_debt p' = rd_new_position_debt d"
        by (subst b(2), simp add: cl(2) op)+
      have "p_recorded_debt p \<le> p_recorded_debt p' + rd_burn d" "rd_burn d \<le> amount" "rd_burn d < amount \<longrightarrow> p_recorded_debt p' = 0"
        using p'(2) new(1,2) op(10) by linarith+
      moreover have "booked_supply m' = booked_supply m - int (rd_burn d)"
        using new(3) by (simp add: m' cl(1) op(1) booked_supply_def)
      moreover have "p_recorded_debt p' = 0 \<or> m_min_debt m \<le> p_recorded_debt p'" using h(6) by (auto simp: p'(2) op(1))
      moreover have "tracked_collateral m' = tracked_collateral m" "m_collateral_vault m' = m_collateral_vault m"
        "m_total_coll_surplus m' = m_total_coll_surplus m"
        by (simp_all add: m' cl(1) op(1) tracked_collateral_def)
      ultimately show ?thesis
        using b(1) p'(1) burnD(3,6,7) [OF assms(2) h(7)] unfolding n by blast
    qed
  qed
qed

lemma adjust_rate_effect:
  assumes "adjust_rate_handler clk A new_rate_bps m p bm = Inr (m', p', bm')" "bitmap_ok bm"
  shows "books_step m p bm m' p' bm' \<and> booked_supply m' = booked_supply m \<and>
    tracked_collateral m' = tracked_collateral m \<and> m_collateral_vault m' = m_collateral_vault m \<and>
    m_total_coll_surplus m' = m_total_coll_surplus m \<and> p_coll_surplus p' = p_coll_surplus p \<and>
    p_user_rate_bps p' = new_rate_bps \<and> new_rate_bps \<in> {MIN_USER_RATE_BPS..MAX_USER_RATE_BPS} \<and> \<not> m_shutdown m"
  using assms(1)
proof (cases rule: adjust_rate_Inr)
  case h: (1 m1 p1 m2 p2 m3 p4)
  show ?thesis
  proof (cases rule: position_opened [OF h(5,6)])
    case op: (1 x t)
    obtain f where m2: "m2 = m1\<lparr> m_agg_recorded_debt := m_agg_recorded_debt m1 + f, m_unminted_interest := m_unminted_interest m1 + f \<rparr>"
      and p2: "p2 = p1\<lparr> p_recorded_debt := p_recorded_debt p1 + f \<rparr>"
    proof (cases rule: charge_premature_fee_Inr [OF h(7)])
      case 1
      then show thesis using that [of 0] by simp
    qed (use that in blast)
    show ?thesis
    proof (cases rule: position_closed [OF h(8,9)])
      case cl: (1 w s u)
      have b: "books_step m p bm m' p' bm'" "p' = p4\<lparr> p_bucket := p_bucket p' \<rparr>"
        by (rule books_stepI [OF assms(2) h(10)]; use cl in \<open>simp add: op m2 p2 weight_def\<close>)+
      have "p_coll_surplus p' = p_coll_surplus p" "p_user_rate_bps p' = new_rate_bps"
        by (subst b(2), simp add: cl(2) p2 op)+
      then show ?thesis
        using b(1) h(2-4) by (simp add: cl(1) m2 op(1) booked_supply_def tracked_collateral_def)
    qed
  qed
qed

end
