(* ===== verification/Market_Ops.thy ===== *)
theory Market_Ops
  imports Cdp_Ops
begin

text \<open>
  The instructions on a market that no borrower needs to sign: claiming a surplus, settling bad debt,
  shutting down, funding the buffer, minting accrued interest and taking out protocol collateral.
  Under \<^verbatim>\<open>programs/fusd-core/src/instructions\<close>: \<^verbatim>\<open>claim_coll_surplus.rs\<close>, \<^verbatim>\<open>settle_bad_debt.rs\<close>,
  \<^verbatim>\<open>shutdown.rs\<close>, \<^verbatim>\<open>fund_buffer.rs\<close>, \<^verbatim>\<open>refresh_market.rs\<close>, \<^verbatim>\<open>withdraw_surplus.rs\<close> and
  \<^verbatim>\<open>sweep_protocol_collateral.rs\<close>.
\<close>

record market_accounts =
  ma_signer :: pubkey
  ma_collateral_mint :: pubkey
  ma_market :: pubkey
  ma_market_coll_vault :: pubkey
  ma_recipient :: pubkey
  ma_fusd_mint :: pubkey
  ma_mint_authority :: pubkey
  ma_signer_fusd_ata :: pubkey
  ma_buffer_fusd_vault :: pubkey
  ma_cranker_fusd_ata :: "pubkey option"
  ma_backstop_fusd_vault :: "pubkey option"

subsection \<open>Handlers\<close>

definition claim_coll_surplus_handler ::
    "'l runtime \<Rightarrow> cdp_accounts \<Rightarrow> 'l \<Rightarrow> market \<Rightarrow> position \<Rightarrow> ('l \<times> market \<times> position) res" where
  "claim_coll_surplus_handler T A l m p =
     bindR (constraint (m_collateral_vault m = ca_collateral_vault A)) (\<lambda>_.
     bindR (constraint (p_owner p = ca_owner A)) (\<lambda>_.
     bindR (constraint (tk_mint T l (ca_owner_collateral_ata A) = ca_collateral_mint A)) (\<lambda>_.
     bindR (constraint (tk_owner T l (ca_owner_collateral_ata A) = ca_owner A)) (\<lambda>_.
     bindR (require (p_coll_surplus p > 0) NoCollateralSurplus) (\<lambda>_.
     bindR (cpi (tk_transfer T l (ca_collateral_vault A) (ca_owner_collateral_ata A) (ca_market A) (p_coll_surplus p))) (\<lambda>l.
     bindR (math (checked_sub (m_total_coll_surplus m) (p_coll_surplus p))) (\<lambda>total_coll_surplus.
     let m = m\<lparr> m_total_coll_surplus := total_coll_surplus \<rparr> in
     bindR (assert_collateral_vault_sufficiency T l (ca_collateral_vault A) m) (\<lambda>_.
     Inr (l, m, p\<lparr> p_coll_surplus := 0 \<rparr>)))))))))"

definition settle_bad_debt_handler ::
    "'l runtime \<Rightarrow> market_accounts \<Rightarrow> nat \<Rightarrow> 'l \<Rightarrow> governance_gate \<Rightarrow> market \<Rightarrow> ('l \<times> market) res" where
  "settle_bad_debt_handler T A amount l gate m =
     bindR (constraint (tk_mint T l (ma_signer_fusd_ata A) = ma_fusd_mint A)) (\<lambda>_.
     bindR (constraint (tk_owner T l (ma_signer_fusd_ata A) = ma_signer A)) (\<lambda>_.
     bindR (require (ma_signer A = gg_inbound_authority gate) Unauthorized) (\<lambda>_.
     bindR (require (amount > 0) ZeroAmount) (\<lambda>_.
     bindR (require (amount \<le> m_bad_debt m) InsufficientProtocolCollateral) (\<lambda>_.
     bindR (cpi (tk_burn T l (ma_fusd_mint A) (ma_signer_fusd_ata A) (ma_signer A) amount)) (\<lambda>l.
     bindR (math (st_settle_bad_debt u128_num (m_bad_debt m) amount)) (\<lambda>bad_debt.
     Inr (l, m\<lparr> m_bad_debt := bad_debt \<rparr>))))))))"

definition shutdown_handler :: "clock \<Rightarrow> market \<Rightarrow> market res" where
  "shutdown_handler clk m =
     bindR (require (\<not> m_shutdown m) MarketShutdown) (\<lambda>_.
     bindR (accrue m (unix_timestamp clk)) (\<lambda>m.
     let staleness = clock_slot clk - m_spot_updated_slot m;
         oracle_failed = (m_spot m > 0 \<and> staleness > SHUTDOWN_ORACLE_STALENESS_SLOTS);
         tcr_breach = (m_spot m > 0 \<and> staleness \<le> MAX_PRICE_STALENESS_SLOTS \<and>
                       tcr_below (m_total_collateral m) (m_agg_recorded_debt m) (m_spot m) (m_scr_bps m)) in
     bindR (require (oracle_failed \<or> tcr_breach) ShutdownConditionNotMet) (\<lambda>_.
     Inr (m\<lparr> m_shutdown := True,
             m_shutdown_reason := (if oracle_failed then SHUTDOWN_REASON_ORACLE_FAILURE else SHUTDOWN_REASON_SCR) \<rparr>))))"

definition fund_buffer_handler ::
    "'l runtime \<Rightarrow> market_accounts \<Rightarrow> nat \<Rightarrow> 'l \<Rightarrow> insurance_buffer \<Rightarrow> ('l \<times> insurance_buffer) res" where
  "fund_buffer_handler T A amount l b =
     bindR (constraint (ma_buffer_fusd_vault A = ib_fusd_vault b)) (\<lambda>_.
     bindR (constraint (tk_mint T l (ma_signer_fusd_ata A) = ma_fusd_mint A)) (\<lambda>_.
     bindR (constraint (tk_owner T l (ma_signer_fusd_ata A) = ma_signer A)) (\<lambda>_.
     bindR (require (amount > 0) ZeroAmount) (\<lambda>_.
     bindR (cpi (tk_transfer T l (ma_signer_fusd_ata A) (ma_buffer_fusd_vault A) (ma_signer A) amount)) (\<lambda>l.
     bindR (math (checked_add 128 (ib_total_funded b) amount)) (\<lambda>total_funded.
     Inr (l, b\<lparr> ib_total_funded := total_funded \<rparr>)))))))"

text \<open>Minting one share of the interest, when there is any; the target is unwrapped.\<close>

definition mint_share :: "'l runtime \<Rightarrow> market_accounts \<Rightarrow> 'l \<Rightarrow> pubkey option \<Rightarrow> nat \<Rightarrow> 'l res" where
  "mint_share T A l target n =
     (if n > 0
      then (case target of
              None \<Rightarrow> Inl Panic
            | Some a \<Rightarrow> cpi (tk_mint_to T l (ma_fusd_mint A) a (ma_mint_authority A) (n mod 2 ^ 64)))
      else Inr l)"

definition backstop_headroom ::
    "'l runtime \<Rightarrow> 'l \<Rightarrow> pubkey option \<Rightarrow> global_backstop_reserve option \<Rightarrow> (nat \<times> nat) res" where
  "backstop_headroom T l vault backstop =
     (case (backstop, vault) of
        (Some bs, Some v) \<Rightarrow>
          bindR (require (v = gb_fusd_vault bs) InvalidRecipient) (\<lambda>_.
          Inr (gb_cut_bps bs, gb_reserve_cap bs - tk_amount T l v))
      | _ \<Rightarrow> Inr (0, 0))"

definition refresh_market_handler ::
    "'l runtime \<Rightarrow> clock \<Rightarrow> market_accounts \<Rightarrow> 'l \<Rightarrow> market \<Rightarrow> insurance_buffer \<Rightarrow> global_backstop_reserve option \<Rightarrow>
     ('l \<times> market \<times> insurance_buffer \<times> global_backstop_reserve option) res" where
  "refresh_market_handler T clk A l m b backstop =
     bindR (constraint (ma_buffer_fusd_vault A = ib_fusd_vault b)) (\<lambda>_.
     bindR (constraint (case ma_cranker_fusd_ata A of None \<Rightarrow> True | Some a \<Rightarrow> tk_mint T l a = ma_fusd_mint A)) (\<lambda>_.
     bindR (accrue m (unix_timestamp clk)) (\<lambda>m.
     if m_unminted_interest m = 0 then Inr (l, m, b, backstop)
     else
     bindR (backstop_headroom T l (ma_backstop_fusd_vault A) backstop) (\<lambda>(cut_bps, headroom).
     bindR (math (st_refresh u128_num (m_unminted_interest m) (m_bad_debt m)
              (if ma_cranker_fusd_ata A \<noteq> None then m_keeper_reward_bps m else 0)
              (m_bad_debt_paydown_bps m) cut_bps headroom)) (\<lambda>d.
     bindR (mint_share T A l (Some (ma_buffer_fusd_vault A)) (rf_buffer_amount d)) (\<lambda>l.
     bindR (mint_share T A l (ma_cranker_fusd_ata A) (rf_keeper_cut d)) (\<lambda>l.
     bindR (mint_share T A l (ma_backstop_fusd_vault A) (rf_backstop_cut d)) (\<lambda>l.
     bindR (if rf_backstop_cut d > 0
            then bindR (math (checked_add 128 (m_global_contributed m) (rf_backstop_cut d))) (\<lambda>contributed.
                 case backstop of
                   None \<Rightarrow> Inl Panic
                 | Some bs \<Rightarrow> bindR (math (checked_add 128 (gb_total_contributed bs) (rf_backstop_cut d))) (\<lambda>total_contributed.
                     Inr (m\<lparr> m_global_contributed := contributed \<rparr>, Some (bs\<lparr> gb_total_contributed := total_contributed \<rparr>))))
            else Inr (m, backstop)) (\<lambda>(m, backstop).
     bindR (math (checked_add 128 (ib_total_funded b) (rf_buffer_amount d))) (\<lambda>total_funded.
     Inr (l, m\<lparr> m_bad_debt := rf_new_bad d, m_unminted_interest := rf_new_unminted d \<rparr>,
          b\<lparr> ib_total_funded := total_funded \<rparr>, backstop)))))))))))"

definition withdraw_surplus_handler ::
    "'l runtime \<Rightarrow> market_accounts \<Rightarrow> nat \<Rightarrow> 'l \<Rightarrow> governance_gate \<Rightarrow> market \<Rightarrow> ('l \<times> market) res" where
  "withdraw_surplus_handler T A amount l gate m =
     bindR (constraint (ma_market_coll_vault A = m_collateral_vault m)) (\<lambda>_.
     bindR (constraint (tk_mint T l (ma_recipient A) = ma_collateral_mint A)) (\<lambda>_.
     bindR (require (ma_recipient A \<noteq> m_collateral_vault m) InvalidRecipient) (\<lambda>_.
     bindR (require (ma_signer A = gg_inbound_authority gate) Unauthorized) (\<lambda>_.
     bindR (require (amount > 0) ZeroAmount) (\<lambda>_.
     bindR (require (amount \<le> m_surplus_collateral m) InsufficientProtocolCollateral) (\<lambda>_.
     let m = m\<lparr> m_surplus_collateral := m_surplus_collateral m - amount \<rparr> in
     bindR (cpi (tk_transfer T l (ma_market_coll_vault A) (ma_recipient A) (ma_market A) amount)) (\<lambda>l.
     bindR (assert_collateral_vault_sufficiency T l (ma_market_coll_vault A) m) (\<lambda>_.
     Inr (l, m)))))))))"

definition sweep_protocol_collateral_handler ::
    "'l runtime \<Rightarrow> market_accounts \<Rightarrow> nat \<Rightarrow> 'l \<Rightarrow> governance_gate \<Rightarrow> market \<Rightarrow> ('l \<times> market) res" where
  "sweep_protocol_collateral_handler T A amount l gate m =
     bindR (constraint (ma_market_coll_vault A = m_collateral_vault m)) (\<lambda>_.
     bindR (constraint (tk_mint T l (ma_recipient A) = ma_collateral_mint A)) (\<lambda>_.
     bindR (require (ma_recipient A \<noteq> m_collateral_vault m) InvalidRecipient) (\<lambda>_.
     bindR (require (ma_signer A = gg_inbound_authority gate) Unauthorized) (\<lambda>_.
     bindR (require (amount > 0) ZeroAmount) (\<lambda>_.
     bindR (require (amount \<le> m_protocol_collateral m) InsufficientProtocolCollateral) (\<lambda>_.
     let m = m\<lparr> m_protocol_collateral := m_protocol_collateral m - amount \<rparr> in
     bindR (cpi (tk_transfer T l (ma_market_coll_vault A) (ma_recipient A) (ma_market A) amount)) (\<lambda>l.
     bindR (assert_collateral_vault_sufficiency T l (ma_market_coll_vault A) m) (\<lambda>_.
     Inr (l, m)))))))))"

subsection \<open>Effects\<close>

lemma claim_surplus_effect:
  assumes "claim_coll_surplus_handler T A l m p = Inr (l', m', p')" "token_laws T"
  shows "p_owner p = ca_owner A" "m_collateral_vault m = ca_collateral_vault A"
    "tk_transfer T l (m_collateral_vault m) (ca_owner_collateral_ata A) (ca_market A) (p_coll_surplus p) = Some l'"
    "tk_owner T l (ca_owner_collateral_ata A) = ca_owner A"
    "m' = m\<lparr> m_total_coll_surplus := m_total_coll_surplus m - p_coll_surplus p \<rparr>" "p_coll_surplus p \<le> m_total_coll_surplus m"
    "p' = p\<lparr> p_coll_surplus := 0 \<rparr>" "tracked_collateral m' \<le> tk_amount T l' (m_collateral_vault m)"
    "tracked_collateral m' + p_coll_surplus p = tracked_collateral m" "0 < p_coll_surplus p"
  using assms unfolding claim_coll_surplus_handler_def Let_def handler_Inr assert_sufficiency_Inr
  by (auto simp: tracked_collateral_def)

lemma settle_effect:
  assumes "settle_bad_debt_handler T A amount l gate m = Inr (l', m')" "token_laws T"
  shows "ma_signer A = gg_inbound_authority gate" "tk_owner T l (ma_signer_fusd_ata A) = ma_signer A"
    "tk_burn T l (ma_fusd_mint A) (ma_signer_fusd_ata A) (ma_signer A) amount = Some l'"
    "m' = m\<lparr> m_bad_debt := m_bad_debt m - amount \<rparr>" "amount \<le> m_bad_debt m" "0 < amount"
proof -
  obtain b where "st_settle_bad_debt u128_num (m_bad_debt m) amount = Some b" "m' = m\<lparr> m_bad_debt := b \<rparr>"
    "ma_signer A = gg_inbound_authority gate" "tk_owner T l (ma_signer_fusd_ata A) = ma_signer A"
    "tk_burn T l (ma_fusd_mint A) (ma_signer_fusd_ata A) (ma_signer A) amount = Some l'" "amount \<le> m_bad_debt m" "0 < amount"
    using assms(1) unfolding settle_bad_debt_handler_def handler_Inr by blast
  then show "ma_signer A = gg_inbound_authority gate" "tk_owner T l (ma_signer_fusd_ata A) = ma_signer A"
    "tk_burn T l (ma_fusd_mint A) (ma_signer_fusd_ata A) (ma_signer A) amount = Some l'"
    "m' = m\<lparr> m_bad_debt := m_bad_debt m - amount \<rparr>" "amount \<le> m_bad_debt m" "0 < amount"
    by (auto simp: st_settle_bad_debt_def u128_num_def num_simps)
qed

lemma shutdown_effect:
  assumes "shutdown_handler clk m = Inr m'"
  obtains x t r where "\<not> m_shutdown m"
    "m' = m\<lparr> m_agg_recorded_debt := m_agg_recorded_debt m + x, m_unminted_interest := m_unminted_interest m + x,
       m_last_update_ts := t, m_shutdown := True, m_shutdown_reason := r \<rparr>"
    "r \<in> {SHUTDOWN_REASON_ORACLE_FAILURE, SHUTDOWN_REASON_SCR}" "0 < m_spot m"
    "SHUTDOWN_ORACLE_STALENESS_SLOTS < clock_slot clk - m_spot_updated_slot m \<or>
     clock_slot clk - m_spot_updated_slot m \<le> MAX_PRICE_STALENESS_SLOTS \<and>
     tcr_below (m_total_collateral m) (m_agg_recorded_debt m') (m_spot m) (m_scr_bps m)"
proof -
  obtain m1 where a: "accrue m (unix_timestamp clk) = Inr m1" and n: "\<not> m_shutdown m"
    and r: "m_spot m1 > 0 \<and> clock_slot clk - m_spot_updated_slot m1 > SHUTDOWN_ORACLE_STALENESS_SLOTS \<or>
      m_spot m1 > 0 \<and> clock_slot clk - m_spot_updated_slot m1 \<le> MAX_PRICE_STALENESS_SLOTS \<and>
      tcr_below (m_total_collateral m1) (m_agg_recorded_debt m1) (m_spot m1) (m_scr_bps m1)"
    and m': "m' = m1\<lparr> m_shutdown := True, m_shutdown_reason :=
      (if m_spot m1 > 0 \<and> clock_slot clk - m_spot_updated_slot m1 > SHUTDOWN_ORACLE_STALENESS_SLOTS
       then SHUTDOWN_REASON_ORACLE_FAILURE else SHUTDOWN_REASON_SCR) \<rparr>"
    using assms unfolding shutdown_handler_def Let_def handler_Inr by blast
  show thesis
  proof (rule accrue_Inr [OF a])
    fix x t
    assume m1: "m1 = m\<lparr> m_agg_recorded_debt := m_agg_recorded_debt m + x,
      m_unminted_interest := m_unminted_interest m + x, m_last_update_ts := t \<rparr>"
    show thesis
      by (rule that [where x = x and t = t and r = "m_shutdown_reason m'"]) (use n r in \<open>auto simp: m' m1\<close>)
  qed
qed

lemma fund_buffer_effect:
  assumes "fund_buffer_handler T A amount l b = Inr (l', b')"
  shows "tk_transfer T l (ma_signer_fusd_ata A) (ib_fusd_vault b) (ma_signer A) amount = Some l'"
    "tk_owner T l (ma_signer_fusd_ata A) = ma_signer A" "b' = b\<lparr> ib_total_funded := ib_total_funded b + amount \<rparr>"
  using assms unfolding fund_buffer_handler_def handler_Inr by auto

lemma withdraw_surplus_effect:
  assumes "withdraw_surplus_handler T A amount l gate m = Inr (l', m')"
  shows "ma_signer A = gg_inbound_authority gate" "ma_recipient A \<noteq> m_collateral_vault m"
    "tk_transfer T l (m_collateral_vault m) (ma_recipient A) (ma_market A) amount = Some l'"
    "m' = m\<lparr> m_surplus_collateral := m_surplus_collateral m - amount \<rparr>"
    "tracked_collateral m' + amount = tracked_collateral m" "tracked_collateral m' \<le> tk_amount T l' (m_collateral_vault m)"
  using assms unfolding withdraw_surplus_handler_def Let_def handler_Inr assert_sufficiency_Inr
  by (auto simp: tracked_collateral_def)

lemma sweep_effect:
  assumes "sweep_protocol_collateral_handler T A amount l gate m = Inr (l', m')"
  shows "ma_signer A = gg_inbound_authority gate" "ma_recipient A \<noteq> m_collateral_vault m"
    "tk_transfer T l (m_collateral_vault m) (ma_recipient A) (ma_market A) amount = Some l'"
    "m' = m\<lparr> m_protocol_collateral := m_protocol_collateral m - amount \<rparr>"
    "tracked_collateral m' + amount = tracked_collateral m" "tracked_collateral m' \<le> tk_amount T l' (m_collateral_vault m)"
  using assms unfolding sweep_protocol_collateral_handler_def Let_def handler_Inr assert_sufficiency_Inr
  by (auto simp: tracked_collateral_def)

text \<open>Tokens were minted, and only minted, to the given total.\<close>

definition minted :: "'l runtime \<Rightarrow> pubkey \<Rightarrow> nat \<Rightarrow> 'l \<Rightarrow> 'l \<Rightarrow> bool" where
  "minted T mint n l l' \<longleftrightarrow> tk_supply T l' = (tk_supply T l)(mint := tk_supply T l mint + n) \<and>
     tk_mint T l' = tk_mint T l \<and> tk_owner T l' = tk_owner T l \<and> (\<forall>a. tk_amount T l a \<le> tk_amount T l' a)"

lemma minted_trans: "minted T mint n l l1 \<Longrightarrow> minted T mint k l1 l2 \<Longrightarrow> minted T mint (n + k) l l2"
  by (auto simp: minted_def intro: order_trans)

lemma minted_0: "minted T mint 0 l l"
  by (simp add: minted_def)

lemma mint_share_minted:
  assumes "mint_share T A l target n = Inr l'" "token_laws T" "n < 2 ^ 64"
  shows "minted T (ma_fusd_mint A) n l l'"
proof (cases "n = 0")
  case True
  then show ?thesis using assms(1) by (simp add: mint_share_def minted_0)
next
  case False
  then obtain a where "tk_mint_to T l (ma_fusd_mint A) a (ma_mint_authority A) (n mod 2 ^ 64) = Some l'"
    using assms(1) by (auto simp: mint_share_def ok_or_Inr split: option.splits)
  then have "tk_mint_to T l (ma_fusd_mint A) a (ma_mint_authority A) n = Some l'" using assms(3) by simp
  from mint_toD(2-5) [OF assms(2) this] show ?thesis by (simp add: minted_def)
qed

lemma refresh_amount:
  assumes "st_refresh u128_num pending bad kb pb bb head = Some d"
  shows "rf_amount d = min pending (2 ^ 64 - 1)"
  using assms unfolding st_refresh_def Let_def case_option_Some option.inject
  by clarify (simp add: u128_num_def)

lemma contribute_step:
  assumes "(if n > 0
            then bindR (math (checked_add 128 (m_global_contributed m) n)) (\<lambda>contributed.
                 case bs of
                   None \<Rightarrow> Inl Panic
                 | Some bs \<Rightarrow> bindR (math (checked_add 128 (gb_total_contributed bs) n)) (\<lambda>total_contributed.
                     Inr (m\<lparr> m_global_contributed := contributed \<rparr>, Some (bs\<lparr> gb_total_contributed := total_contributed \<rparr>))))
            else Inr (m, bs)) = Inr (m', bs')"
  obtains c where "m' = m\<lparr> m_global_contributed := c \<rparr>" "map_option gb_fusd_vault bs' = map_option gb_fusd_vault bs"
proof (cases "n > 0")
  case True
  show thesis
  proof (cases bs)
    case None
    then show thesis using assms True by (simp add: bindR_Inr)
  next
    case (Some r)
    show thesis
      using assms unfolding if_P [OF True] Some option.case handler_Inr
      by clarify (rule that, assumption, simp add: Some)
  qed
next
  case False
  then show thesis using assms that [of "m_global_contributed m"] by simp
qed

lemma refresh_effect:
  assumes "refresh_market_handler T clk A l m b bs = Inr (l', m', b', bs')" "token_laws T"
  obtains n x t u g d where "minted T (ma_fusd_mint A) n l l'"
    "m' = m\<lparr> m_agg_recorded_debt := m_agg_recorded_debt m + x, m_unminted_interest := u, m_last_update_ts := t,
       m_bad_debt := d, m_global_contributed := g \<rparr>"
    "booked_supply m' = booked_supply m + int n" "d \<le> m_bad_debt m" "ib_fusd_vault b' = ib_fusd_vault b"
    "map_option gb_fusd_vault bs' = map_option gb_fusd_vault bs"
proof -
  obtain m1 where a: "accrue m (unix_timestamp clk) = Inr m1"
    and rest: "(if m_unminted_interest m1 = 0 then Inr (l, m1, b, bs)
     else
     bindR (backstop_headroom T l (ma_backstop_fusd_vault A) bs) (\<lambda>(cut_bps, headroom).
     bindR (math (st_refresh u128_num (m_unminted_interest m1) (m_bad_debt m1)
              (if ma_cranker_fusd_ata A \<noteq> None then m_keeper_reward_bps m1 else 0)
              (m_bad_debt_paydown_bps m1) cut_bps headroom)) (\<lambda>d.
     bindR (mint_share T A l (Some (ma_buffer_fusd_vault A)) (rf_buffer_amount d)) (\<lambda>l.
     bindR (mint_share T A l (ma_cranker_fusd_ata A) (rf_keeper_cut d)) (\<lambda>l.
     bindR (mint_share T A l (ma_backstop_fusd_vault A) (rf_backstop_cut d)) (\<lambda>l.
     bindR (if rf_backstop_cut d > 0
            then bindR (math (checked_add 128 (m_global_contributed m1) (rf_backstop_cut d))) (\<lambda>contributed.
                 case bs of
                   None \<Rightarrow> Inl Panic
                 | Some bs \<Rightarrow> bindR (math (checked_add 128 (gb_total_contributed bs) (rf_backstop_cut d))) (\<lambda>total_contributed.
                     Inr (m1\<lparr> m_global_contributed := contributed \<rparr>, Some (bs\<lparr> gb_total_contributed := total_contributed \<rparr>))))
            else Inr (m1, bs)) (\<lambda>(m, bs).
     bindR (math (checked_add 128 (ib_total_funded b) (rf_buffer_amount d))) (\<lambda>total_funded.
     Inr (l, m\<lparr> m_bad_debt := rf_new_bad d, m_unminted_interest := rf_new_unminted d \<rparr>,
          b\<lparr> ib_total_funded := total_funded \<rparr>, bs))))))))) = Inr (l', m', b', bs')"
    using assms(1) unfolding refresh_market_handler_def bindR_Inr [where y = "(l', m', b', bs')"]
    by clarify (rule that; assumption)
  obtain x t where m1: "m1 = m\<lparr> m_agg_recorded_debt := m_agg_recorded_debt m + x,
      m_unminted_interest := m_unminted_interest m + x, m_last_update_ts := t \<rparr>"
    using accrue_Inr [OF a] by metis
  show thesis
  proof (cases "m_unminted_interest m1 = 0")
    case True
    then have "l' = l" "m' = m1" "b' = b" "bs' = bs" using rest by simp_all
    then show thesis
      using that [where n = 0 and x = x and t = t and u = "m_unminted_interest m + x" and g = "m_global_contributed m" and d = "m_bad_debt m"]
      by (simp add: minted_0 m1 booked_supply_def)
  next
    case False
    obtain cut head d l1 l2 m2 bs2 where
      d: "st_refresh u128_num (m_unminted_interest m1) (m_bad_debt m1)
              (if ma_cranker_fusd_ata A \<noteq> None then m_keeper_reward_bps m1 else 0)
              (m_bad_debt_paydown_bps m1) cut head = Some d"
      and s: "mint_share T A l (Some (ma_buffer_fusd_vault A)) (rf_buffer_amount d) = Inr l1"
        "mint_share T A l1 (ma_cranker_fusd_ata A) (rf_keeper_cut d) = Inr l2"
        "mint_share T A l2 (ma_backstop_fusd_vault A) (rf_backstop_cut d) = Inr l'"
      and g: "(if rf_backstop_cut d > 0
            then bindR (math (checked_add 128 (m_global_contributed m1) (rf_backstop_cut d))) (\<lambda>contributed.
                 case bs of
                   None \<Rightarrow> Inl Panic
                 | Some bs \<Rightarrow> bindR (math (checked_add 128 (gb_total_contributed bs) (rf_backstop_cut d))) (\<lambda>total_contributed.
                     Inr (m1\<lparr> m_global_contributed := contributed \<rparr>, Some (bs\<lparr> gb_total_contributed := total_contributed \<rparr>))))
            else Inr (m1, bs)) = Inr (m2, bs2)"
      and m': "m' = m2\<lparr> m_bad_debt := rf_new_bad d, m_unminted_interest := rf_new_unminted d \<rparr>" "ib_fusd_vault b' = ib_fusd_vault b" "bs' = bs2"
      using rest unfolding if_not_P [OF False] bindR_Inr [where y = "(l', m', b', bs')"] case_prod_Inr ok_or_Inr sum.inject prod.inject
      by clarify (rule that; (assumption | simp))
    obtain c where m2: "m2 = m1\<lparr> m_global_contributed := c \<rparr>" and bs2: "map_option gb_fusd_vault bs2 = map_option gb_fusd_vault bs"
      by (rule contribute_step [OF g])
    note r = u128_supply.refresh_identity [OF d]
    let ?n = "rf_buffer_amount d + rf_keeper_cut d + rf_backstop_cut d"
    have am: "rf_amount d < 2 ^ 64" using refresh_amount [OF d] by simp
    have small: "rf_buffer_amount d < 2 ^ 64" "rf_keeper_cut d < 2 ^ 64" "rf_backstop_cut d < 2 ^ 64"
      using r(2) am by linarith+
    have mi: "minted T (ma_fusd_mint A) ?n l l'"
      using mint_share_minted [OF s(1) assms(2) small(1)] mint_share_minted [OF s(2) assms(2) small(2)]
        mint_share_minted [OF s(3) assms(2) small(3)] by (blast intro: minted_trans)
    show thesis
    proof (rule that [OF mi, where x = x and t = t and u = "rf_new_unminted d" and g = c and d = "rf_new_bad d"])
      show "m' = m\<lparr> m_agg_recorded_debt := m_agg_recorded_debt m + x, m_unminted_interest := rf_new_unminted d, m_last_update_ts := t,
         m_bad_debt := rf_new_bad d, m_global_contributed := c \<rparr>" by (simp add: m'(1) m2 m1)
      have "int (m_agg_recorded_debt m1) - int (rf_new_unminted d) + int (rf_new_bad d) =
          int (m_agg_recorded_debt m1) - int (m_unminted_interest m1) + int (m_bad_debt m1) + int ?n"
        using r(1) [of "m_agg_recorded_debt m1"] by (simp add: u128_supply.circulating_def)
      then show "booked_supply m' = booked_supply m + int ?n" by (simp add: booked_supply_def m'(1) m2 m1)
      show "rf_new_bad d \<le> m_bad_debt m" using r(4,5) by (simp add: m1)
    qed (use m' bs2 in simp_all)
  qed
qed

end
