(* ===== verification/Cdp_Safety.thy ===== *)
theory Cdp_Safety
  imports Market_Ops
begin

text \<open>
  What the borrower instructions guarantee, with a concrete run on which they are evaluated.
\<close>

subsection \<open>A concrete run\<close>

text \<open>
  A market at price two with one position of a thousand units of collateral: the owner borrows 700,
  withdraws 100 and repays 300.
\<close>

definition accounts0 :: cdp_accounts where
  "accounts0 = \<lparr> ca_owner = 5, ca_collateral_mint = 1, ca_market = 3, ca_position = 4, ca_owner_collateral_ata = 7,
     ca_collateral_vault = 2, ca_fusd_mint = 8, ca_mint_authority = 9, ca_owner_fusd_ata = 10 \<rparr>"

definition clock0 :: clock where
  "clock0 = \<lparr> unix_timestamp = 0, clock_slot = 0 \<rparr>"

definition ledger0 :: "nat \<Rightarrow> ledger" where
  "ledger0 n = \<lparr> lg_amount = (\<lambda>_. 0)(2 := 1000, 10 := n), lg_mint = (\<lambda>_. 0)(2 := 1, 7 := 1, 10 := 8),
     lg_owner = (\<lambda>_. 0)(2 := 3, 7 := 5, 10 := 5), lg_supply = (\<lambda>_. 0)(8 := n), lg_lamports = (\<lambda>_. 0) \<rparr>"

definition market1 :: "nat \<Rightarrow> market" where
  "market1 debt = market0\<lparr> m_spot := 2 * RAY, m_total_collateral := 1000, m_total_stakes := 1000,
     m_agg_recorded_debt := debt, m_agg_weighted_debt_sum := debt * 500 \<rparr>"

definition position1 :: "nat \<Rightarrow> position" where
  "position1 debt = position0\<lparr> p_ink := 1000, p_stake := 1000, p_recorded_debt := debt, p_bucket := (if debt = 0 then 0 else 50) \<rparr>"

definition bitmap50 :: redemption_bitmap where
  "bitmap50 = \<lparr> bm_words = [2 ^ 50, 0, 0, 0], bm_counts = (replicate 256 0)[50 := 1], bm_zombie_count = 0 \<rparr>"

lemmas scenario_defs = accounts0_def clock0_def ledger0_def market1_def position1_def market0_def position0_def
  ledger_runtime_def

lemma target50:
  assumes "p_recorded_debt p > 0" "p_ink p > 0" "m_min_debt m = 0" "p_user_rate_bps p = 500" "m_bucket_width_bps m = 10"
  shows "bucket_target m p = Inr (Some 50)"
  using assms by (simp add: bucket_target_def bucket_for_def bucket_of_def sub_or_panic_def checked_sub_def ZOMBIE_BUCKET_eq)

lemma replicate4: "replicate 4 (0::64 word) = [0, 0, 0, 0]"
  by (simp add: numeral_eq_Suc)

lemma reconcile_bitmap0:
  assumes "p_recorded_debt p > 0" "p_ink p > 0" "m_min_debt m = 0" "p_user_rate_bps p = 500" "m_bucket_width_bps m = 10"
  shows "reconcile bitmap0 m p 0 = Inr (bitmap50, p\<lparr> p_bucket := 50 \<rparr>)"
  using target50 [OF assms]
  by (simp add: reconcile_def add_member_def bitmap0_def bitmap50_def ZOMBIE_BUCKET_eq checked_add_def bm_set_def
      and_63 drop_6 push_bit_eq_mult replicate4)

lemma reconcile_bitmap50:
  assumes "p_recorded_debt p > 0" "p_ink p > 0" "m_min_debt m = 0" "p_user_rate_bps p = 500" "m_bucket_width_bps m = 10"
    and "p_bucket p = 50" "0 < d"
  shows "reconcile bm m p d = Inr (bm, p)"
  using target50 [OF assms(1-5)] assms(6,7) by (simp add: reconcile_def)

lemma bitmap50_ok: "bitmap_ok bitmap50"
proof -
  let ?p = "position1 700"
  have "reconcile bitmap0 (market1 0) ?p 0 = Inr (bitmap50, ?p\<lparr> p_bucket := 50 \<rparr>)"
    by (rule reconcile_bitmap0) (simp_all add: scenario_defs)
  then show ?thesis using reconcile_Inr [OF _ bitmap0_ok] by metis
qed

lemma mult_500: "d < 1000000 \<Longrightarrow> d * 500 < (2::nat) ^ 128"
  by simp

lemma open0:
  assumes "d < 1000000"
  shows "weighted (position1 d) = Inr (d * 500)" "accrue (market1 d) 0 = Inr (market1 d)"
    "realize (market1 d) (position1 d) 0 = Inr (position1 d)"
proof -
  show "weighted (position1 d) = Inr (d * 500)"
    using assms by (simp add: weighted_Inr position1_def position0_def)
  show "accrue (market1 d) 0 = Inr (market1 d)"
    by (simp add: accrue_def market1_def market0_def i64_sat_def)
  have "accrued_interest d 500 0 = Some 0"
    using assms by (simp add: accrued_interest_def weighted_debt_def checked_mul_def mul_div_floor_def wide_mul_div_eq is_u128_def
        INTEREST_DENOM_def SECONDS_PER_YEAR_def INTEREST_RATE_DENOM_def)
  then show "realize (market1 d) (position1 d) 0 = Inr (position1 d)"
    using assms by (simp add: realize_def scenario_defs i64_sat_def pending_of_position_def redist_pending_def pending_one_def
       redist_of_market_def redist_snapshot_of_position_def checked_add_def roll_snapshot_def)
qed
lemma stake0:
  assumes "d < 1000000" "d' < 1000000"
  shows "reweight (market1 d\<lparr> m_agg_recorded_debt := d' \<rparr>) (position1 d') (d * 500) = Inr (market1 d')"
    "set_stake (market1 d') (position1 d') = Inr (market1 d', position1 d')"
proof -
  show "reweight (market1 d\<lparr> m_agg_recorded_debt := d' \<rparr>) (position1 d') (d * 500) = Inr (market1 d')"
    using assms by (simp add: reweight_Inr scenario_defs)
  show "set_stake (market1 d') (position1 d') = Inr (market1 d', position1 d')"
    by (simp add: set_stake_def compute_stake_def scenario_defs checked_sub_def checked_add_def)
qed

lemma healthy0: "n \<le> 1000 \<Longrightarrow> d \<le> n * 2 * 10000 div 11000 \<Longrightarrow> is_healthy n d (2 * RAY) 11000"
  by (subst is_healthy_iff) (auto simp: RAY_def BPS_def less_eq_div_iff_mult_less_eq)

lemma market1_sel:
  "\<not> m_shutdown (market1 d)" "m_liq_infra_flags (market1 d) = 7" "m_spot (market1 d) = 2 * RAY" "\<not> m_mint_frozen (market1 d)"
  "m_guardian_paused_until (market1 d) = 0" "m_spot_updated_slot (market1 d) = 0" "m_borrow_fee_bps (market1 d) = 0"
  "m_agg_recorded_debt (market1 d) = d" "m_unminted_interest (market1 d) = 0" "m_mcr_bps (market1 d) = 11000"
  "m_min_debt (market1 d) = 0" "m_debt_ceiling (market1 d) = 1000000000000" "m_ccr_bps (market1 d) = 0" "m_rl_cap (market1 d) = 0"
  "m_collateral_vault (market1 d) = 2" "m_total_collateral (market1 d) = 1000" "m_reserve_lamports (market1 d) = 20000000"
  by (simp_all add: market1_def market0_def)

lemma position1_sel:
  "p_owner (position1 d) = 5" "p_recorded_debt (position1 d) = d" "p_ink (position1 d) = 1000"
  "p_collateral_mint (position1 d) = 1" "p_coll_surplus (position1 d) = 0"
  by (simp_all add: position1_def position0_def)

lemma borrow0:
  "borrow_handler ledger_runtime clock0 accounts0 700 (ledger0 0) (market1 0) (position1 0) bitmap0 =
     Inr (ledger0 700, market1 700, position1 700, bitmap50)"
proof -
  have p: "position1 0\<lparr> p_recorded_debt := 700 \<rparr> = position1 700\<lparr> p_bucket := 0 \<rparr>" by (simp add: position1_def)
  have c: "reweight (market1 0\<lparr> m_agg_recorded_debt := 700 \<rparr>) (position1 700\<lparr> p_bucket := 0 \<rparr>) 0 = Inr (market1 700)"
    "set_stake (market1 700) (position1 700\<lparr> p_bucket := 0 \<rparr>) = Inr (market1 700, position1 700\<lparr> p_bucket := 0 \<rparr>)"
    by (simp_all add: reweight_Inr set_stake_def compute_stake_def scenario_defs checked_sub_def checked_add_def)
  have r: "reconcile bitmap0 (market1 700) (position1 700\<lparr> p_bucket := 0 \<rparr>) 0 = Inr (bitmap50, position1 700)"
    by (subst reconcile_bitmap0) (simp_all add: scenario_defs)
  have t: "tk_mint_to ledger_runtime (ledger0 0) 8 10 9 700 = Some (ledger0 700)"
    "tk_mint ledger_runtime (ledger0 0) 10 = 8" "tk_owner ledger_runtime (ledger0 0) 10 = 5"
    by (simp_all add: ledger_runtime_def ledger0_def fun_eq_iff)
  have h: "is_healthy 1000 700 (2 * RAY) 11000" by (rule healthy0) simp_all
  have u: "market1 0\<lparr> m_agg_recorded_debt := 700, m_unminted_interest := 0 \<rparr> = market1 0\<lparr> m_agg_recorded_debt := 700 \<rparr>"
    by (simp add: market1_def market0_def)
  show ?thesis
    unfolding borrow_handler_def
    by (simp add: clock0_def accounts0_def open0 [of 0, simplified] market1_sel position1_sel t h p c r u
        LIQ_INFRA_READY_MASK_def LIQ_INFRA_REACTOR_POOL_def LIQ_INFRA_INSURANCE_BUFFER_def st_borrow_def u128_num_def checked_add_def)
qed

lemma withdraw0:
  "\<exists>r. withdraw_handler ledger_runtime clock0 accounts0 100 (ledger0 700) (market1 700) (position1 700) bitmap50 = Inr r"
proof -
  let ?p = "set_ink (position1 700) 900"
  let ?m = "market1 700\<lparr> m_total_collateral := 900 \<rparr>" and ?m' = "market1 700\<lparr> m_total_collateral := 900, m_total_stakes := 900 \<rparr>"
  let ?l = "ledger0 700\<lparr> lg_amount := (lg_amount (ledger0 700))(2 := 900, 7 := 100) \<rparr>"
  have t: "tk_transfer ledger_runtime (ledger0 700) 2 7 3 100 = Some ?l"
    "tk_mint ledger_runtime (ledger0 700) 7 = 1" "tk_owner ledger_runtime (ledger0 700) 7 = 5" "tk_amount ledger_runtime ?l 2 = 900"
    by (simp_all add: ledger_runtime_def ledger0_def)
  have h: "is_healthy 900 700 (2 * RAY) 11000" by (rule healthy0) simp_all
  have c: "reweight ?m ?p 350000 = Inr ?m" "set_stake ?m ?p = Inr (?m', ?p\<lparr> p_stake := 900 \<rparr>)"
    by (simp_all add: reweight_Inr set_stake_def compute_stake_def scenario_defs checked_sub_def checked_add_def)
  have r: "reconcile bitmap50 ?m' (?p\<lparr> p_stake := 900 \<rparr>) 700 = Inr (bitmap50, ?p\<lparr> p_stake := 900 \<rparr>)"
    by (rule reconcile_bitmap50) (simp_all add: scenario_defs)
  have s: "assert_collateral_vault_sufficiency ledger_runtime ?l 2 ?m' = Inr ()"
    by (simp add: assert_sufficiency_Inr t tracked_collateral_def market1_def market0_def)
  show ?thesis
    unfolding withdraw_handler_def
    by (simp add: clock0_def accounts0_def open0 [of 700, simplified] market1_sel position1_sel t h c r s checked_sub_def)
qed

lemma repay0:
  "repay_handler ledger_runtime clock0 accounts0 300 (ledger0 700) (market1 700) (position1 700) bitmap50 =
     Inr (ledger0 400, market1 400, position1 400, bitmap50)"
proof -
  have t: "tk_burn ledger_runtime (ledger0 700) 8 10 5 300 = Some (ledger0 400)"
    "tk_mint ledger_runtime (ledger0 700) 10 = 8" "tk_owner ledger_runtime (ledger0 700) 10 = 5"
    by (simp_all add: ledger_runtime_def ledger0_def fun_eq_iff)
  have p: "position1 700\<lparr> p_recorded_debt := 400 \<rparr> = position1 400" by (simp add: position1_def)
  have r: "reconcile bitmap50 (market1 400) (position1 400) 700 = Inr (bitmap50, position1 400)"
    by (rule reconcile_bitmap50) (simp_all add: scenario_defs)
  show ?thesis
    unfolding repay_handler_def
    by (simp add: clock0_def accounts0_def open0 [of 700, simplified] market1_sel position1_sel t p r
        stake0 [of 700 400, simplified] st_repay_def u128_num_def checked_sub_def)
qed

text \<open>What a withdrawal and a repayment do to the position, once its interest and its share of the redistributions are realized.\<close>

lemma withdraw_position:
  assumes "withdraw_handler T clk A amount l m p bm = Inr (l', m', p', bm')" "bitmap_ok bm"
  shows "\<exists>m1 p1. accrue m (unix_timestamp clk) = Inr m1 \<and> realize m1 p (unix_timestamp clk) = Inr p1 \<and>
    p_ink p' + amount = p_ink p1 \<and> p_recorded_debt p' = p_recorded_debt p1 \<and>
    m_total_collateral m' + amount = m_total_collateral m \<and> p_owner p' = p_owner p \<and>
    tk_owner T l (ca_owner_collateral_ata A) = p_owner p \<and>
    tk_transfer T l (m_collateral_vault m) (ca_owner_collateral_ata A) (ca_market A) amount = Some l'"
  using assms(1)
proof (cases rule: withdraw_Inr)
  case h: (1 m1 p1 m2 p3)
  show ?thesis
  proof (cases rule: position_opened [OF h(5,6)])
    case op: (1 x t)
    show ?thesis
    proof (cases rule: position_closed [OF h(12,13)])
      case cl: (1 w s u)
      have b: "p' = p3\<lparr> p_bucket := p_bucket p' \<rparr>"
        by (rule books_stepI(2) [OF assms(2) h(14)]; use cl in \<open>simp add: op weight_def\<close>)
      have "p_ink p' = p_ink p1 - amount" "p_recorded_debt p' = p_recorded_debt p1" "p_owner p' = p_owner p"
        by (subst b, simp add: cl(2) op)+
      moreover have "m_total_collateral m' + amount = m_total_collateral m"
        using h(11) by (simp add: cl(1) op(1))
      ultimately show ?thesis using h(2-7,10) by (intro exI [of _ m1] exI [of _ p1]) simp
    qed
  qed
qed

lemma repay_position:
  assumes "repay_handler T clk A amount l m p bm = Inr (l', m', p', bm')" "token_laws T" "bitmap_ok bm" "amount < 2 ^ 64"
  shows "\<exists>m1 p1. accrue m (unix_timestamp clk) = Inr m1 \<and> realize m1 p (unix_timestamp clk) = Inr p1 \<and>
    p_recorded_debt p' + min amount (p_recorded_debt p1) = p_recorded_debt p1 \<and> p_ink p' = p_ink p1 \<and>
    tk_amount T l' = (tk_amount T l)(ca_owner_fusd_ata A :=
      tk_amount T l (ca_owner_fusd_ata A) - min amount (p_recorded_debt p1)) \<and>
    tk_supply T l' (ca_fusd_mint A) + min amount (p_recorded_debt p1) = tk_supply T l (ca_fusd_mint A) \<and>
    booked_supply m' = booked_supply m - int (min amount (p_recorded_debt p1))"
  using assms(1)
proof (cases rule: repay_Inr)
  case h: (idle m1 p1)
  show ?thesis
  proof (cases rule: position_opened [OF h(1,2)])
    case op: (1 x t)
    obtain s where "m' = m1\<lparr> m_total_stakes := m_total_stakes m1 - p_stake p1 + s \<rparr>" "p' = p1\<lparr> p_stake := s \<rparr>"
      using set_stake_Inr [OF h(4)] by metis
    then show ?thesis using h by (intro exI [of _ m1] exI [of _ p1]) (simp add: op(1) booked_supply_def)
  qed
next
  case h: (paid m1 p1 d m2 m3 p3)
  note d = u128_supply.repay_identity [OF h(5)]
  have new: "rd_burn d = min amount (p_recorded_debt p1)" "p_recorded_debt p1 = rd_new_position_debt d + rd_burn d"
    "m_agg_recorded_debt m1 = rd_new_agg d + rd_burn d"
    using d(2-4) by (auto simp: of_nat_min [symmetric] simp del: of_nat_min)
  have n: "rd_burn d mod 2 ^ 64 = rd_burn d" using assms(4) new(1) by (simp add: min_less_iff_disj)
  show ?thesis
  proof (cases rule: position_opened [OF h(3,4)])
    case op: (1 x t)
    show ?thesis
    proof (cases rule: position_closed [OF h(8,9)])
      case cl: (1 w s u)
      obtain a k where m': "m' = m3\<lparr> m_rl_accrued := a, m_rl_last_update := k \<rparr>"
        using h(10) by (cases "0 < m_rl_cap m3") (auto intro: that [where a = "m_rl_accrued m3" and k = "m_rl_last_update m3"])
      have b: "p' = p3\<lparr> p_bucket := p_bucket p' \<rparr>"
        by (rule books_stepI(2) [OF assms(3) h(11)]; use cl in \<open>simp add: op m' weight_def\<close>)
      have "p_ink p' = p_ink p1" "p_recorded_debt p' = rd_new_position_debt d"
        by (subst b, simp add: cl(2) op)+
      moreover have "booked_supply m' = booked_supply m - int (rd_burn d)"
        using new(3) by (simp add: m' cl(1) op(1) booked_supply_def)
      moreover have "rd_new_position_debt d + rd_burn d = p_recorded_debt p1" using new(2) by simp
      ultimately show ?thesis
        using h(3,4) burnD(3,6,7) [OF assms(2) h(7)] unfolding n
        by (intro exI [of _ m1] exI [of _ p1], unfold new(1) [symmetric]) simp
    qed
  qed
qed

subsection \<open>Properties of the instructions\<close>

text \<open>
  C21. A borrow that succeeds mints exactly the amount, to an account of the owner, raises the position's
  debt by at least the amount, and leaves the position covered at the minimum ratio at the current
  price, the market within its debt ceiling and issuance limit, and the debt at or above the
  minimum. The market is not shut down, frozen or paused, and its price is present and fresh.
\<close>

theorem borrow_safe:
  assumes "borrow_handler T clk A amount l m p bm = Inr (l', m', p', bm')" "token_laws T" "bitmap_ok bm"
  shows "p_recorded_debt p' * m_mcr_bps m * RAY \<le> p_ink p' * m_spot m * BPS \<and>
    p_recorded_debt p + amount \<le> p_recorded_debt p' \<and> m_min_debt m \<le> p_recorded_debt p' \<and>
    m_agg_recorded_debt m' \<le> m_debt_ceiling m \<and> (0 < m_rl_cap m \<longrightarrow> m_rl_accrued m' \<le> m_rl_cap m) \<and>
    (0 < m_ccr_bps m \<longrightarrow> \<not> tcr_below (m_total_collateral m') (m_agg_recorded_debt m') (m_spot m) (m_ccr_bps m)) \<and>
    tk_owner T l (ca_owner_fusd_ata A) = p_owner p \<and>
    tk_amount T l' = (tk_amount T l)(ca_owner_fusd_ata A := tk_amount T l (ca_owner_fusd_ata A) + amount) \<and>
    \<not> m_shutdown m \<and> \<not> m_mint_frozen m \<and> m_guardian_paused_until m \<le> unix_timestamp clk \<and>
    0 < m_spot m \<and> clock_slot clk - m_spot_updated_slot m \<le> MAX_PRICE_STALENESS_SLOTS"
  using assms(1)
proof (cases rule: borrow_Inr)
  case h: (1 m1 p1 fee d m2 m3 p4)
  show ?thesis
  proof (cases rule: position_opened [OF h(4,5)])
    case op: (1 x t)
    show ?thesis
      using borrow_effect [OF assms] is_healthy_covers(1) h(1,2,6,8-11) unfolding op(1) by simp
  qed
qed

theorem borrow_safe_witness:
  "\<exists>l' m' p' bm'. borrow_handler ledger_runtime clock0 accounts0 700 (ledger0 0) (market1 0) (position1 0) bitmap0 = Inr (l', m', p', bm') \<and>
     token_laws ledger_runtime \<and> bitmap_ok bitmap0 \<and> p_recorded_debt p' * 11000 * RAY \<le> p_ink p' * (2 * RAY) * BPS \<and>
     700 \<le> p_recorded_debt p'"
  using borrow0 borrow_safe [OF borrow0 ledger_runtime_laws bitmap0_ok] ledger_runtime_laws bitmap0_ok
  by (simp add: market1_sel)

text \<open>
  C22. A withdrawal that succeeds pays exactly the amount from the market's vault to an account of the
  position's owner, and debits exactly the amount from the collateral the position has once its share
  of the redistributions is realized, from the market's total and from the tracked collateral; the
  debt of the position is the realized debt. It leaves the vault covering everything the market
  tracks, and the position either without debt or covered at the minimum ratio at a fresh price.
\<close>

theorem withdraw_safe:
  assumes "withdraw_handler T clk A amount l m p bm = Inr (l', m', p', bm')" "token_laws T" "bitmap_ok bm"
  shows "(\<exists>m1 p1. accrue m (unix_timestamp clk) = Inr m1 \<and> realize m1 p (unix_timestamp clk) = Inr p1 \<and>
      p_ink p' + amount = p_ink p1 \<and> p_recorded_debt p' = p_recorded_debt p1) \<and>
    m_total_collateral m' + amount = m_total_collateral m \<and>
    tracked_collateral m' + amount = tracked_collateral m \<and>
    tk_owner T l (ca_owner_collateral_ata A) = p_owner p \<and>
    (m_collateral_vault m \<noteq> ca_owner_collateral_ata A \<longrightarrow>
      tk_amount T l' (m_collateral_vault m) + amount = tk_amount T l (m_collateral_vault m) \<and>
      tk_amount T l' (ca_owner_collateral_ata A) = tk_amount T l (ca_owner_collateral_ata A) + amount) \<and>
    (\<forall>a. a \<noteq> m_collateral_vault m \<and> a \<noteq> ca_owner_collateral_ata A \<longrightarrow> tk_amount T l' a = tk_amount T l a) \<and>
    tracked_collateral m' \<le> tk_amount T l' (m_collateral_vault m) \<and>
    (p_recorded_debt p' = 0 \<or>
     p_recorded_debt p' * m_mcr_bps m * RAY \<le> p_ink p' * m_spot m * BPS \<and>
     0 < m_spot m \<and> clock_slot clk - m_spot_updated_slot m \<le> MAX_PRICE_STALENESS_SLOTS)"
proof -
  obtain m1 p1 where w: "accrue m (unix_timestamp clk) = Inr m1" "realize m1 p (unix_timestamp clk) = Inr p1"
    "p_ink p' + amount = p_ink p1" "p_recorded_debt p' = p_recorded_debt p1"
    "m_total_collateral m' + amount = m_total_collateral m" "tk_owner T l (ca_owner_collateral_ata A) = p_owner p"
    and t: "tk_transfer T l (m_collateral_vault m) (ca_owner_collateral_ata A) (ca_market A) amount = Some l'"
    using withdraw_position [OF assms(1,3)] by blast
  show ?thesis
    using w withdraw_effect [OF assms] is_healthy_covers(1) transferD(1,6,7,9) [OF assms(2) t] by auto
qed

theorem withdraw_safe_witness:
  "\<exists>l' m' p' bm'. withdraw_handler ledger_runtime clock0 accounts0 100 (ledger0 700) (market1 700) (position1 700) bitmap50 = Inr (l', m', p', bm') \<and>
     token_laws ledger_runtime \<and> bitmap_ok bitmap50 \<and> tracked_collateral m' + 100 = tracked_collateral (market1 700) \<and>
     m_total_collateral m' + 100 = m_total_collateral (market1 700)"
proof -
  obtain l' m' p' bm' where
    r: "withdraw_handler ledger_runtime clock0 accounts0 100 (ledger0 700) (market1 700) (position1 700) bitmap50 = Inr (l', m', p', bm')"
    using withdraw0 by (metis prod_cases4)
  show ?thesis using r withdraw_safe [OF r ledger_runtime_laws bitmap50_ok] ledger_runtime_laws bitmap50_ok by blast
qed

text \<open>
  C23. A repayment burns exactly the smaller of the amount offered and the position's realized debt, out of
  the owner's account and of the supply, and lowers the position's realized debt and the booked supply
  by exactly that number; the collateral is the realized collateral. It never leaves a debt between
  zero and the minimum.
\<close>

theorem repay_exact:
  assumes "repay_handler T clk A amount l m p bm = Inr (l', m', p', bm')" "token_laws T" "bitmap_ok bm" "amount < 2 ^ 64"
  shows "\<exists>m1 p1 n. accrue m (unix_timestamp clk) = Inr m1 \<and> realize m1 p (unix_timestamp clk) = Inr p1 \<and>
    n = min amount (p_recorded_debt p1) \<and> p_recorded_debt p' + n = p_recorded_debt p1 \<and> p_ink p' = p_ink p1 \<and>
    tk_amount T l' = (tk_amount T l)(ca_owner_fusd_ata A := tk_amount T l (ca_owner_fusd_ata A) - n) \<and>
    tk_supply T l' (ca_fusd_mint A) + n = tk_supply T l (ca_fusd_mint A) \<and>
    booked_supply m' = booked_supply m - int n \<and>
    p_recorded_debt p \<le> p_recorded_debt p' + n \<and> (n < amount \<longrightarrow> p_recorded_debt p' = 0) \<and>
    (p_recorded_debt p' = 0 \<or> m_min_debt m \<le> p_recorded_debt p')"
proof -
  obtain m1 p1 where r: "accrue m (unix_timestamp clk) = Inr m1" "realize m1 p (unix_timestamp clk) = Inr p1"
    "p_recorded_debt p' + min amount (p_recorded_debt p1) = p_recorded_debt p1" "p_ink p' = p_ink p1"
    "tk_amount T l' = (tk_amount T l)(ca_owner_fusd_ata A :=
      tk_amount T l (ca_owner_fusd_ata A) - min amount (p_recorded_debt p1))"
    "tk_supply T l' (ca_fusd_mint A) + min amount (p_recorded_debt p1) = tk_supply T l (ca_fusd_mint A)"
    "booked_supply m' = booked_supply m - int (min amount (p_recorded_debt p1))"
    using repay_position [OF assms] by blast
  have "p_recorded_debt p \<le> p_recorded_debt p1"
    by (cases rule: position_opened [OF r(1,2)]) (simp only:)
  moreover have "p_recorded_debt p' = 0 \<or> m_min_debt m \<le> p_recorded_debt p'" using repay_effect [OF assms] by blast
  ultimately show ?thesis
    using r by (intro exI [of _ m1] exI [of _ p1] exI [of _ "min amount (p_recorded_debt p1)"]) auto
qed

theorem repay_exact_witness:
  "repay_handler ledger_runtime clock0 accounts0 300 (ledger0 700) (market1 700) (position1 700) bitmap50 =
     Inr (ledger0 400, market1 400, position1 400, bitmap50) \<and> token_laws ledger_runtime \<and> bitmap_ok bitmap50 \<and>
   (300::nat) < 2 ^ 64 \<and> (\<exists>n \<le> 300. tk_supply ledger_runtime (ledger0 400) 8 + n = tk_supply ledger_runtime (ledger0 700) 8 \<and>
     p_recorded_debt (position1 700) \<le> p_recorded_debt (position1 400) + n)"
proof -
  have lt: "(300::nat) < 2 ^ 64" by simp
  have "\<exists>n \<le> 300. tk_supply ledger_runtime (ledger0 400) (ca_fusd_mint accounts0) + n =
        tk_supply ledger_runtime (ledger0 700) (ca_fusd_mint accounts0) \<and>
      p_recorded_debt (position1 700) \<le> p_recorded_debt (position1 400) + n"
    using repay_exact [OF repay0 ledger_runtime_laws bitmap50_ok lt] by (metis min.cobounded1)
  then show ?thesis using repay0 ledger_runtime_laws bitmap50_ok by (simp add: accounts0_def)
qed

text \<open>
  C24. Only the owner recorded in a position can move it: each of the seven instructions that act for a
  position (deposit, withdraw, borrow, repay, adjust the rate, close, claim the collateral surplus)
  fails on its account constraints when signed by anyone else, before any transfer and before any
  state changes.
\<close>

theorem owner_only:
  assumes "p_owner p \<noteq> ca_owner A"
  shows "deposit_handler T clk A n l m p bm = Inl Constraint \<and> withdraw_handler T clk A n l m p bm = Inl Constraint \<and>
    borrow_handler T clk A n l m p bm = Inl Constraint \<and> repay_handler T clk A n l m p bm = Inl Constraint \<and>
    adjust_rate_handler clk A n m p bm = Inl Constraint \<and> close_position_handler T A l p = Inl Constraint \<and>
    claim_coll_surplus_handler T A l m p = Inl Constraint"
  using assms
  by (cases "m_collateral_vault m = ca_collateral_vault A")
    (simp_all add: deposit_handler_def withdraw_handler_def borrow_handler_def repay_handler_def
      adjust_rate_handler_def close_position_handler_def claim_coll_surplus_handler_def)

theorem owner_only_witness:
  "p_owner position0 \<noteq> ca_owner (accounts0\<lparr> ca_owner := 6 \<rparr>) \<and>
   borrow_handler ledger_runtime clock0 (accounts0\<lparr> ca_owner := 6 \<rparr>) 5 (ledger0 0) market0 position0 bitmap0 = Inl Constraint \<and>
   claim_coll_surplus_handler ledger_runtime (accounts0\<lparr> ca_owner := 6 \<rparr>) (ledger0 0) market0 position0 = Inl Constraint"
proof -
  have "p_owner position0 \<noteq> ca_owner (accounts0\<lparr> ca_owner := 6 \<rparr>)" by (simp add: position0_def)
  then show ?thesis using owner_only [of position0 "accounts0\<lparr> ca_owner := 6 \<rparr>" ledger_runtime clock0 5 "ledger0 0" market0 bitmap0]
    by blast
qed

end
