(* ===== verification/Reactor_Ops.thy ===== *)
theory Reactor_Ops
  imports Reactor_Math Books
begin

text \<open>
  The instructions of a depositor of the reactor pool: \<^verbatim>\<open>open_reactor_deposit.rs\<close>,
  \<^verbatim>\<open>provide_to_reactor.rs\<close>, \<^verbatim>\<open>withdraw_from_reactor.rs\<close> and \<^verbatim>\<open>claim_reactor_gains.rs\<close> under
  \<^verbatim>\<open>programs/fusd-core/src/instructions\<close>, with the glue between accounts and pool arithmetic,
  \<^verbatim>\<open>programs/fusd-core/src/reactor.rs\<close>. The grid account is a list of numbers.

  The invariant is that the pool backs its deposits: what all depositors can withdraw together is at
  most the recorded total, and the deposit vault holds the recorded total.
\<close>

subsection \<open>Glue\<close>

definition rp_pool_state :: "reactor_pool \<Rightarrow> pool_state" where
  "rp_pool_state rp = \<lparr> ps_p = rp_p rp, ps_epoch = rp_epoch rp, ps_scale = rp_scale rp,
     ps_total_deposits = rp_total_deposits rp, ps_last_coll_error = rp_last_coll_error rp,
     ps_last_loss_error = rp_last_loss_error rp \<rparr>"

definition rp_write_back :: "reactor_pool \<Rightarrow> pool_state \<Rightarrow> reactor_pool" where
  "rp_write_back rp ps = rp\<lparr> rp_p := ps_p ps, rp_epoch := ps_epoch ps, rp_scale := ps_scale ps,
     rp_total_deposits := ps_total_deposits ps, rp_last_coll_error := ps_last_coll_error ps,
     rp_last_loss_error := ps_last_loss_error ps \<rparr>"

definition rd_snapshot_of :: "reactor_deposit \<Rightarrow> snapshot" where
  "rd_snapshot_of dep = \<lparr> sn_p = rd_snapshot_p dep, sn_s = rd_snapshot_s dep, sn_scale = rd_snapshot_scale dep,
     sn_epoch = rd_snapshot_epoch dep \<rparr>"

fun reactor_map_err :: "reactor_error failure \<Rightarrow> fusd_error failure" where
  "reactor_map_err (Raised NoDeposits) = Raised ReactorPoolTooSmall"
| "reactor_map_err (Raised DebtExceedsDeposits) = Raised ReactorPoolTooSmall"
| "reactor_map_err (Raised ScaleOverflow) = Raised ReactorGridExhausted"
| "reactor_map_err (Raised EpochOverflow) = Raised ReactorGridExhausted"
| "reactor_map_err (Raised ReactorMath) = Raised MathOverflow"
| "reactor_map_err Constraint = Constraint"
| "reactor_map_err External = External"
| "reactor_map_err Panic = Panic"

definition reactor_realize :: "pool_state \<Rightarrow> reactor_deposit \<Rightarrow> nat list \<Rightarrow> (reactor_deposit \<times> nat) res" where
  "reactor_realize ps dep grid =
     (let snap = rd_snapshot_of dep; initial = rd_deposited_fusd dep in
      bindR (compounded_deposit ps initial snap) (\<lambda>compounded.
      bindR (map_err reactor_map_err (collateral_gain grid REACTOR_MAX_SCALES initial snap)) (\<lambda>gain.
      bindR (math (try_from 64 gain)) (\<lambda>gain_u64.
      bindR (math (checked_add 64 (rd_pending_collateral_gain dep) gain_u64)) (\<lambda>pending.
      Inr (dep\<lparr> rd_pending_collateral_gain := pending \<rparr>, compounded))))))"

definition rd_set_snapshot :: "reactor_deposit \<Rightarrow> pool_state \<Rightarrow> nat list \<Rightarrow> reactor_deposit" where
  "rd_set_snapshot dep ps grid =
     (let snap = pool_snapshot ps grid REACTOR_MAX_SCALES in
      dep\<lparr> rd_snapshot_p := sn_p snap, rd_snapshot_s := sn_s snap, rd_snapshot_scale := sn_scale snap,
           rd_snapshot_epoch := sn_epoch snap \<rparr>)"

subsection \<open>Handlers\<close>

record reactor_accounts =
  ra_owner :: pubkey
  ra_collateral_mint :: pubkey
  ra_fusd_mint :: pubkey
  ra_reactor_pool :: pubkey
  ra_epoch_to_scale_to_sum :: pubkey
  ra_reactor_deposit :: pubkey
  ra_owner_fusd_ata :: pubkey
  ra_owner_collateral_ata :: pubkey
  ra_reactor_fusd_vault :: pubkey
  ra_reactor_coll_vault :: pubkey

definition open_reactor_deposit_handler ::
    "'l runtime \<Rightarrow> reactor_accounts \<Rightarrow> 'l \<Rightarrow> reactor_pool \<Rightarrow> ('l \<times> reactor_deposit) res" where
  "open_reactor_deposit_handler T A l rp =
     bindR (cpi (sys_create T l (ra_owner A) (ra_reactor_deposit A))) (\<lambda>l.
     Inr (l, \<lparr> rd_owner = ra_owner A, rd_reactor_pool = ra_reactor_pool A, rd_deposited_fusd = 0,
               rd_snapshot_p = rp_p rp, rd_snapshot_s = 0, rd_snapshot_scale = rp_scale rp,
               rd_snapshot_epoch = rp_epoch rp, rd_pending_collateral_gain = 0 \<rparr>))"

definition provide_to_reactor_handler ::
    "'l runtime \<Rightarrow> reactor_accounts \<Rightarrow> nat \<Rightarrow> 'l \<Rightarrow> reactor_pool \<Rightarrow> nat list \<Rightarrow> reactor_deposit \<Rightarrow>
     ('l \<times> reactor_pool \<times> reactor_deposit) res" where
  "provide_to_reactor_handler T A amount l rp grid dep =
     bindR (constraint (ra_epoch_to_scale_to_sum A = rp_epoch_to_scale_to_sum rp)) (\<lambda>_.
     bindR (constraint (rd_owner dep = ra_owner A)) (\<lambda>_.
     bindR (constraint (tk_mint T l (ra_owner_fusd_ata A) = ra_fusd_mint A)) (\<lambda>_.
     bindR (constraint (tk_owner T l (ra_owner_fusd_ata A) = ra_owner A)) (\<lambda>_.
     bindR (constraint (ra_reactor_fusd_vault A = rp_fusd_vault rp)) (\<lambda>_.
     bindR (require (amount > 0) ZeroAmount) (\<lambda>_.
     bindR (reactor_realize (rp_pool_state rp) dep grid) (\<lambda>(dep, compounded).
     bindR (math (checked_add 128 compounded amount)) (\<lambda>s.
     bindR (math (try_from 64 s)) (\<lambda>new_deposited.
     bindR (cpi (tk_transfer T l (ra_owner_fusd_ata A) (ra_reactor_fusd_vault A) (ra_owner A) amount)) (\<lambda>l.
     bindR (math (checked_add 128 (rp_total_deposits rp) amount)) (\<lambda>tot.
     Inr (l, rp\<lparr> rp_total_deposits := tot \<rparr>,
          (rd_set_snapshot dep (rp_pool_state rp) grid)\<lparr> rd_deposited_fusd := new_deposited \<rparr>))))))))))))"

definition withdraw_from_reactor_handler ::
    "'l runtime \<Rightarrow> reactor_accounts \<Rightarrow> nat \<Rightarrow> 'l \<Rightarrow> reactor_pool \<Rightarrow> nat list \<Rightarrow> reactor_deposit \<Rightarrow>
     ('l \<times> reactor_pool \<times> reactor_deposit) res" where
  "withdraw_from_reactor_handler T A amount l rp grid dep =
     bindR (constraint (ra_epoch_to_scale_to_sum A = rp_epoch_to_scale_to_sum rp)) (\<lambda>_.
     bindR (constraint (rd_owner dep = ra_owner A)) (\<lambda>_.
     bindR (constraint (ra_reactor_fusd_vault A = rp_fusd_vault rp)) (\<lambda>_.
     bindR (constraint (tk_mint T l (ra_owner_fusd_ata A) = ra_fusd_mint A)) (\<lambda>_.
     bindR (constraint (tk_owner T l (ra_owner_fusd_ata A) = ra_owner A)) (\<lambda>_.
     bindR (require (amount > 0) ZeroAmount) (\<lambda>_.
     bindR (reactor_realize (rp_pool_state rp) dep grid) (\<lambda>(dep, compounded).
     let withdraw_amt = min amount compounded in
     bindR (if withdraw_amt > 0
            then cpi (tk_transfer T l (ra_reactor_fusd_vault A) (ra_owner_fusd_ata A) (ra_reactor_pool A) withdraw_amt)
            else Inr l) (\<lambda>l.
     bindR (math (checked_sub (rp_total_deposits rp) withdraw_amt)) (\<lambda>tot.
     bindR (math (try_from 64 (compounded - withdraw_amt))) (\<lambda>remaining.
     Inr (l, rp\<lparr> rp_total_deposits := tot \<rparr>,
          (rd_set_snapshot dep (rp_pool_state rp) grid)\<lparr> rd_deposited_fusd := remaining \<rparr>)))))))))))"

definition claim_reactor_gains_handler ::
    "'l runtime \<Rightarrow> reactor_accounts \<Rightarrow> 'l \<Rightarrow> reactor_pool \<Rightarrow> nat list \<Rightarrow> reactor_deposit \<Rightarrow> ('l \<times> reactor_deposit) res" where
  "claim_reactor_gains_handler T A l rp grid dep =
     bindR (constraint (ra_epoch_to_scale_to_sum A = rp_epoch_to_scale_to_sum rp)) (\<lambda>_.
     bindR (constraint (rd_owner dep = ra_owner A)) (\<lambda>_.
     bindR (constraint (ra_reactor_coll_vault A = rp_coll_vault rp)) (\<lambda>_.
     bindR (constraint (tk_mint T l (ra_owner_collateral_ata A) = ra_collateral_mint A)) (\<lambda>_.
     bindR (constraint (tk_owner T l (ra_owner_collateral_ata A) = ra_owner A)) (\<lambda>_.
     bindR (reactor_realize (rp_pool_state rp) dep grid) (\<lambda>(dep, compounded).
     let dep = rd_set_snapshot dep (rp_pool_state rp) grid in
     bindR (math (try_from 64 compounded)) (\<lambda>deposited.
     let dep = dep\<lparr> rd_deposited_fusd := deposited \<rparr>; amount = rd_pending_collateral_gain dep in
     if amount > 0
     then bindR (cpi (tk_transfer T l (ra_reactor_coll_vault A) (ra_owner_collateral_ata A) (ra_reactor_pool A) amount)) (\<lambda>l.
          Inr (l, dep\<lparr> rd_pending_collateral_gain := 0 \<rparr>))
     else Inr (l, dep))))))))"

subsection \<open>Effects\<close>

lemma reactor_realize_Inr:
  assumes "reactor_realize ps dep grid = Inr (dep', c)"
  shows "compounded_deposit ps (rd_deposited_fusd dep) (rd_snapshot_of dep) = (Inr c :: fusd_error failure + nat)"
    "\<exists>g. dep' = dep\<lparr> rd_pending_collateral_gain := rd_pending_collateral_gain dep + g \<rparr> \<and>
       collateral_gain grid REACTOR_MAX_SCALES (rd_deposited_fusd dep) (rd_snapshot_of dep) = Inr g"
  using assms by (auto simp: reactor_realize_def Let_def res_simps num_simps)

lemma rd_set_snapshot_simps [simp]:
  "rd_owner (rd_set_snapshot dep ps grid) = rd_owner dep"
  "rd_pending_collateral_gain (rd_set_snapshot dep ps grid) = rd_pending_collateral_gain dep"
  "rd_deposited_fusd (rd_set_snapshot dep ps grid) = rd_deposited_fusd dep"
  "rd_snapshot_of (rd_set_snapshot dep ps grid) = pool_snapshot ps grid REACTOR_MAX_SCALES"
  "rd_snapshot_of (dep\<lparr> rd_deposited_fusd := n \<rparr>) = rd_snapshot_of dep"
  "rd_snapshot_of (dep\<lparr> rd_pending_collateral_gain := n \<rparr>) = rd_snapshot_of dep"
  by (simp_all add: rd_set_snapshot_def rd_snapshot_of_def Let_def)

lemma rp_pool_state_simps [simp]:
  "ps_total_deposits (rp_pool_state rp) = rp_total_deposits rp"
  "rp_pool_state (rp\<lparr> rp_total_deposits := t \<rparr>) = (rp_pool_state rp)\<lparr> ps_total_deposits := t \<rparr>"
  "rp_pool_state (rp_write_back rp ps) = ps"
  "rp_fusd_vault (rp_write_back rp ps) = rp_fusd_vault rp" "rp_coll_vault (rp_write_back rp ps) = rp_coll_vault rp"
  "rp_total_deposits (rp_write_back rp ps) = ps_total_deposits ps"
  by (simp_all add: rp_pool_state_def rp_write_back_def)

text \<open>The deposits of a pool by the key of their account, and what it means for the pool to back them.\<close>

definition pool_backs :: "reactor_pool \<Rightarrow> (pubkey \<rightharpoonup> reactor_deposit) \<Rightarrow> bool" where
  "pool_backs rp deps \<longleftrightarrow> backed (rp_pool_state rp) (dom deps)
     (\<lambda>k. rd_deposited_fusd (the (deps k))) (\<lambda>k. rd_snapshot_of (the (deps k)))"

lemma pool_backs_reset:
  assumes "pool_backs rp deps" "deps k = Some dep"
    and "compounded_deposit (rp_pool_state rp) (rd_deposited_fusd dep) (rd_snapshot_of dep) = (Inr x :: 'e failure + nat)"
    and "t + x = rp_total_deposits rp + rd_deposited_fusd dep'"
    and "rd_snapshot_of dep' = pool_snapshot (rp_pool_state rp) grid stride"
  shows "pool_backs (rp\<lparr> rp_total_deposits := t \<rparr>) (deps(k \<mapsto> dep'))"
proof -
  have J: "dom (deps(k \<mapsto> dep')) = dom deps" using assms(2) by auto
  have e: "(\<lambda>j. rd_deposited_fusd (the ((deps(k \<mapsto> dep')) j))) = (\<lambda>j. rd_deposited_fusd (the (deps j)))(k := rd_deposited_fusd dep')"
    "(\<lambda>j. rd_snapshot_of (the ((deps(k \<mapsto> dep')) j))) = (\<lambda>j. rd_snapshot_of (the (deps j)))(k := pool_snapshot (rp_pool_state rp) grid stride)"
    using assms(5) by auto
  show ?thesis
    unfolding pool_backs_def J e rp_pool_state_simps
  proof (rule backed_reset)
    show "backed (rp_pool_state rp) (dom deps) (\<lambda>j. rd_deposited_fusd (the (deps j))) (\<lambda>j. rd_snapshot_of (the (deps j)))"
      using assms(1) by (simp add: pool_backs_def)
    show "compounded_deposit (rp_pool_state rp) (rd_deposited_fusd (the (deps k))) (rd_snapshot_of (the (deps k))) = (Inr x :: 'e failure + nat)"
      using assms(2,3) by simp
  qed (use assms(2,4) in auto)
qed

lemma pool_backs_pending:
  assumes "pool_backs rp deps" "deps k = Some dep" "rd_deposited_fusd dep' = rd_deposited_fusd dep" "rd_snapshot_of dep' = rd_snapshot_of dep"
  shows "pool_backs rp (deps(k \<mapsto> dep'))"
proof -
  have "dom (deps(k \<mapsto> dep')) = dom deps"
    "(\<lambda>j. rd_deposited_fusd (the ((deps(k \<mapsto> dep')) j))) = (\<lambda>j. rd_deposited_fusd (the (deps j)))"
    "(\<lambda>j. rd_snapshot_of (the ((deps(k \<mapsto> dep')) j))) = (\<lambda>j. rd_snapshot_of (the (deps j)))"
    using assms(2-4) by auto
  then show ?thesis using assms(1) by (simp add: pool_backs_def)
qed

lemma open_reactor_deposit_effect:
  assumes "open_reactor_deposit_handler T A l rp = Inr (l', dep)" "token_laws T"
  shows "same_tokens T l l'" "rd_owner dep = ra_owner A" "deps k = None \<Longrightarrow> pool_backs rp deps \<Longrightarrow> pool_backs rp (deps(k \<mapsto> dep))"
proof -
  have c: "sys_create T l (ra_owner A) (ra_reactor_deposit A) = Some l'"
    and d: "rd_owner dep = ra_owner A" "rd_deposited_fusd dep = 0" "rd_snapshot_p dep = rp_p rp" "rd_snapshot_scale dep = rp_scale rp"
      "rd_snapshot_epoch dep = rp_epoch rp"
    using assms(1) by (auto simp: open_reactor_deposit_handler_def res_simps)
  show "same_tokens T l l'" using c sys_same(2) [OF assms(2)] by blast
  show "rd_owner dep = ra_owner A" by (rule d)
  assume k: "deps k = None" and b: "pool_backs rp deps"
  let ?st = "rp_pool_state rp" and ?snap = "\<lambda>j. rd_snapshot_of (the ((deps(k \<mapsto> dep)) j))"
    and ?dep = "\<lambda>j. rd_deposited_fusd (the ((deps(k \<mapsto> dep)) j))"
  have "(\<Sum>j\<in>insert k (dom deps). share ?st (?dep j) (?snap j)) = share ?st 0 (rd_snapshot_of dep) + (\<Sum>j\<in>dom deps. share ?st (?dep j) (?snap j))"
    using b k d(2) by (subst sum.insert) (auto simp: pool_backs_def backed_def)
  also have "(\<Sum>j\<in>dom deps. share ?st (?dep j) (?snap j)) =
      (\<Sum>j\<in>dom deps. share ?st (rd_deposited_fusd (the (deps j))) (rd_snapshot_of (the (deps j))))"
    using k by (intro sum.cong) (auto simp: domIff)
  finally have s: "(\<Sum>j\<in>insert k (dom deps). share ?st (?dep j) (?snap j)) =
      (\<Sum>j\<in>dom deps. share ?st (rd_deposited_fusd (the (deps j))) (rd_snapshot_of (the (deps j))))"
    by (simp add: share_def)
  have "snap_ok ?st (rd_snapshot_of dep)"
    using b d by (auto simp: snap_ok_def pool_backs_def backed_def pool_ok_def rp_pool_state_def rd_snapshot_of_def SCALE_FACTOR_def)
  then show "pool_backs rp (deps(k \<mapsto> dep))"
    using b s k by (auto simp: pool_backs_def backed_def)
qed

lemma provide_effect:
  assumes "provide_to_reactor_handler T A amount l rp grid dep = Inr (l', rp', dep')" "token_laws T"
    and "tk_owner T l (rp_fusd_vault rp) \<noteq> ra_owner A"
  shows "deps k = Some dep \<Longrightarrow> pool_backs rp deps \<Longrightarrow> pool_backs rp' (deps(k \<mapsto> dep'))"
    and "rp_total_deposits rp' = rp_total_deposits rp + amount" "rp_fusd_vault rp' = rp_fusd_vault rp" "rp_coll_vault rp' = rp_coll_vault rp"
    and "tk_transfer T l (ra_owner_fusd_ata A) (rp_fusd_vault rp) (ra_owner A) amount = Some l'"
    and "tk_amount T l' (rp_fusd_vault rp) = tk_amount T l (rp_fusd_vault rp) + amount"
    and "tk_owner T l (ra_owner_fusd_ata A) = ra_owner A" "tk_mint T l (ra_owner_fusd_ata A) = ra_fusd_mint A" "rd_owner dep' = rd_owner dep"
proof -
  obtain d c where o: "tk_owner T l (ra_owner_fusd_ata A) = ra_owner A" "tk_mint T l (ra_owner_fusd_ata A) = ra_fusd_mint A"
      "ra_reactor_fusd_vault A = rp_fusd_vault rp"
    and r: "reactor_realize (rp_pool_state rp) dep grid = Inr (d, c)"
    and t: "tk_transfer T l (ra_owner_fusd_ata A) (ra_reactor_fusd_vault A) (ra_owner A) amount = Some l'"
    and rp': "rp' = rp\<lparr> rp_total_deposits := rp_total_deposits rp + amount \<rparr>"
    and dep': "dep' = (rd_set_snapshot d (rp_pool_state rp) grid)\<lparr> rd_deposited_fusd := c + amount \<rparr>"
    using assms(1) unfolding provide_to_reactor_handler_def bindR_Inr ensure_Inr ok_or_Inr case_prod_Inr
    by (elim exE conjE) (simp add: num_simps)
  show "pool_backs rp' (deps(k \<mapsto> dep'))" if "deps k = Some dep" "pool_backs rp deps"
    unfolding rp' by (rule pool_backs_reset [OF that(2,1) reactor_realize_Inr(1) [OF r]]) (simp_all add: dep')
  show "rp_total_deposits rp' = rp_total_deposits rp + amount" "rp_fusd_vault rp' = rp_fusd_vault rp" "rp_coll_vault rp' = rp_coll_vault rp"
    by (simp_all add: rp')
  show t': "tk_transfer T l (ra_owner_fusd_ata A) (rp_fusd_vault rp) (ra_owner A) amount = Some l'" using t o by simp
  show "tk_amount T l' (rp_fusd_vault rp) = tk_amount T l (rp_fusd_vault rp) + amount"
    by (rule transferD(7) [OF assms(2) t']) (use o assms(3) in auto)
  show "tk_owner T l (ra_owner_fusd_ata A) = ra_owner A" "tk_mint T l (ra_owner_fusd_ata A) = ra_fusd_mint A" by (rule o)+
  show "rd_owner dep' = rd_owner dep" using reactor_realize_Inr(2) [OF r] by (auto simp: dep')
qed

lemma withdraw_from_effect:
  assumes "withdraw_from_reactor_handler T A amount l rp grid dep = Inr (l', rp', dep')" "token_laws T"
  obtains n c where "compounded_deposit (rp_pool_state rp) (rd_deposited_fusd dep) (rd_snapshot_of dep) = (Inr c :: fusd_error failure + nat)"
    "n = min amount c" "n \<le> rp_total_deposits rp"
    "deps k = Some dep \<Longrightarrow> pool_backs rp deps \<Longrightarrow> pool_backs rp' (deps(k \<mapsto> dep'))"
    "rp_total_deposits rp' = rp_total_deposits rp - n" "rp_fusd_vault rp' = rp_fusd_vault rp" "rp_coll_vault rp' = rp_coll_vault rp"
    "l' = l \<and> n = 0 \<or> tk_transfer T l (rp_fusd_vault rp) (ra_owner_fusd_ata A) (ra_reactor_pool A) n = Some l'"
    "tk_owner T l (ra_owner_fusd_ata A) = ra_owner A" "tk_mint T l (ra_owner_fusd_ata A) = ra_fusd_mint A" "rd_owner dep = ra_owner A" "rd_owner dep' = rd_owner dep"
    "rd_deposited_fusd dep' = c - n"
proof -
  obtain d c where o: "rd_owner dep = ra_owner A" "tk_owner T l (ra_owner_fusd_ata A) = ra_owner A" "tk_mint T l (ra_owner_fusd_ata A) = ra_fusd_mint A"
      "ra_reactor_fusd_vault A = rp_fusd_vault rp"
    and r: "reactor_realize (rp_pool_state rp) dep grid = Inr (d, c)"
    and t: "(if min amount c > 0
        then cpi (tk_transfer T l (ra_reactor_fusd_vault A) (ra_owner_fusd_ata A) (ra_reactor_pool A) (min amount c))
        else Inr l) = Inr l'"
    and le: "min amount c \<le> rp_total_deposits rp"
    and rp': "rp' = rp\<lparr> rp_total_deposits := rp_total_deposits rp - min amount c \<rparr>"
    and dep': "dep' = (rd_set_snapshot d (rp_pool_state rp) grid)\<lparr> rd_deposited_fusd := c - min amount c \<rparr>"
    using assms(1) unfolding withdraw_from_reactor_handler_def Let_def bindR_Inr ensure_Inr ok_or_Inr case_prod_Inr
    by (elim exE conjE) (simp add: num_simps)
  show thesis
  proof (rule that [OF reactor_realize_Inr(1) [OF r] refl le])
    show "pool_backs rp' (deps(k \<mapsto> dep'))" if "deps k = Some dep" "pool_backs rp deps"
      unfolding rp' by (rule pool_backs_reset [OF that(2,1) reactor_realize_Inr(1) [OF r]]) (use le in \<open>simp_all add: dep'\<close>)
    show "l' = l \<and> min amount c = 0 \<or>
        tk_transfer T l (rp_fusd_vault rp) (ra_owner_fusd_ata A) (ra_reactor_pool A) (min amount c) = Some l'"
      using t o unfolding if_Inr ok_or_Inr by auto
    show "rd_owner dep' = rd_owner dep" using reactor_realize_Inr(2) [OF r] by (auto simp: dep')
  qed (simp_all add: rp' o dep')
qed

lemma claim_effect:
  assumes "claim_reactor_gains_handler T A l rp grid dep = Inr (l', dep')" "token_laws T"
  obtains n g where "collateral_gain grid REACTOR_MAX_SCALES (rd_deposited_fusd dep) (rd_snapshot_of dep) = Inr g"
    "n = rd_pending_collateral_gain dep + g" "rd_pending_collateral_gain dep' = 0"
    "deps k = Some dep \<Longrightarrow> pool_backs rp deps \<Longrightarrow> pool_backs rp (deps(k \<mapsto> dep'))"
    "l' = l \<and> n = 0 \<or> tk_transfer T l (rp_coll_vault rp) (ra_owner_collateral_ata A) (ra_reactor_pool A) n = Some l'"
    "tk_owner T l (ra_owner_collateral_ata A) = ra_owner A" "tk_mint T l (ra_owner_collateral_ata A) = ra_collateral_mint A"
    "rd_owner dep = ra_owner A" "rd_owner dep' = rd_owner dep"
proof -
  obtain d c where o: "rd_owner dep = ra_owner A" "tk_owner T l (ra_owner_collateral_ata A) = ra_owner A"
      "tk_mint T l (ra_owner_collateral_ata A) = ra_collateral_mint A" "ra_reactor_coll_vault A = rp_coll_vault rp"
    and r: "reactor_realize (rp_pool_state rp) dep grid = Inr (d, c)"
    and t: "(if rd_pending_collateral_gain d > 0
        then bindR (cpi (tk_transfer T l (ra_reactor_coll_vault A) (ra_owner_collateral_ata A) (ra_reactor_pool A) (rd_pending_collateral_gain d)))
          (\<lambda>l. Inr (l, (rd_set_snapshot d (rp_pool_state rp) grid)\<lparr> rd_deposited_fusd := c, rd_pending_collateral_gain := 0 \<rparr>))
        else Inr (l, (rd_set_snapshot d (rp_pool_state rp) grid)\<lparr> rd_deposited_fusd := c \<rparr>)) = Inr (l', dep')"
    using assms(1) unfolding claim_reactor_gains_handler_def Let_def bindR_Inr ensure_Inr ok_or_Inr case_prod_Inr
    by (elim exE conjE) (simp add: num_simps split del: if_split cong: if_cong)
  obtain g where g: "d = dep\<lparr> rd_pending_collateral_gain := rd_pending_collateral_gain dep + g \<rparr>"
      "collateral_gain grid REACTOR_MAX_SCALES (rd_deposited_fusd dep) (rd_snapshot_of dep) = Inr g"
    using reactor_realize_Inr(2) [OF r] by blast
  have dep': "rd_pending_collateral_gain dep' = 0" "rd_deposited_fusd dep' = c" "rd_owner dep' = rd_owner d"
      "rd_snapshot_of dep' = pool_snapshot (rp_pool_state rp) grid REACTOR_MAX_SCALES"
    using t by (auto simp: if_Inr res_simps)
  show thesis
  proof (rule that [OF g(2) refl dep'(1)])
    show "pool_backs rp (deps(k \<mapsto> dep'))" if "deps k = Some dep" "pool_backs rp deps"
      using pool_backs_reset [OF that(2,1) reactor_realize_Inr(1) [OF r], of "rp_total_deposits rp" dep' grid REACTOR_MAX_SCALES] dep'
      by simp
    show "l' = l \<and> rd_pending_collateral_gain dep + g = 0 \<or>
        tk_transfer T l (rp_coll_vault rp) (ra_owner_collateral_ata A) (ra_reactor_pool A) (rd_pending_collateral_gain dep + g) = Some l'"
      using t o g by (auto simp: if_Inr res_simps)
  qed (use o dep' g in auto)
qed

subsection \<open>Providing and withdrawing again\<close>

text \<open>A fresh deposit is worth what was recorded.\<close>

lemma compounded_fresh:
  assumes "pool_ok st" "n < 2 ^ 64" "ps_p st' = ps_p st" "ps_scale st' = ps_scale st" "ps_epoch st' = ps_epoch st"
  shows "compounded_deposit st' n (pool_snapshot st grid stride) = Inr n"
proof (cases "n = 0")
  case False
  have p: "0 < ps_p st" "is_u128 (ps_p st)" "is_u128 n"
    using assms(1,2) by (auto simp: pool_ok_def SCALE_FACTOR_def DECIMAL_PRECISION_def is_u128_def)
  have "mul_div_floor n (ps_p st) (ps_p st) = Some n"
    using p by (simp add: mul_div_floor_Some is_u128_def)
  moreover have "sub_or_panic (ps_scale st) (ps_scale st) = (Inr 0 :: 'a failure + nat)"
    by (simp add: sub_or_panic_def checked_sub_def)
  moreover have "\<not> n < n div 1000000000" by (simp add: not_less)
  ultimately show ?thesis using False by (simp add: compounded_deposit_def pool_snapshot_def assms(3-5))
qed (simp add: compounded_deposit_def)

text \<open>
  C25. Providing an amount to the reactor and withdrawing the same amount right after gives it back
  exactly: the owner's token account, the pool's total and its vault are where they were, and the
  deposit is the one realized at the first step.
\<close>

theorem provide_withdraw_roundtrip:
  assumes "provide_to_reactor_handler T A amount l rp grid dep = Inr (l1, rp1, dep1)"
    and "withdraw_from_reactor_handler T A amount l1 rp1 grid dep1 = Inr (l2, rp2, dep2)"
    and "token_laws T" "pool_ok (rp_pool_state rp)" "tk_owner T l (rp_fusd_vault rp) \<noteq> ra_owner A"
  shows "rp2 = rp \<and> tk_amount T l2 = tk_amount T l \<and>
    compounded_deposit (rp_pool_state rp) (rd_deposited_fusd dep) (rd_snapshot_of dep) =
      (Inr (rd_deposited_fusd dep2) :: fusd_error failure + nat)"
proof -
  obtain d c where o: "tk_owner T l (ra_owner_fusd_ata A) = ra_owner A" "ra_reactor_fusd_vault A = rp_fusd_vault rp" "0 < amount"
    and r: "reactor_realize (rp_pool_state rp) dep grid = Inr (d, c)" and b: "c + amount < 2 ^ 64"
    and t: "tk_transfer T l (ra_owner_fusd_ata A) (ra_reactor_fusd_vault A) (ra_owner A) amount = Some l1"
    and rp1: "rp1 = rp\<lparr> rp_total_deposits := rp_total_deposits rp + amount \<rparr>"
    and dep1: "dep1 = (rd_set_snapshot d (rp_pool_state rp) grid)\<lparr> rd_deposited_fusd := c + amount \<rparr>"
    using assms(1) unfolding provide_to_reactor_handler_def bindR_Inr ensure_Inr ok_or_Inr case_prod_Inr
    by (elim exE conjE) (simp add: num_simps)
  have c1: "compounded_deposit (rp_pool_state rp1) (rd_deposited_fusd dep1) (rd_snapshot_of dep1) = (Inr (c + amount) :: fusd_error failure + nat)"
    unfolding dep1 using b by (simp add: rp1 compounded_fresh [OF assms(4)])
  obtain d' c' where r': "reactor_realize (rp_pool_state rp1) dep1 grid = Inr (d', c')"
    and t': "(if min amount c' > 0
        then cpi (tk_transfer T l1 (ra_reactor_fusd_vault A) (ra_owner_fusd_ata A) (ra_reactor_pool A) (min amount c'))
        else Inr l1) = Inr l2"
    and rp2: "rp2 = rp1\<lparr> rp_total_deposits := rp_total_deposits rp1 - min amount c' \<rparr>"
    and dep2: "dep2 = (rd_set_snapshot d' (rp_pool_state rp1) grid)\<lparr> rd_deposited_fusd := c' - min amount c' \<rparr>"
    using assms(2) unfolding withdraw_from_reactor_handler_def Let_def bindR_Inr ensure_Inr ok_or_Inr case_prod_Inr
    by (elim exE conjE) (simp add: num_simps)
  have c': "c' = c + amount" using reactor_realize_Inr(1) [OF r'] c1 by simp
  have m: "min amount c' = amount" by (simp add: c')
  have ne: "ra_owner_fusd_ata A \<noteq> rp_fusd_vault rp" using o(1) assms(5) by auto
  have t2: "tk_transfer T l1 (rp_fusd_vault rp) (ra_owner_fusd_ata A) (ra_reactor_pool A) amount = Some l2"
    using t' o(2,3) by (simp add: m ok_or_Inr)
  note t = t [unfolded o(2)]
  have "tk_amount T l2 x = tk_amount T l x" for x
  proof -
    consider "x = ra_owner_fusd_ata A" | "x = rp_fusd_vault rp" | "x \<noteq> ra_owner_fusd_ata A" "x \<noteq> rp_fusd_vault rp" by blast
    then show ?thesis
    proof cases
      case 1
      then show ?thesis using transferD(1,6) [OF assms(3) t] transferD(7) [OF assms(3) t2] ne by simp
    next
      case 2
      then show ?thesis using transferD(7) [OF assms(3) t] transferD(6) [OF assms(3) t2] ne by simp
    next
      case 3
      then show ?thesis using transferD(9) [OF assms(3) t] transferD(9) [OF assms(3) t2] by simp
    qed
  qed
  moreover have "rp2 = rp" by (simp add: rp2 m rp1)
  moreover have "rd_deposited_fusd dep2 = c" by (simp add: dep2 m c')
  ultimately show ?thesis using reactor_realize_Inr(1) [OF r] by auto
qed

text \<open>A pool with one depositor.\<close>

definition pool0 :: reactor_pool where
  "pool0 = \<lparr> rp_collateral_mint = 1, rp_fusd_vault = 12, rp_coll_vault = 13, rp_epoch_to_scale_to_sum = 14,
     rp_p = DECIMAL_PRECISION, rp_epoch = 0, rp_scale = 0, rp_total_deposits = 0, rp_last_coll_error = 0, rp_last_loss_error = 0 \<rparr>"

definition reactor_accounts0 :: reactor_accounts where
  "reactor_accounts0 = \<lparr> ra_owner = 5, ra_collateral_mint = 1, ra_fusd_mint = 8, ra_reactor_pool = 11, ra_epoch_to_scale_to_sum = 14,
     ra_reactor_deposit = 15, ra_owner_fusd_ata = 10, ra_owner_collateral_ata = 7, ra_reactor_fusd_vault = 12, ra_reactor_coll_vault = 13 \<rparr>"

definition deposit0 :: "nat \<Rightarrow> reactor_deposit" where
  "deposit0 n = \<lparr> rd_owner = 5, rd_reactor_pool = 11, rd_deposited_fusd = n, rd_snapshot_p = DECIMAL_PRECISION, rd_snapshot_s = 0,
     rd_snapshot_scale = 0, rd_snapshot_epoch = 0, rd_pending_collateral_gain = 0 \<rparr>"

definition reactor_ledger0 :: "nat \<Rightarrow> nat \<Rightarrow> ledger" where
  "reactor_ledger0 a b = \<lparr> lg_amount = (\<lambda>_. 0)(10 := a, 12 := b), lg_mint = (\<lambda>_. 0)(10 := 8, 12 := 8),
     lg_owner = (\<lambda>_. 0)(10 := 5, 12 := 11), lg_supply = (\<lambda>_. 0)(8 := a + b), lg_lamports = (\<lambda>_. 0) \<rparr>"

lemmas reactor_scenario_defs = pool0_def reactor_accounts0_def deposit0_def reactor_ledger0_def ledger_runtime_def

lemma realize0:
  assumes "n < 2 ^ 64"
  shows "reactor_realize (rp_pool_state (pool0\<lparr> rp_total_deposits := t \<rparr>)) (deposit0 n) (replicate 512 0) = Inr (deposit0 n, n)"
    "rd_set_snapshot (deposit0 n) (rp_pool_state (pool0\<lparr> rp_total_deposits := t \<rparr>)) (replicate 512 0) = deposit0 n"
proof -
  have "s_idx 0 0 16 512 = Some 0" "s_idx 0 1 16 512 = Some 1"
    by (simp_all add: s_idx_def checked_mul_def checked_add_def try_from_def)
  then have g: "grid_at (replicate 512 0) (s_idx 0 0 16 512) = 0" "grid_at (replicate 512 0) (s_idx 0 (Suc 0) 16 512) = 0"
    by (simp_all add: grid_at_def)
  have p: "rd_snapshot_of (deposit0 n) = pool_snapshot (rp_pool_state pool0) (replicate 512 0) REACTOR_MAX_SCALES"
    by (simp add: rd_snapshot_of_def deposit0_def pool_snapshot_def rp_pool_state_def pool0_def g REACTOR_MAX_SCALES_def)
  have c: "compounded_deposit (rp_pool_state (pool0\<lparr> rp_total_deposits := t \<rparr>)) n (rd_snapshot_of (deposit0 n)) = (Inr n :: fusd_error failure + nat)"
    unfolding p by (rule compounded_fresh [OF _ assms]) (simp_all add: pool_ok_def rp_pool_state_def pool0_def SCALE_FACTOR_def DECIMAL_PRECISION_def)
  have "mul_div_floor n 0 DECIMAL_PRECISION = Some 0"
    using assms by (simp add: mul_div_floor_Some is_u128_def DECIMAL_PRECISION_def)
  then have "collateral_gain (replicate 512 0) 16 n (rd_snapshot_of (deposit0 n)) = Inr 0"
    by (simp add: collateral_gain_def rd_snapshot_of_def deposit0_def g add_or_panic_def checked_add_def)
  then show "reactor_realize (rp_pool_state (pool0\<lparr> rp_total_deposits := t \<rparr>)) (deposit0 n) (replicate 512 0) = Inr (deposit0 n, n)"
    using c by (simp add: reactor_realize_def REACTOR_MAX_SCALES_def try_from_def checked_add_def deposit0_def)
  show "rd_set_snapshot (deposit0 n) (rp_pool_state (pool0\<lparr> rp_total_deposits := t \<rparr>)) (replicate 512 0) = deposit0 n"
    by (simp add: rd_set_snapshot_def pool_snapshot_def rp_pool_state_def pool0_def deposit0_def REACTOR_MAX_SCALES_def g)
qed

lemma provide0:
  "provide_to_reactor_handler ledger_runtime reactor_accounts0 40 (reactor_ledger0 100 0) pool0 (replicate 512 0) (deposit0 0) =
     Inr (reactor_ledger0 60 40, pool0\<lparr> rp_total_deposits := 40 \<rparr>, deposit0 40)"
proof -
  have t: "tk_transfer ledger_runtime (reactor_ledger0 100 0) 10 12 5 40 = Some (reactor_ledger0 60 40)"
    "tk_mint ledger_runtime (reactor_ledger0 100 0) 10 = 8" "tk_owner ledger_runtime (reactor_ledger0 100 0) 10 = 5"
    by (simp_all add: reactor_ledger0_def ledger_runtime_def fun_eq_iff)
  have p: "pool0\<lparr> rp_total_deposits := 0 \<rparr> = pool0" "(deposit0 0)\<lparr> rd_deposited_fusd := 40 \<rparr> = deposit0 40"
    by (simp_all add: pool0_def deposit0_def)
  have a: "rp_epoch_to_scale_to_sum pool0 = 14" "rp_fusd_vault pool0 = 12" "rp_total_deposits pool0 = 0" "rd_owner (deposit0 0) = 5"
    by (simp_all add: pool0_def deposit0_def)
  show ?thesis
    by (simp add: provide_to_reactor_handler_def reactor_accounts0_def t a p realize0 [of 0 0, unfolded p, simplified] checked_add_def try_from_def)
qed

lemma withdraw_from0:
  "withdraw_from_reactor_handler ledger_runtime reactor_accounts0 40 (reactor_ledger0 60 40) (pool0\<lparr> rp_total_deposits := 40 \<rparr>)
     (replicate 512 0) (deposit0 40) = Inr (reactor_ledger0 100 0, pool0, deposit0 0)"
proof -
  have t: "tk_transfer ledger_runtime (reactor_ledger0 60 40) 12 10 11 40 = Some (reactor_ledger0 100 0)"
    "tk_mint ledger_runtime (reactor_ledger0 60 40) 10 = 8" "tk_owner ledger_runtime (reactor_ledger0 60 40) 10 = 5"
    by (simp_all add: reactor_ledger0_def ledger_runtime_def fun_eq_iff)
  have p: "pool0\<lparr> rp_total_deposits := 0 \<rparr> = pool0" "(deposit0 40)\<lparr> rd_deposited_fusd := 0 \<rparr> = deposit0 0"
    by (simp_all add: pool0_def deposit0_def)
  have a: "rp_epoch_to_scale_to_sum pool0 = 14" "rp_fusd_vault pool0 = 12" "rd_owner (deposit0 40) = 5"
    by (simp_all add: pool0_def deposit0_def)
  show ?thesis
    by (simp add: withdraw_from_reactor_handler_def reactor_accounts0_def t a p realize0 [of 40 40, simplified] checked_sub_def try_from_def)
qed

theorem provide_withdraw_roundtrip_witness:
  "provide_to_reactor_handler ledger_runtime reactor_accounts0 40 (reactor_ledger0 100 0) pool0 (replicate 512 0) (deposit0 0) =
     Inr (reactor_ledger0 60 40, pool0\<lparr> rp_total_deposits := 40 \<rparr>, deposit0 40) \<and>
   withdraw_from_reactor_handler ledger_runtime reactor_accounts0 40 (reactor_ledger0 60 40) (pool0\<lparr> rp_total_deposits := 40 \<rparr>)
     (replicate 512 0) (deposit0 40) = Inr (reactor_ledger0 100 0, pool0, deposit0 0) \<and>
   token_laws ledger_runtime \<and> pool_ok (rp_pool_state pool0) \<and>
   tk_owner ledger_runtime (reactor_ledger0 100 0) (rp_fusd_vault pool0) \<noteq> ra_owner reactor_accounts0 \<and>
   compounded_deposit (rp_pool_state pool0) (rd_deposited_fusd (deposit0 0)) (rd_snapshot_of (deposit0 0)) =
      (Inr (rd_deposited_fusd (deposit0 0)) :: fusd_error failure + nat)"
proof -
  have p: "pool_ok (rp_pool_state pool0)" by (simp add: pool_ok_def rp_pool_state_def pool0_def SCALE_FACTOR_def DECIMAL_PRECISION_def)
  have o: "tk_owner ledger_runtime (reactor_ledger0 100 0) (rp_fusd_vault pool0) \<noteq> ra_owner reactor_accounts0"
    by (simp add: reactor_scenario_defs)
  show ?thesis
    using provide0 withdraw_from0 provide_withdraw_roundtrip [OF provide0 withdraw_from0 ledger_runtime_laws p o] ledger_runtime_laws p o
    by blast
qed

end
