(* ===== verification/Backstop.thy ===== *)
theory Backstop
  imports Runtime Supply_Transition
begin

text \<open>
  The global backstop reserve, \<^verbatim>\<open>programs/fusd-core/src/instructions/global_backstop.rs\<close>: what a market
  may draw from it, funding it and taking out what exceeds its cap. The timelocked changes of its
  parameters are with the other governance instructions.
\<close>

definition draw_available :: "global_backstop_reserve \<Rightarrow> nat \<Rightarrow> nat \<Rightarrow> nat \<Rightarrow> nat \<Rightarrow> nat" where
  "draw_available bs market_global_contributed market_global_drawn market_debt reserve_balance =
     (let contribution_arm = saturating_add 128 (gb_draw_base_allowance bs)
            (saturating_mul 128 market_global_contributed (gb_draw_k_bps bs) div 10000);
          ceiling_arm = saturating_mul 128 reserve_balance (gb_draw_ceiling_share_bps bs) div 10000;
          debt_arm = saturating_mul 128 market_debt (gb_draw_debt_share_bps bs) div 10000;
          cap = min (min contribution_arm ceiling_arm) debt_arm
      in min (cap - market_global_drawn) reserve_balance)"

record backstop_accounts =
  ba_signer :: pubkey
  ba_config :: pubkey
  ba_fusd_mint :: pubkey
  ba_backstop :: pubkey
  ba_backstop_fusd_vault :: pubkey
  ba_signer_fusd_ata :: pubkey
  ba_recipient_fusd_ata :: pubkey

definition init_backstop_handler ::
    "'l runtime \<Rightarrow> backstop_accounts \<Rightarrow> 'l \<Rightarrow> protocol_config \<Rightarrow> ('l \<times> global_backstop_reserve) res" where
  "init_backstop_handler T A l cfg =
     bindR (cpi (sys_create T l (ba_signer A) (ba_backstop A))) (\<lambda>l.
     bindR (cpi (tk_init_account T l (ba_signer A) (ba_backstop_fusd_vault A) (ba_fusd_mint A) (ba_backstop A))) (\<lambda>l.
     bindR (require (ba_signer A = cfg_gov_authority cfg) Unauthorized) (\<lambda>_.
     Inr (l, \<lparr> gb_fusd_vault = ba_backstop_fusd_vault A, gb_cut_bps = DEFAULT_BACKSTOP_CUT_BPS,
               gb_reserve_cap = DEFAULT_BACKSTOP_RESERVE_CAP, gb_draw_base_allowance = DEFAULT_BACKSTOP_DRAW_BASE,
               gb_draw_k_bps = DEFAULT_BACKSTOP_DRAW_K_BPS,
               gb_draw_ceiling_share_bps = DEFAULT_BACKSTOP_DRAW_CEILING_SHARE_BPS,
               gb_draw_debt_share_bps = DEFAULT_BACKSTOP_DRAW_DEBT_SHARE_BPS,
               gb_total_contributed = 0, gb_total_absorbed = 0, gb_total_withdrawn = 0 \<rparr>))))"

definition fund_backstop_handler ::
    "'l runtime \<Rightarrow> backstop_accounts \<Rightarrow> nat \<Rightarrow> 'l \<Rightarrow> global_backstop_reserve \<Rightarrow> ('l \<times> global_backstop_reserve) res" where
  "fund_backstop_handler T A amount l bs =
     bindR (constraint (ba_backstop_fusd_vault A = gb_fusd_vault bs)) (\<lambda>_.
     bindR (constraint (tk_mint T l (ba_signer_fusd_ata A) = ba_fusd_mint A)) (\<lambda>_.
     bindR (constraint (tk_owner T l (ba_signer_fusd_ata A) = ba_signer A)) (\<lambda>_.
     bindR (require (amount > 0) ZeroAmount) (\<lambda>_.
     bindR (cpi (tk_transfer T l (ba_signer_fusd_ata A) (ba_backstop_fusd_vault A) (ba_signer A) amount)) (\<lambda>l.
     bindR (math (checked_add 128 (gb_total_contributed bs) amount)) (\<lambda>total_contributed.
     Inr (l, bs\<lparr> gb_total_contributed := total_contributed \<rparr>)))))))"

definition withdraw_backstop_excess_handler ::
    "'l runtime \<Rightarrow> backstop_accounts \<Rightarrow> nat \<Rightarrow> 'l \<Rightarrow> governance_gate \<Rightarrow> global_backstop_reserve \<Rightarrow>
     ('l \<times> global_backstop_reserve) res" where
  "withdraw_backstop_excess_handler T A amount l gate bs =
     bindR (constraint (ba_backstop_fusd_vault A = gb_fusd_vault bs)) (\<lambda>_.
     bindR (constraint (tk_mint T l (ba_recipient_fusd_ata A) = ba_fusd_mint A)) (\<lambda>_.
     bindR (require (ba_signer A = gg_inbound_authority gate) Unauthorized) (\<lambda>_.
     bindR (require (amount > 0) ZeroAmount) (\<lambda>_.
     bindR (require (ba_recipient_fusd_ata A \<noteq> ba_backstop_fusd_vault A) InvalidRecipient) (\<lambda>_.
     let balance = tk_amount T l (ba_backstop_fusd_vault A); excess = balance - gb_reserve_cap bs in
     bindR (require (amount \<le> excess) InsufficientBackstopExcess) (\<lambda>_.
     bindR (cpi (tk_transfer T l (ba_backstop_fusd_vault A) (ba_recipient_fusd_ata A) (ba_backstop A) amount)) (\<lambda>l.
     bindR (math (checked_add 128 (gb_total_withdrawn bs) amount)) (\<lambda>total_withdrawn.
     Inr (l, bs\<lparr> gb_total_withdrawn := total_withdrawn \<rparr>)))))))))"

subsection \<open>What a market can draw\<close>

lemma saturating_mul_le: "saturating_mul w a b \<le> a * b"
  by (simp add: saturating_mul_def)

lemma draw_available_bounds:
  shows "draw_available bs c d debt bal \<le> bal"
    and "d + draw_available bs c d debt bal \<le> max d (gb_draw_base_allowance bs + c * gb_draw_k_bps bs div 10000)"
    and "10000 * draw_available bs c d debt bal \<le> bal * gb_draw_ceiling_share_bps bs"
    and "10000 * draw_available bs c d debt bal \<le> debt * gb_draw_debt_share_bps bs"
proof -
  let ?a = "saturating_add 128 (gb_draw_base_allowance bs) (saturating_mul 128 c (gb_draw_k_bps bs) div 10000)"
    and ?b = "saturating_mul 128 bal (gb_draw_ceiling_share_bps bs) div 10000"
    and ?c = "saturating_mul 128 debt (gb_draw_debt_share_bps bs) div 10000"
  have r: "draw_available bs c d debt bal = min (min (min ?a ?b) ?c - d) bal" by (simp add: draw_available_def Let_def)
  show "draw_available bs c d debt bal \<le> bal" unfolding r by simp
  have "?a \<le> gb_draw_base_allowance bs + saturating_mul 128 c (gb_draw_k_bps bs) div 10000" by (rule saturating_add_bounds)
  also have "\<dots> \<le> gb_draw_base_allowance bs + c * gb_draw_k_bps bs div 10000"
    by (intro add_left_mono div_le_mono saturating_mul_le)
  finally have a: "?a \<le> gb_draw_base_allowance bs + c * gb_draw_k_bps bs div 10000" .
  show "d + draw_available bs c d debt bal \<le> max d (gb_draw_base_allowance bs + c * gb_draw_k_bps bs div 10000)"
    unfolding r using a by linarith
  have b: "10000 * ?b \<le> bal * gb_draw_ceiling_share_bps bs"
    by (rule le_trans [OF times_div_less_eq_dividend saturating_mul_le])
  show "10000 * draw_available bs c d debt bal \<le> bal * gb_draw_ceiling_share_bps bs"
    unfolding r using b by linarith
  have c: "10000 * ?c \<le> debt * gb_draw_debt_share_bps bs"
    by (rule le_trans [OF times_div_less_eq_dividend saturating_mul_le])
  show "10000 * draw_available bs c d debt bal \<le> debt * gb_draw_debt_share_bps bs"
    unfolding r using c by linarith
qed

lemma fund_backstop_effect:
  assumes "fund_backstop_handler T A amount l bs = Inr (l', bs')"
  shows "tk_transfer T l (ba_signer_fusd_ata A) (gb_fusd_vault bs) (ba_signer A) amount = Some l'"
    "tk_owner T l (ba_signer_fusd_ata A) = ba_signer A" "bs' = bs\<lparr> gb_total_contributed := gb_total_contributed bs + amount \<rparr>"
  using assms unfolding fund_backstop_handler_def bindR_Inr ensure_Inr ok_or_Inr checked_add_Some by auto

lemma withdraw_excess_effect:
  assumes "withdraw_backstop_excess_handler T A amount l gate bs = Inr (l', bs')"
  shows "tk_transfer T l (gb_fusd_vault bs) (ba_recipient_fusd_ata A) (ba_backstop A) amount = Some l'"
    "ba_signer A = gg_inbound_authority gate" "ba_recipient_fusd_ata A \<noteq> gb_fusd_vault bs"
    "gb_reserve_cap bs + amount \<le> tk_amount T l (gb_fusd_vault bs)" "0 < amount"
    "bs' = bs\<lparr> gb_total_withdrawn := gb_total_withdrawn bs + amount \<rparr>"
  using assms unfolding withdraw_backstop_excess_handler_def Let_def bindR_Inr ensure_Inr ok_or_Inr checked_add_Some by auto

text \<open>
  C26. A market never draws more from the backstop than the reserve holds, than the ceiling share of the
  reserve, than the debt share of its own debt, or, over all its draws, than the base allowance plus
  its own contributions scaled by the draw factor (unless it had drawn more before the bound fell).
\<close>

theorem draw_available_isolated:
  "draw_available bs contributed drawn debt balance \<le> balance \<and>
   10000 * draw_available bs contributed drawn debt balance \<le> balance * gb_draw_ceiling_share_bps bs \<and>
   10000 * draw_available bs contributed drawn debt balance \<le> debt * gb_draw_debt_share_bps bs \<and>
   drawn + draw_available bs contributed drawn debt balance \<le>
     max drawn (gb_draw_base_allowance bs + contributed * gb_draw_k_bps bs div 10000)"
  by (intro conjI draw_available_bounds)

text \<open>
  C27. Governance can take only what the reserve holds above its cap: after the withdrawal the vault still
  holds at least the cap.
\<close>

theorem withdraw_excess_keeps_cap:
  assumes "withdraw_backstop_excess_handler T A amount l gate bs = Inr (l', bs')" "token_laws T"
  shows "gb_reserve_cap bs \<le> tk_amount T l' (gb_fusd_vault bs) \<and> ba_signer A = gg_inbound_authority gate \<and>
    tk_amount T l' (gb_fusd_vault bs) + amount = tk_amount T l (gb_fusd_vault bs)"
  using withdraw_excess_effect [OF assms(1)] transferD(1,6) [OF assms(2) withdraw_excess_effect(1) [OF assms(1)]] by auto

theorem withdraw_excess_keeps_cap_witness:
  "\<exists>l' bs'. withdraw_backstop_excess_handler ledger_runtime
       \<lparr> ba_signer = 1, ba_config = 2, ba_fusd_mint = 8, ba_backstop = 3, ba_backstop_fusd_vault = 4, ba_signer_fusd_ata = 5, ba_recipient_fusd_ata = 6 \<rparr>
       30 \<lparr> lg_amount = (\<lambda>_. 0)(4 := 130), lg_mint = (\<lambda>_. 8), lg_owner = (\<lambda>_. 3), lg_supply = (\<lambda>_. 130), lg_lamports = (\<lambda>_. 0) \<rparr>
       \<lparr> gg_inbound_authority = 1, gg_pending_inbound_authority = 0, gg_timelock_secs = 0, gg_queue_nonce = 0 \<rparr>
       \<lparr> gb_fusd_vault = 4, gb_cut_bps = 0, gb_reserve_cap = 100, gb_draw_base_allowance = 0, gb_draw_k_bps = 0,
         gb_draw_ceiling_share_bps = 0, gb_draw_debt_share_bps = 0, gb_total_contributed = 0, gb_total_absorbed = 0, gb_total_withdrawn = 0 \<rparr> = Inr (l', bs') \<and>
     token_laws ledger_runtime \<and> 100 \<le> lg_amount l' 4"
proof -
  let ?A = "\<lparr> ba_signer = 1, ba_config = 2, ba_fusd_mint = 8, ba_backstop = 3, ba_backstop_fusd_vault = 4, ba_signer_fusd_ata = 5, ba_recipient_fusd_ata = 6 \<rparr>"
    and ?l = "\<lparr> lg_amount = (\<lambda>_. 0)(4 := 130), lg_mint = (\<lambda>_. 8), lg_owner = (\<lambda>_. 3), lg_supply = (\<lambda>_. 130), lg_lamports = (\<lambda>_. 0) \<rparr>"
    and ?g = "\<lparr> gg_inbound_authority = 1, gg_pending_inbound_authority = 0, gg_timelock_secs = 0, gg_queue_nonce = 0 \<rparr>"
    and ?b = "\<lparr> gb_fusd_vault = 4, gb_cut_bps = 0, gb_reserve_cap = 100, gb_draw_base_allowance = 0, gb_draw_k_bps = 0,
         gb_draw_ceiling_share_bps = 0, gb_draw_debt_share_bps = 0, gb_total_contributed = 0, gb_total_absorbed = 0, gb_total_withdrawn = 0 \<rparr>"
  obtain l' bs' where r: "withdraw_backstop_excess_handler ledger_runtime ?A 30 ?l ?g ?b = Inr (l', bs')"
    by (simp add: withdraw_backstop_excess_handler_def ledger_runtime_def checked_add_def)
  have "tk_amount ledger_runtime l' 4 = lg_amount l' 4" by (simp add: ledger_runtime_def)
  then show ?thesis using r withdraw_excess_keeps_cap [OF r ledger_runtime_laws] ledger_runtime_laws by auto
qed

end
