(* ===== verification/Ledger_Frame.thy ===== *)
theory Ledger_Frame
  imports Runtime
begin

text \<open>
  What a sequence of token operations leaves alone. \<open>debits T X l l'\<close> says that only the accounts in
  \<open>X\<close> lost tokens on the way from \<open>l\<close> to \<open>l'\<close>; the rules compose along a handler.
\<close>

definition debits :: "'l runtime \<Rightarrow> pubkey set \<Rightarrow> 'l \<Rightarrow> 'l \<Rightarrow> bool" where
  "debits T X l l' \<longleftrightarrow> tk_mint T l' = tk_mint T l \<and> tk_owner T l' = tk_owner T l \<and>
     (\<forall>a. a \<notin> X \<longrightarrow> tk_amount T l a \<le> tk_amount T l' a)"

lemma debitsD:
  assumes "debits T X l l'"
  shows "tk_mint T l' = tk_mint T l" "tk_owner T l' = tk_owner T l" "a \<notin> X \<Longrightarrow> tk_amount T l a \<le> tk_amount T l' a"
  using assms by (auto simp: debits_def)

lemma debits_refl: "debits T X l l"
  by (simp add: debits_def)

lemma debits_trans: "debits T X l l1 \<Longrightarrow> debits T X l1 l2 \<Longrightarrow> debits T X l l2"
  by (auto simp: debits_def intro: order_trans)

lemma debits_mono: "debits T X l l' \<Longrightarrow> X \<subseteq> Y \<Longrightarrow> debits T Y l l'"
  by (auto simp: debits_def)

lemma debits_same: "same_tokens T l l' \<Longrightarrow> debits T X l l'"
  by (simp add: debits_def same_tokens_def)

lemma debits_transfer:
  assumes "tk_transfer T l a b auth n = Some l'" "token_laws T" "a \<in> X"
  shows "debits T X l l'"
  unfolding debits_def
proof (intro conjI allI impI)
  fix x
  assume "x \<notin> X"
  then have "x \<noteq> a" using assms(3) by auto
  then show "tk_amount T l x \<le> tk_amount T l' x"
    using transferD(7-9) [OF assms(2,1)] by (cases "x = b"; cases "a = b") auto
qed (use transferD [OF assms(2,1)] in auto)

lemma debits_mint:
  assumes "tk_mint_to T l m a auth n = Some l'" "token_laws T"
  shows "debits T X l l'"
  using mint_toD [OF assms(2,1)] by (simp add: debits_def)

lemma debits_burn:
  assumes "tk_burn T l m a auth n = Some l'" "token_laws T" "a \<in> X"
  shows "debits T X l l'"
  using burnD [OF assms(2,1)] assms(3) by (auto simp: debits_def)

text \<open>Accounts of different owners are different accounts.\<close>

lemma owner_neq: "tk_owner T l a \<noteq> tk_owner T l b \<Longrightarrow> a \<noteq> b"
  by auto

text \<open>\<open>n\<close> tokens of one mint were burned, and none of another mint were minted or burned.\<close>

definition burned :: "'l runtime \<Rightarrow> pubkey \<Rightarrow> nat \<Rightarrow> 'l \<Rightarrow> 'l \<Rightarrow> bool" where
  "burned T mint n l l' \<longleftrightarrow> tk_supply T l' mint + n = tk_supply T l mint \<and>
     (\<forall>x. x \<noteq> mint \<longrightarrow> tk_supply T l' x = tk_supply T l x)"

lemma burned_0: "tk_supply T l' = tk_supply T l \<Longrightarrow> burned T mint 0 l l'"
  by (simp add: burned_def)

lemma burned_same: "same_tokens T l l' \<Longrightarrow> burned T mint 0 l l'"
  by (simp add: burned_def same_tokens_def)

lemma burned_burn: "tk_burn T l mint a auth n = Some l' \<Longrightarrow> token_laws T \<Longrightarrow> burned T mint n l l'"
  using burnD [of T l mint a auth n l'] by (simp add: burned_def)

lemma burned_trans: "burned T mint n l l1 \<Longrightarrow> burned T mint k l1 l2 \<Longrightarrow> burned T mint (n + k) l l2"
  by (simp add: burned_def)

end
