(* ===== verification/Liquidate.thy ===== *)
theory Liquidate
  imports Market_Ops Reactor_Ops Backstop Recovery Ledger_Frame Cdp_Safety
begin

text \<open>
  Liquidation, \<^verbatim>\<open>programs/fusd-core/src/instructions/liquidate.rs\<close>. The handler is one definition per
  stage, in the order of the source: gates and realization, seizure, the split of the debt over the
  tiers, gas compensation, the offset against the reactor pool, redistribution or the protocol's own
  tiers, and the closing of the position. \<open>liquidate_handler\<close> composes them.
\<close>

record liq_accounts =
  la_liquidator :: pubkey
  la_collateral_mint :: pubkey
  la_market :: pubkey
  la_position :: pubkey
  la_reactor_pool :: pubkey
  la_epoch_to_scale_to_sum :: pubkey
  la_market_coll_vault :: pubkey
  la_reactor_fusd_vault :: pubkey
  la_reactor_coll_vault :: pubkey
  la_fusd_mint :: pubkey
  la_liquidator_collateral_ata :: pubkey
  la_insurance_buffer :: pubkey
  la_buffer_fusd_vault :: pubkey
  la_backstop :: pubkey
  la_backstop_fusd_vault :: "pubkey option"

subsection \<open>Stages\<close>

definition liq_constraints :: "'l runtime \<Rightarrow> liq_accounts \<Rightarrow> 'l \<Rightarrow> market \<Rightarrow> position \<Rightarrow> reactor_pool \<Rightarrow> insurance_buffer \<Rightarrow> unit res" where
  "liq_constraints T A l m p rp b =
     bindR (constraint (p_collateral_mint p = la_collateral_mint A)) (\<lambda>_.
     bindR (constraint (la_epoch_to_scale_to_sum A = rp_epoch_to_scale_to_sum rp)) (\<lambda>_.
     bindR (constraint (la_market_coll_vault A = m_collateral_vault m)) (\<lambda>_.
     bindR (constraint (la_reactor_fusd_vault A = rp_fusd_vault rp)) (\<lambda>_.
     bindR (constraint (la_reactor_coll_vault A = rp_coll_vault rp)) (\<lambda>_.
     bindR (constraint (tk_mint T l (la_liquidator_collateral_ata A) = la_collateral_mint A)) (\<lambda>_.
     bindR (constraint (tk_owner T l (la_liquidator_collateral_ata A) = la_liquidator A)) (\<lambda>_.
     constraint (la_buffer_fusd_vault A = ib_fusd_vault b))))))))"

definition liq_open :: "clock \<Rightarrow> market \<Rightarrow> position \<Rightarrow> (market \<times> position \<times> nat) res" where
  "liq_open clk m p =
     bindR (accrue m (unix_timestamp clk)) (\<lambda>m.
     bindR (require (m_spot m > 0 \<and> m_debt_spot m > 0) OracleUnavailable) (\<lambda>_.
     bindR (require (clock_slot clk - m_spot_updated_slot m \<le> MAX_PRICE_STALENESS_SLOTS) StalePrice) (\<lambda>_.
     bindR (require (clock_slot clk \<ge> m_liq_grace_until m) LiquidationGracePeriod) (\<lambda>_.
     bindR (require (clock_slot clk \<ge> m_liq_divergence_until m) OracleDivergent) (\<lambda>_.
     bindR (weighted p) (\<lambda>old_weighted.
     bindR (realize m p (unix_timestamp clk)) (\<lambda>p.
     bindR (require (p_recorded_debt p > 0) PositionHealthy) (\<lambda>_.
     bindR (require (\<not> is_healthy (p_ink p) (p_recorded_debt p) (m_debt_spot m) (m_mcr_bps m)) PositionHealthy) (\<lambda>_.
     Inr (m, p, old_weighted))))))))))"

text \<open>Collateral seized beyond the bonus cap is credited to the owner.\<close>

definition liq_credit :: "nat \<Rightarrow> market \<Rightarrow> position \<Rightarrow> (market \<times> position) res" where
  "liq_credit surplus_coll m p =
     (if surplus_coll > 0
      then bindR (math (checked_add 64 (p_coll_surplus p) surplus_coll)) (\<lambda>coll_surplus.
           bindR (math (checked_add 64 (m_total_coll_surplus m) surplus_coll)) (\<lambda>total_coll_surplus.
           Inr (m\<lparr> m_total_coll_surplus := total_coll_surplus \<rparr>, p\<lparr> p_coll_surplus := coll_surplus \<rparr>)))
      else Inr (m, p))"

text \<open>The seizure: market and position without the seized collateral, gas compensation, and what is left to distribute.\<close>

definition liq_seize :: "market \<Rightarrow> position \<Rightarrow> (market \<times> position \<times> nat \<times> nat) res" where
  "liq_seize m p =
     bindR (math (checked_sub (m_total_stakes m) (p_stake p))) (\<lambda>total_stakes.
     bindR (math (checked_sub (m_total_collateral m) (p_ink p))) (\<lambda>total_collateral.
     let m = m\<lparr> m_total_stakes := total_stakes, m_total_collateral := total_collateral \<rparr> in
     bindR (math (seize_collateral (p_ink p) (p_recorded_debt p) (m_debt_spot m) (m_liq_bonus_bps m))) (\<lambda>(seize_coll, surplus_coll).
     bindR (liq_credit surplus_coll m p) (\<lambda>(m, p).
     bindR (math (checked_mul 128 seize_coll (m_liq_gas_comp_bps m))) (\<lambda>scaled.
     bindR (sub_or_panic seize_coll (scaled div 10000)) (\<lambda>distributable.
     Inr (m, p, scaled div 10000, distributable)))))))"

definition liq_global_available ::
    "'l runtime \<Rightarrow> liq_accounts \<Rightarrow> 'l \<Rightarrow> market \<Rightarrow> global_backstop_reserve option \<Rightarrow> nat res" where
  "liq_global_available T A l m backstop =
     (case (backstop, la_backstop_fusd_vault A) of
        (Some bs, Some vault) \<Rightarrow>
          bindR (require (vault = gb_fusd_vault bs) InvalidRecipient) (\<lambda>_.
          Inr (draw_available bs (m_global_contributed m) (m_global_drawn m) (m_agg_recorded_debt m) (tk_amount T l vault)))
      | _ \<Rightarrow> Inr 0)"

text \<open>The split of the debt, the market's new debts, and the collateral of the reactor and of the rest.\<close>

definition liq_split ::
    "'l runtime \<Rightarrow> liq_accounts \<Rightarrow> 'l \<Rightarrow> market \<Rightarrow> reactor_pool \<Rightarrow> global_backstop_reserve option \<Rightarrow> nat \<Rightarrow> nat \<Rightarrow>
     (market \<times> absorption \<times> nat \<times> nat) res" where
  "liq_split T A l m rp backstop debt distributable =
     bindR (liq_global_available T A l m backstop) (\<lambda>global_available.
     let split = absorb debt (rp_total_deposits rp) (m_total_stakes m > 0) (tk_amount T l (la_buffer_fusd_vault A)) global_available in
     bindR (math (st_liquidate u128_num (m_agg_recorded_debt m) (m_bad_debt m)
              (reactor split) (redist split) (buffer split) (global split) (unhomed split))) (\<lambda>sd.
     bindR (math (mul_div_floor distributable (reactor split) debt)) (\<lambda>coll_sp.
     bindR (sub_or_panic distributable coll_sp) (\<lambda>coll_r.
     Inr (m\<lparr> m_agg_recorded_debt := ld_new_agg sd, m_bad_debt := ld_new_bad sd \<rparr>, split, coll_sp, coll_r)))))"

text \<open>A transfer of collateral out of the market's vault, when there is any.\<close>

definition pay_collateral :: "'l runtime \<Rightarrow> liq_accounts \<Rightarrow> pubkey \<Rightarrow> nat \<Rightarrow> 'l \<Rightarrow> 'l res" where
  "pay_collateral T A target n l =
     (if n > 0
      then bindR (math (try_from 64 n)) (\<lambda>n.
           cpi (tk_transfer T l (la_market_coll_vault A) target (la_market A) n))
      else Inr l)"

definition liq_offset ::
    "'l runtime \<Rightarrow> liq_accounts \<Rightarrow> nat \<Rightarrow> nat \<Rightarrow> 'l \<Rightarrow> reactor_pool \<Rightarrow> nat list \<Rightarrow> ('l \<times> reactor_pool \<times> nat list) res" where
  "liq_offset T A offset_present coll_sp l rp grid =
     (if offset_present > 0
      then bindR (map_err reactor_map_err (reactor_offset (rp_pool_state rp) grid REACTOR_MAX_SCALES offset_present coll_sp)) (\<lambda>(ps, grid).
           bindR (math (try_from 64 offset_present)) (\<lambda>offset_u64.
           bindR (cpi (tk_burn T l (la_fusd_mint A) (la_reactor_fusd_vault A) (la_reactor_pool A) offset_u64)) (\<lambda>l.
           bindR (pay_collateral T A (la_reactor_coll_vault A) coll_sp l) (\<lambda>l.
           Inr (l, rp_write_back rp ps, grid)))))
      else Inr (l, rp, grid))"

definition liq_redistribute :: "nat \<Rightarrow> nat \<Rightarrow> market \<Rightarrow> market res" where
  "liq_redistribute coll_r debt_r m =
     bindR (map_err redist_map_err (redistribute (redist_of_market m) (m_total_stakes m) coll_r debt_r)) (\<lambda>rs.
     bindR (math (checked_add 128 (m_total_collateral m) coll_r)) (\<lambda>total_collateral.
     Inr ((write_redist_state m rs)\<lparr> m_total_collateral := total_collateral \<rparr>)))"

definition liq_buffer :: "'l runtime \<Rightarrow> liq_accounts \<Rightarrow> nat \<Rightarrow> 'l \<Rightarrow> insurance_buffer \<Rightarrow> ('l \<times> insurance_buffer) res" where
  "liq_buffer T A n l b =
     (if n > 0
      then bindR (math (try_from 64 n)) (\<lambda>buf_u64.
           bindR (cpi (tk_burn T l (la_fusd_mint A) (la_buffer_fusd_vault A) (la_insurance_buffer A) buf_u64)) (\<lambda>l.
           bindR (math (checked_add 128 (ib_total_absorbed b) n)) (\<lambda>total_absorbed.
           Inr (l, b\<lparr> ib_total_absorbed := total_absorbed \<rparr>))))
      else Inr (l, b))"

definition liq_backstop ::
    "'l runtime \<Rightarrow> liq_accounts \<Rightarrow> nat \<Rightarrow> 'l \<Rightarrow> market \<Rightarrow> global_backstop_reserve option \<Rightarrow>
     ('l \<times> market \<times> global_backstop_reserve option) res" where
  "liq_backstop T A n l m backstop =
     (if n > 0
      then bindR (math (try_from 64 n)) (\<lambda>glob_u64.
           case (backstop, la_backstop_fusd_vault A) of
             (Some bs, Some vault) \<Rightarrow>
               bindR (cpi (tk_burn T l (la_fusd_mint A) vault (la_backstop A) glob_u64)) (\<lambda>l.
               bindR (math (checked_add 128 (m_global_drawn m) n)) (\<lambda>global_drawn.
               bindR (math (checked_add 128 (gb_total_absorbed bs) n)) (\<lambda>total_absorbed.
               Inr (l, m\<lparr> m_global_drawn := global_drawn \<rparr>, Some (bs\<lparr> gb_total_absorbed := total_absorbed \<rparr>)))))
           | _ \<Rightarrow> Inl Panic)
      else Inr (l, m, backstop))"

definition liq_unhomed :: "nat \<Rightarrow> market \<Rightarrow> market" where
  "liq_unhomed n m =
     (if n > 0
      then m\<lparr> m_shutdown_reason := (if m_shutdown_reason m = SHUTDOWN_REASON_NONE
                                     then SHUTDOWN_REASON_UNHOMED_BAD_DEBT else m_shutdown_reason m),
              m_shutdown := True \<rparr>
      else m)"

text \<open>The rest of the debt: redistributed, or homed in the protocol's own tiers, which keep the collateral.\<close>

definition liq_rest ::
    "'l runtime \<Rightarrow> liq_accounts \<Rightarrow> absorption \<Rightarrow> nat \<Rightarrow> 'l \<Rightarrow> market \<Rightarrow> insurance_buffer \<Rightarrow> global_backstop_reserve option \<Rightarrow>
     ('l \<times> market \<times> insurance_buffer \<times> global_backstop_reserve option) res" where
  "liq_rest T A split coll_r l m b backstop =
     (if redist split > 0
      then bindR (liq_redistribute coll_r (redist split) m) (\<lambda>m. Inr (l, m, b, backstop))
      else if buffer split > 0 \<or> global split > 0 \<or> unhomed split > 0
      then bindR (math (try_from 64 coll_r)) (\<lambda>coll_r_u64.
           bindR (math (checked_add 64 (m_protocol_collateral m) coll_r_u64)) (\<lambda>protocol_collateral.
           let m = m\<lparr> m_protocol_collateral := protocol_collateral \<rparr> in
           bindR (liq_buffer T A (buffer split) l b) (\<lambda>(l, b).
           bindR (liq_backstop T A (global split) l m backstop) (\<lambda>(l, m, backstop).
           Inr (l, liq_unhomed (unhomed split) m, b, backstop)))))
      else Inr (l, m, b, backstop))"

definition liq_snapshot :: "market \<Rightarrow> market" where
  "liq_snapshot m = m\<lparr> m_total_stakes_snapshot := m_total_stakes m,
     m_total_collateral_snapshot := (if m_total_stakes m = 0 then 0 else m_total_collateral m) \<rparr>"

definition liq_reset_position :: "market \<Rightarrow> position \<Rightarrow> position" where
  "liq_reset_position m p =
     (set_ink (p\<lparr> p_recorded_debt := 0 \<rparr>) 0)\<lparr> p_stake := 0, p_reserve_lamports := 0,
       p_redist_l_coll_snapshot := m_l_coll m, p_redist_l_art_snapshot := m_l_art m \<rparr>"

definition liquidate_handler ::
    "'l runtime \<Rightarrow> clock \<Rightarrow> liq_accounts \<Rightarrow> 'l \<Rightarrow> market \<Rightarrow> position \<Rightarrow> reactor_pool \<Rightarrow> nat list \<Rightarrow> redemption_bitmap \<Rightarrow>
     insurance_buffer \<Rightarrow> global_backstop_reserve option \<Rightarrow>
     ('l \<times> market \<times> position \<times> reactor_pool \<times> nat list \<times> redemption_bitmap \<times> insurance_buffer \<times> global_backstop_reserve option) res" where
  "liquidate_handler T clk A l m p rp grid bm b backstop =
     bindR (liq_constraints T A l m p rp b) (\<lambda>_.
     bindR (liq_open clk m p) (\<lambda>(m, p1, old_weighted).
     bindR (liq_seize m p1) (\<lambda>(m, p2, gas_comp, distributable).
     bindR (liq_split T A l m rp backstop (p_recorded_debt p1) distributable) (\<lambda>(m, split, coll_sp, coll_r).
     bindR (pay_collateral T A (la_liquidator_collateral_ata A) gas_comp l) (\<lambda>l.
     bindR (liq_offset T A (reactor split) coll_sp l rp grid) (\<lambda>(l, rp, grid).
     bindR (liq_rest T A split coll_r l m b backstop) (\<lambda>(l, m, b, backstop).
     let m = liq_snapshot m in
     bindR (if p_reserve_lamports p2 > 0
            then cpi (lamports_move T l (la_position A) (la_liquidator A) (p_reserve_lamports p2)) else Inr l) (\<lambda>l.
     let p3 = liq_reset_position m p2 in
     bindR (reweight m p3 old_weighted) (\<lambda>m.
     bindR (reconcile bm m p3 (p_recorded_debt p)) (\<lambda>(bm, p4).
     bindR (assert_collateral_vault_sufficiency T l (la_market_coll_vault A) m) (\<lambda>_.
     Inr (l, m, p4, rp, grid, bm, b, backstop))))))))))))"

subsection \<open>Effects of the stages\<close>

lemma absorb_strict:
  fixes d c b g :: nat
  assumes "s = absorb d c h b g"
  shows "reactor s + redist s + buffer s + global s + unhomed s = d" "reactor s \<le> c"
    "0 < redist s \<Longrightarrow> buffer s = 0 \<and> global s = 0 \<and> unhomed s = 0"
  unfolding assms
  by (rule absorb_cases [where d = d and c = c and h = h and b = b and g = g]; simp add: absorb_tiers)+

lemma liq_open_Inr:
  assumes "liq_open clk m p = Inr (m1, p1, w)"
  shows "accrue m (unix_timestamp clk) = Inr m1" "realize m1 p (unix_timestamp clk) = Inr p1" "w = weight p"
    "0 < m_spot m1" "0 < m_debt_spot m1" "clock_slot clk - m_spot_updated_slot m1 \<le> MAX_PRICE_STALENESS_SLOTS"
    "m_liq_grace_until m1 \<le> clock_slot clk" "m_liq_divergence_until m1 \<le> clock_slot clk"
    "0 < p_recorded_debt p1" "\<not> is_healthy (p_ink p1) (p_recorded_debt p1) (m_debt_spot m1) (m_mcr_bps m1)"
  using assms unfolding liq_open_def handler_Inr by (auto dest: weighted_weight)

lemma liq_credit_Inr:
  "liq_credit r m p = Inr (m', p') \<Longrightarrow>
     m' = m\<lparr> m_total_coll_surplus := m_total_coll_surplus m + r \<rparr> \<and> p' = p\<lparr> p_coll_surplus := p_coll_surplus p + r \<rparr>"
  unfolding liq_credit_def if_Inr handler_Inr by auto

lemma liq_seize_Inr:
  assumes "liq_seize m p = Inr (m', p', gas, dcoll)"
  obtains s r where "seize_collateral (p_ink p) (p_recorded_debt p) (m_debt_spot m) (m_liq_bonus_bps m) = Some (s, r)"
    "m' = m\<lparr> m_total_stakes := m_total_stakes m - p_stake p, m_total_collateral := m_total_collateral m - p_ink p,
       m_total_coll_surplus := m_total_coll_surplus m + r \<rparr>"
    "p' = p\<lparr> p_coll_surplus := p_coll_surplus p + r \<rparr>" "p_stake p \<le> m_total_stakes m" "p_ink p \<le> m_total_collateral m"
    "gas = s * m_liq_gas_comp_bps m div 10000" "gas + dcoll = s" "s + r = p_ink p"
proof -
  obtain s r m1 p1 where *: "p_stake p \<le> m_total_stakes m" "p_ink p \<le> m_total_collateral m"
    and sc: "seize_collateral (p_ink p) (p_recorded_debt p) (m_debt_spot m) (m_liq_bonus_bps m) = Some (s, r)"
    and i: "liq_credit r (m\<lparr> m_total_stakes := m_total_stakes m - p_stake p,
              m_total_collateral := m_total_collateral m - p_ink p \<rparr>) p = Inr (m1, p1)"
    and g: "gas = s * m_liq_gas_comp_bps m1 div 10000" "dcoll = s - gas" "gas \<le> s" "m' = m1" "p' = p1"
    using assms unfolding liq_seize_def Let_def handler_Inr sub_or_panic_Inr checked_mul_Some
    by clarify (rule that; (assumption | simp))
  note mp = liq_credit_Inr [OF i]
  show thesis
    by (rule that [OF sc]) (use mp * g seize_collateral_split [OF sc] in simp_all)
qed

lemma liq_split_Inr:
  assumes "liq_split T A l m rp bs debt dcoll = Inr (m', split, csp, cr)"
  obtains g where "split = absorb debt (rp_total_deposits rp) (m_total_stakes m > 0) (tk_amount T l (la_buffer_fusd_vault A)) g"
    "liq_global_available T A l m bs = Inr g"
    "m' = m\<lparr> m_agg_recorded_debt := m_agg_recorded_debt m - (reactor split + buffer split + global split + unhomed split),
       m_bad_debt := m_bad_debt m + unhomed split \<rparr>"
    "reactor split + buffer split + global split + unhomed split \<le> m_agg_recorded_debt m"
    "csp + cr = dcoll" "mul_div_floor dcoll (reactor split) debt = Some csp"
proof -
  obtain g sd where g: "liq_global_available T A l m bs = Inr g"
    and s: "split = absorb debt (rp_total_deposits rp) (m_total_stakes m > 0) (tk_amount T l (la_buffer_fusd_vault A)) g"
    and sd: "st_liquidate u128_num (m_agg_recorded_debt m) (m_bad_debt m)
              (reactor split) (redist split) (buffer split) (global split) (unhomed split) = Some sd"
    and c: "mul_div_floor dcoll (reactor split) debt = Some csp" "csp \<le> dcoll" "cr = dcoll - csp"
    and m': "m' = m\<lparr> m_agg_recorded_debt := ld_new_agg sd, m_bad_debt := ld_new_bad sd \<rparr>"
    using assms unfolding liq_split_def Let_def handler_Inr sub_or_panic_Inr
    by clarify (rule that; (assumption | simp))
  note d = u128_supply.liquidate_identity [OF sd]
  have "int (ld_new_agg sd) = int (m_agg_recorded_debt m) - int (reactor split + buffer split + global split + unhomed split)"
    using d(2,3) by simp
  then have "ld_new_agg sd + (reactor split + buffer split + global split + unhomed split) = m_agg_recorded_debt m" by linarith
  moreover have "ld_new_bad sd = m_bad_debt m + unhomed split" using d(4) by linarith
  ultimately show thesis by (intro that [OF s g _ _ _ c(1)]) (use m' c in auto)
qed

lemma pay_collateral_Inr:
  "pay_collateral T A target n l = Inr l' \<longleftrightarrow>
     n = 0 \<and> l' = l \<or> 0 < n \<and> n < 2 ^ 64 \<and> tk_transfer T l (la_market_coll_vault A) target (la_market A) n = Some l'"
  unfolding pay_collateral_def if_Inr handler_Inr try_from_Some by auto

lemma pay_collateral_effect:
  assumes "pay_collateral T A target n l = Inr l'" "token_laws T"
  shows "debits T {la_market_coll_vault A} l l'" "tk_supply T l' = tk_supply T l"
    "tk_amount T l (la_market_coll_vault A) \<le> tk_amount T l' (la_market_coll_vault A) + n"
proof -
  consider "n = 0" "l' = l" | "tk_transfer T l (la_market_coll_vault A) target (la_market A) n = Some l'"
    using assms(1) unfolding pay_collateral_Inr by blast
  note c = this
  show "debits T {la_market_coll_vault A} l l'"
    using c by cases (auto simp: debits_refl intro: debits_transfer assms(2))
  show "tk_supply T l' = tk_supply T l" using c by cases (auto dest: transferD(5) [OF assms(2)])
  show "tk_amount T l (la_market_coll_vault A) \<le> tk_amount T l' (la_market_coll_vault A) + n"
    using c
  proof cases
    case 2
    then show ?thesis
      using transferD(6,8) [OF assms(2) 2] by (cases "la_market_coll_vault A = target") auto
  qed simp
qed

text \<open>The offset takes the debt from the deposits and from the pool's own vault.\<close>

lemma liq_offset_Inr:
  "liq_offset T A n c l rp grid = Inr (l', rp', grid') \<longleftrightarrow> n = 0 \<and> l' = l \<and> rp' = rp \<and> grid' = grid \<or>
     0 < n \<and> n < 2 ^ 64 \<and> (\<exists>ps l1. reactor_offset (rp_pool_state rp) grid REACTOR_MAX_SCALES n c = Inr (ps, grid') \<and>
       tk_burn T l (la_fusd_mint A) (la_reactor_fusd_vault A) (la_reactor_pool A) n = Some l1 \<and>
       pay_collateral T A (la_reactor_coll_vault A) c l1 = Inr l' \<and> rp' = rp_write_back rp ps)"
  unfolding liq_offset_def if_Inr handler_Inr map_err_Inr try_from_Some by (rule iffI; elim disjE exE conjE; blast?)

lemma liq_offset_effect:
  assumes "liq_offset T A n c l rp grid = Inr (l', rp', grid')" "token_laws T"
  shows "burned T (la_fusd_mint A) n l l'" "debits T {la_market_coll_vault A, la_reactor_fusd_vault A} l l'"
    "la_market_coll_vault A \<noteq> la_reactor_fusd_vault A \<Longrightarrow>
       tk_amount T l (la_reactor_fusd_vault A) \<le> tk_amount T l' (la_reactor_fusd_vault A) + n"
    "rp_total_deposits rp' + n = rp_total_deposits rp" "rp_fusd_vault rp' = rp_fusd_vault rp"
    "rp_coll_vault rp' = rp_coll_vault rp"
    "pool_backs rp deps \<Longrightarrow> rp_total_deposits rp < DECIMAL_PRECISION \<Longrightarrow> pool_backs rp' deps"
proof -
  consider "n = 0" "l' = l" "rp' = rp"
    | ps l1 where "reactor_offset (rp_pool_state rp) grid REACTOR_MAX_SCALES n c = Inr (ps, grid')"
      "tk_burn T l (la_fusd_mint A) (la_reactor_fusd_vault A) (la_reactor_pool A) n = Some l1"
      "pay_collateral T A (la_reactor_coll_vault A) c l1 = Inr l'" "rp' = rp_write_back rp ps"
    using assms(1) unfolding liq_offset_Inr by blast
  note c = this
  show "burned T (la_fusd_mint A) n l l'"
    using c
  proof cases
    case 2
    show ?thesis
      using burned_trans [OF burned_burn [OF 2(2) assms(2)] burned_0 [OF pay_collateral_effect(2) [OF 2(3) assms(2)]]] by simp
  qed (simp add: burned_0)
  show "debits T {la_market_coll_vault A, la_reactor_fusd_vault A} l l'"
    using c
  proof cases
    case 2
    have "debits T {la_market_coll_vault A, la_reactor_fusd_vault A} l l1" by (rule debits_burn [OF 2(2) assms(2)]) simp
    moreover have "debits T {la_market_coll_vault A, la_reactor_fusd_vault A} l1 l'"
      by (rule debits_mono [OF pay_collateral_effect(1) [OF 2(3) assms(2)]]) simp
    ultimately show ?thesis by (rule debits_trans)
  qed (simp add: debits_refl)
  show "tk_amount T l (la_reactor_fusd_vault A) \<le> tk_amount T l' (la_reactor_fusd_vault A) + n"
    if "la_market_coll_vault A \<noteq> la_reactor_fusd_vault A"
    using c
  proof cases
    case 2
    have "tk_amount T l1 (la_reactor_fusd_vault A) \<le> tk_amount T l' (la_reactor_fusd_vault A)"
      by (rule debitsD(3) [OF pay_collateral_effect(1) [OF 2(3) assms(2)]]) (use that in simp)
    then show ?thesis using burnD(2,7) [OF assms(2) 2(2)] by simp
  qed simp
  show "rp_total_deposits rp' + n = rp_total_deposits rp"
    using c
  proof cases
    case 2
    show ?thesis by (rule reactor_offset_Inr [OF 2(1)]) (simp add: 2(4))
  qed simp
  show "rp_fusd_vault rp' = rp_fusd_vault rp" using c by cases simp_all
  show "rp_coll_vault rp' = rp_coll_vault rp" using c by cases simp_all
  show "pool_backs rp' deps" if b: "pool_backs rp deps" "rp_total_deposits rp < DECIMAL_PRECISION"
    using c
  proof cases
    case 2
    have "backed ps (dom deps) (\<lambda>k. rd_deposited_fusd (the (deps k))) (\<lambda>k. rd_snapshot_of (the (deps k)))"
      by (rule backed_offset [OF 2(1)]) (use b in \<open>simp_all add: pool_backs_def\<close>)
    then show ?thesis by (simp add: pool_backs_def 2(4))
  qed (use b in simp)
qed

lemma liq_buffer_effect:
  assumes "liq_buffer T A n l b = Inr (l', b')" "token_laws T"
  shows "burned T (la_fusd_mint A) n l l'" "debits T {la_buffer_fusd_vault A} l l'" "ib_fusd_vault b' = ib_fusd_vault b"
    "ib_total_absorbed b' = ib_total_absorbed b + n"
proof -
  consider "n = 0" "l' = l" "b' = b"
    | "tk_burn T l (la_fusd_mint A) (la_buffer_fusd_vault A) (la_insurance_buffer A) n = Some l'"
      "b' = b\<lparr> ib_total_absorbed := ib_total_absorbed b + n \<rparr>"
    using assms(1) unfolding liq_buffer_def if_Inr handler_Inr try_from_Some by auto
  then show "burned T (la_fusd_mint A) n l l'" "debits T {la_buffer_fusd_vault A} l l'" "ib_fusd_vault b' = ib_fusd_vault b"
    "ib_total_absorbed b' = ib_total_absorbed b + n"
    by (cases; auto simp: debits_refl burned_0 intro: debits_burn burned_burn assms(2))+
qed

lemma liq_backstop_Inr:
  "liq_backstop T A n l m bs = Inr (l', m', bs') \<longleftrightarrow> n = 0 \<and> l' = l \<and> m' = m \<and> bs' = bs \<or>
     0 < n \<and> n < 2 ^ 64 \<and> (\<exists>s v. bs = Some s \<and> la_backstop_fusd_vault A = Some v \<and>
       tk_burn T l (la_fusd_mint A) v (la_backstop A) n = Some l' \<and> m_global_drawn m + n < 2 ^ 128 \<and>
       gb_total_absorbed s + n < 2 ^ 128 \<and> m' = m\<lparr> m_global_drawn := m_global_drawn m + n \<rparr> \<and>
       bs' = Some (s\<lparr> gb_total_absorbed := gb_total_absorbed s + n \<rparr>))"
  unfolding liq_backstop_def if_Inr handler_Inr try_from_Some
  by (cases bs; cases "la_backstop_fusd_vault A") (auto simp: res_simps num_simps)

lemma liq_backstop_effect:
  assumes "liq_backstop T A n l m bs = Inr (l', m', bs')" "token_laws T"
  shows "burned T (la_fusd_mint A) n l l'" "debits T (set_option (la_backstop_fusd_vault A)) l l'"
    "m' = m\<lparr> m_global_drawn := m_global_drawn m + n \<rparr>" "map_option gb_fusd_vault bs' = map_option gb_fusd_vault bs"
proof -
  consider "n = 0" "l' = l" "m' = m" "bs' = bs"
    | s v where "bs = Some s" "la_backstop_fusd_vault A = Some v"
      "tk_burn T l (la_fusd_mint A) v (la_backstop A) n = Some l'" "m' = m\<lparr> m_global_drawn := m_global_drawn m + n \<rparr>"
      "bs' = Some (s\<lparr> gb_total_absorbed := gb_total_absorbed s + n \<rparr>)"
    using assms(1) unfolding liq_backstop_Inr by blast
  note c = this
  show "burned T (la_fusd_mint A) n l l'"
    using c by cases (simp add: burned_0, rule burned_burn [OF _ assms(2)])
  show "debits T (set_option (la_backstop_fusd_vault A)) l l'"
    using c by cases (simp add: debits_refl, rule debits_burn [OF _ assms(2)], assumption, simp)
  show "m' = m\<lparr> m_global_drawn := m_global_drawn m + n \<rparr>" using c by cases simp_all
  show "map_option gb_fusd_vault bs' = map_option gb_fusd_vault bs" using c by cases simp_all
qed

lemma liq_redistribute_effect:
  assumes "liq_redistribute c d m = Inr m'"
  obtains lc la ec ea where
    "m' = m\<lparr> m_l_coll := lc, m_l_art := la, m_last_coll_redist_error := ec, m_last_art_redist_error := ea,
       m_total_collateral := m_total_collateral m + c \<rparr>"
    "accumulate (m_l_coll m) (m_last_coll_redist_error m) (m_total_stakes m) c = Inr (lc, ec)"
    "accumulate (m_l_art m) (m_last_art_redist_error m) (m_total_stakes m) d = Inr (la, ea)"
proof -
  obtain rs where rs: "redistribute (redist_of_market m) (m_total_stakes m) c d = Inr rs"
    and m': "m' = (write_redist_state m rs)\<lparr> m_total_collateral := m_total_collateral m + c \<rparr>"
    using assms unfolding liq_redistribute_def handler_Inr map_err_Inr by blast
  show thesis
    by (rule that [OF _ redistribute_Inr [OF rs, unfolded redist_of_market_def, simplified]])
      (simp add: m' write_redist_state_def)
qed

text \<open>
  The rest of the split: either it is redistributed, and no token moves, or the protocol's own tiers
  take it and keep the collateral.
\<close>

lemma liq_unhomed_eq:
  "liq_unhomed n m = m\<lparr> m_shutdown_reason := m_shutdown_reason (liq_unhomed n m), m_shutdown := (m_shutdown m \<or> 0 < n) \<rparr>"
  by (simp add: liq_unhomed_def)

lemma liq_rest_Inr:
  assumes "liq_rest T A s c l m b bs = Inr (l', m', b', bs')" "token_laws T"
  obtains (redistributed) "0 < redist s" "liq_redistribute c (redist s) m = Inr m'" "l' = l" "b' = b" "bs' = bs"
    | (absorbed) r where "redist s = 0" "0 < buffer s + global s + unhomed s"
      "m' = m\<lparr> m_protocol_collateral := m_protocol_collateral m + c, m_global_drawn := m_global_drawn m + global s,
         m_shutdown_reason := r, m_shutdown := (m_shutdown m \<or> 0 < unhomed s) \<rparr>"
      "burned T (la_fusd_mint A) (buffer s + global s) l l'"
      "debits T ({la_buffer_fusd_vault A} \<union> set_option (la_backstop_fusd_vault A)) l l'"
      "ib_fusd_vault b' = ib_fusd_vault b" "map_option gb_fusd_vault bs' = map_option gb_fusd_vault bs"
      "ib_total_absorbed b' = ib_total_absorbed b + buffer s"
    | (nothing) "redist s = 0" "buffer s + global s + unhomed s = 0" "m' = m" "l' = l" "b' = b" "bs' = bs"
proof -
  consider "0 < redist s" "liq_redistribute c (redist s) m = Inr m'" "l' = l" "b' = b" "bs' = bs"
    | l1 m1 where "redist s = 0" "0 < buffer s + global s + unhomed s" "liq_buffer T A (buffer s) l b = Inr (l1, b')"
      "liq_backstop T A (global s) l1 (m\<lparr> m_protocol_collateral := m_protocol_collateral m + c \<rparr>) bs = Inr (l', m1, bs')"
      "m' = liq_unhomed (unhomed s) m1"
    | "redist s = 0" "buffer s + global s + unhomed s = 0" "m' = m" "l' = l" "b' = b" "bs' = bs"
    using assms(1) unfolding liq_rest_def if_Inr Let_def handler_Inr try_from_Some by (elim disjE exE conjE) (simp; fail)+
  then show thesis
  proof cases
    case 1
    then show thesis by (rule redistributed)
  next
    case 2
    note b = liq_buffer_effect [OF 2(3) assms(2)]
    note g = liq_backstop_effect [OF 2(4) assms(2)]
    have d: "debits T ({la_buffer_fusd_vault A} \<union> set_option (la_backstop_fusd_vault A)) l l'"
      by (rule debits_trans [OF debits_mono [OF b(2)] debits_mono [OF g(2)]]) auto
    show thesis
      by (rule absorbed [OF 2(1,2) _ burned_trans [OF b(1) g(1)] d b(3) g(4) b(4)])
        (simp add: 2(5), subst liq_unhomed_eq, simp add: g(3))
  next
    case 3
    then show thesis by (rule nothing)
  qed
qed

lemma liquidate_Inr:
  assumes "liquidate_handler T clk A l m p rp grid bm b bs = Inr (l', m', p', rp', grid', bm', b', bs')"
  obtains m1 p1 m2 p2 gas dc m3 s csp cr l1 l2 m4 l3 where
    "liq_constraints T A l m p rp b = Inr ()" "liq_open clk m p = Inr (m1, p1, weight p)"
    "liq_seize m1 p1 = Inr (m2, p2, gas, dc)"
    "liq_split T A l m2 rp bs (p_recorded_debt p1) dc = Inr (m3, s, csp, cr)"
    "pay_collateral T A (la_liquidator_collateral_ata A) gas l = Inr l1"
    "liq_offset T A (reactor s) csp l1 rp grid = Inr (l2, rp', grid')"
    "liq_rest T A s cr l2 m3 b bs = Inr (l3, m4, b', bs')"
    "(if p_reserve_lamports p2 > 0 then cpi (lamports_move T l3 (la_position A) (la_liquidator A) (p_reserve_lamports p2))
      else Inr l3) = Inr l'"
    "reweight (liq_snapshot m4) (liq_reset_position (liq_snapshot m4) p2) (weight p) = Inr m'"
    "reconcile bm m' (liq_reset_position (liq_snapshot m4) p2) (p_recorded_debt p) = Inr (bm', p')"
    "assert_collateral_vault_sufficiency T l' (la_market_coll_vault A) m' = Inr ()"
  using assms unfolding liquidate_handler_def Let_def handler_Inr
  by clarify (frule liq_open_Inr(3), hypsubst, rule that; (assumption | simp))

lemma liq_rest_effect:
  assumes "liq_rest T A s c l m b bs = Inr (l', m', b', bs')" "token_laws T"
    and "0 < redist s \<longrightarrow> buffer s = 0 \<and> global s = 0"
    and "redist s + buffer s + global s + unhomed s = 0 \<longrightarrow> c = 0"
  shows "burned T (la_fusd_mint A) (buffer s + global s) l l'"
    "debits T ({la_buffer_fusd_vault A} \<union> set_option (la_backstop_fusd_vault A)) l l'"
    "m_total_collateral m' + m_protocol_collateral m' = m_total_collateral m + m_protocol_collateral m + c"
    "m' = m\<lparr> m_l_coll := m_l_coll m', m_l_art := m_l_art m', m_last_coll_redist_error := m_last_coll_redist_error m',
       m_last_art_redist_error := m_last_art_redist_error m', m_total_collateral := m_total_collateral m',
       m_protocol_collateral := m_protocol_collateral m', m_global_drawn := m_global_drawn m',
       m_shutdown_reason := m_shutdown_reason m', m_shutdown := m_shutdown m' \<rparr>"
    "m_shutdown m \<Longrightarrow> m_shutdown m'" "redist s = 0 \<Longrightarrow> 0 < unhomed s \<Longrightarrow> m_shutdown m'"
    "ib_fusd_vault b' = ib_fusd_vault b" "map_option gb_fusd_vault bs' = map_option gb_fusd_vault bs"
proof -
  have "burned T (la_fusd_mint A) (buffer s + global s) l l' \<and>
    debits T ({la_buffer_fusd_vault A} \<union> set_option (la_backstop_fusd_vault A)) l l' \<and>
    m_total_collateral m' + m_protocol_collateral m' = m_total_collateral m + m_protocol_collateral m + c \<and>
    m' = m\<lparr> m_l_coll := m_l_coll m', m_l_art := m_l_art m', m_last_coll_redist_error := m_last_coll_redist_error m',
       m_last_art_redist_error := m_last_art_redist_error m', m_total_collateral := m_total_collateral m',
       m_protocol_collateral := m_protocol_collateral m', m_global_drawn := m_global_drawn m',
       m_shutdown_reason := m_shutdown_reason m', m_shutdown := m_shutdown m' \<rparr> \<and>
    (m_shutdown m \<longrightarrow> m_shutdown m') \<and> (redist s = 0 \<longrightarrow> 0 < unhomed s \<longrightarrow> m_shutdown m') \<and>
    ib_fusd_vault b' = ib_fusd_vault b \<and> map_option gb_fusd_vault bs' = map_option gb_fusd_vault bs"
    using assms(1,2)
  proof (cases rule: liq_rest_Inr)
    case redistributed
    show ?thesis
    proof (cases rule: liq_redistribute_effect [OF redistributed(2)])
      case 1
      then show ?thesis using redistributed assms(3) by (simp add: burned_0 debits_refl)
    qed
  next
    case (absorbed r)
    then show ?thesis by simp
  next
    case nothing
    then show ?thesis using assms(4) by (simp add: burned_0 debits_refl)
  qed
  then show "burned T (la_fusd_mint A) (buffer s + global s) l l'"
    "debits T ({la_buffer_fusd_vault A} \<union> set_option (la_backstop_fusd_vault A)) l l'"
    "m_total_collateral m' + m_protocol_collateral m' = m_total_collateral m + m_protocol_collateral m + c"
    "m' = m\<lparr> m_l_coll := m_l_coll m', m_l_art := m_l_art m', m_last_coll_redist_error := m_last_coll_redist_error m',
       m_last_art_redist_error := m_last_art_redist_error m', m_total_collateral := m_total_collateral m',
       m_protocol_collateral := m_protocol_collateral m', m_global_drawn := m_global_drawn m',
       m_shutdown_reason := m_shutdown_reason m', m_shutdown := m_shutdown m' \<rparr>"
    "m_shutdown m \<Longrightarrow> m_shutdown m'" "redist s = 0 \<Longrightarrow> 0 < unhomed s \<Longrightarrow> m_shutdown m'"
    "ib_fusd_vault b' = ib_fusd_vault b" "map_option gb_fusd_vault bs' = map_option gb_fusd_vault bs"
    by blast+
qed

text \<open>
  The accumulators of a market have taken up \<open>c\<close> of collateral and \<open>d\<close> of debt: over all stakes they hand
  out exactly that much more, with the remainder they carry, which is below one unit per stake.
\<close>

definition redist_booked :: "market \<Rightarrow> market \<Rightarrow> nat \<Rightarrow> nat \<Rightarrow> bool" where
  "redist_booked m m' c d \<longleftrightarrow>
     m_total_stakes m' * m_l_art m' + m_last_art_redist_error m' =
       m_total_stakes m' * m_l_art m + m_last_art_redist_error m + d * PRECISION \<and>
     m_total_stakes m' * m_l_coll m' + m_last_coll_redist_error m' =
       m_total_stakes m' * m_l_coll m + m_last_coll_redist_error m + c * PRECISION \<and>
     m_last_art_redist_error m' < m_total_stakes m' \<and> m_last_coll_redist_error m' < m_total_stakes m'"

lemma accumulate_exact:
  assumes "accumulate l e s d = Inr (l', e')"
  shows "s * l' + e' = s * l + e + d * PRECISION"
proof -
  have x: "l \<le> l'" "(l' - l) * s + e' = d * PRECISION + e" using redist_acc.exact [OF assms] by auto
  then have "s * l' = s * l + (l' - l) * s" by (metis add_mult_distrib2 le_add_diff_inverse mult.commute)
  then show ?thesis using x(2) by simp
qed

lemma liq_rest_homes:
  assumes "liq_rest T A s c l m b bs = Inr (l', m', b', bs')" "token_laws T"
    and "0 < redist s \<longrightarrow> buffer s = 0 \<and> global s = 0"
    and "redist s + buffer s + global s + unhomed s = 0 \<longrightarrow> c = 0"
  shows "if 0 < redist s then redist_booked m m' c (redist s)
      else m_l_art m' = m_l_art m \<and> m_l_coll m' = m_l_coll m \<and>
        m_last_art_redist_error m' = m_last_art_redist_error m \<and> m_last_coll_redist_error m' = m_last_coll_redist_error m"
    "m_total_collateral m' = m_total_collateral m + (if 0 < redist s then c else 0)"
    "m_protocol_collateral m' = m_protocol_collateral m + (if 0 < redist s then 0 else c)"
    "m_global_drawn m' = m_global_drawn m + global s"
    "ib_total_absorbed b' = ib_total_absorbed b + buffer s"
proof -
  have "(if 0 < redist s then redist_booked m m' c (redist s)
      else m_l_art m' = m_l_art m \<and> m_l_coll m' = m_l_coll m \<and>
        m_last_art_redist_error m' = m_last_art_redist_error m \<and> m_last_coll_redist_error m' = m_last_coll_redist_error m) \<and>
    m_total_collateral m' = m_total_collateral m + (if 0 < redist s then c else 0) \<and>
    m_protocol_collateral m' = m_protocol_collateral m + (if 0 < redist s then 0 else c) \<and>
    m_global_drawn m' = m_global_drawn m + global s \<and> ib_total_absorbed b' = ib_total_absorbed b + buffer s"
    using assms(1,2)
  proof (cases rule: liq_rest_Inr)
    case redistributed
    show ?thesis
    proof (cases rule: liq_redistribute_effect [OF redistributed(2)])
      case (1 lc la ec ea)
      have "redist_booked m m' c (redist s)"
        using accumulate_exact [OF 1(2)] accumulate_exact [OF 1(3)] accumulate_Inr(4) [OF 1(2)] accumulate_Inr(4) [OF 1(3)]
        by (simp add: redist_booked_def 1(1))
      then show ?thesis using redistributed assms(3) by (simp add: 1(1))
    qed
  qed (use assms(4) in simp_all)
  then show "if 0 < redist s then redist_booked m m' c (redist s)
      else m_l_art m' = m_l_art m \<and> m_l_coll m' = m_l_coll m \<and>
        m_last_art_redist_error m' = m_last_art_redist_error m \<and> m_last_coll_redist_error m' = m_last_coll_redist_error m"
    "m_total_collateral m' = m_total_collateral m + (if 0 < redist s then c else 0)"
    "m_protocol_collateral m' = m_protocol_collateral m + (if 0 < redist s then 0 else c)"
    "m_global_drawn m' = m_global_drawn m + global s"
    "ib_total_absorbed b' = ib_total_absorbed b + buffer s"
    by blast+
qed

lemma mul_div_floor_self: "mul_div_floor a d d = Some b \<Longrightarrow> b = a"
  by (auto simp: mul_div_floor_def wide_mul_div_eq split: if_splits)

lemma liq_split_effect:
  assumes "liq_split T A l m rp bs debt dcoll = Inr (m', s, csp, cr)" "0 < debt"
  shows "m' = m\<lparr> m_agg_recorded_debt := m_agg_recorded_debt m', m_bad_debt := m_bad_debt m' \<rparr>"
    "m_agg_recorded_debt m' + (reactor s + buffer s + global s + unhomed s) = m_agg_recorded_debt m"
    "m_bad_debt m' = m_bad_debt m + unhomed s" "csp + cr = dcoll"
    "reactor s + redist s + buffer s + global s + unhomed s = debt" "reactor s \<le> rp_total_deposits rp"
    "0 < redist s \<Longrightarrow> buffer s = 0 \<and> global s = 0 \<and> unhomed s = 0"
    "redist s + buffer s + global s + unhomed s = 0 \<Longrightarrow> cr = 0" "0 < redist s \<Longrightarrow> 0 < m_total_stakes m"
proof -
  obtain g where g: "s = absorb debt (rp_total_deposits rp) (m_total_stakes m > 0) (tk_amount T l (la_buffer_fusd_vault A)) g"
    and m': "m' = m\<lparr> m_agg_recorded_debt := m_agg_recorded_debt m - (reactor s + buffer s + global s + unhomed s),
       m_bad_debt := m_bad_debt m + unhomed s \<rparr>"
    and le: "reactor s + buffer s + global s + unhomed s \<le> m_agg_recorded_debt m"
    and c: "csp + cr = dcoll" "mul_div_floor dcoll (reactor s) debt = Some csp"
    by (rule liq_split_Inr [OF assms(1)])
  note a = absorb_strict [OF g]
  show "m' = m\<lparr> m_agg_recorded_debt := m_agg_recorded_debt m', m_bad_debt := m_bad_debt m' \<rparr>"
    "m_agg_recorded_debt m' + (reactor s + buffer s + global s + unhomed s) = m_agg_recorded_debt m"
    "m_bad_debt m' = m_bad_debt m + unhomed s"
    using le by (simp_all add: m')
  show "csp + cr = dcoll" by (rule c(1))
  show "reactor s + redist s + buffer s + global s + unhomed s = debt" "reactor s \<le> rp_total_deposits rp"
    "0 < redist s \<Longrightarrow> buffer s = 0 \<and> global s = 0 \<and> unhomed s = 0"
    using a by simp_all
  show "cr = 0" if "redist s + buffer s + global s + unhomed s = 0"
  proof -
    have "reactor s = debt" using a(1) that by simp
    then show ?thesis using c mul_div_floor_self [of dcoll debt csp] by simp
  qed
  show "0 < m_total_stakes m" if "0 < redist s"
    using that unfolding g by (cases "0 < m_total_stakes m") (simp_all add: absorb_def Let_def)
qed

subsection \<open>The whole handler\<close>

text \<open>The lamports at the end are not tokens.\<close>

lemma liq_reserve_same:
  "(if 0 < n then cpi (lamports_move T l a b n) else Inr l) = Inr l' \<Longrightarrow> token_laws T \<Longrightarrow> same_tokens T l l'"
  by (auto simp: if_Inr res_simps same_tokens_def dest: sys_same(4))

lemma liq_reset_position_simps [simp]:
  "p_recorded_debt (liq_reset_position m p) = 0" "p_ink (liq_reset_position m p) = 0" "p_stake (liq_reset_position m p) = 0"
  "p_reserve_lamports (liq_reset_position m p) = 0" "weight (liq_reset_position m p) = 0"
  "p_coll_surplus (liq_reset_position m p) = p_coll_surplus p" "p_bucket (liq_reset_position m p) = p_bucket p"
  "p_owner (liq_reset_position m p) = p_owner p" "p_collateral_mint (liq_reset_position m p) = p_collateral_mint p"
  "p_last_debt_update (liq_reset_position m p) = p_last_debt_update p"
  "p_redist_l_coll_snapshot (liq_reset_position m p) = m_l_coll m" "p_redist_l_art_snapshot (liq_reset_position m p) = m_l_art m"
  by (simp_all add: liq_reset_position_def set_ink_def weight_def)

lemma liq_reweight:
  assumes "reweight m (liq_reset_position n p) w = Inr m'"
  shows "m' = m\<lparr> m_agg_weighted_debt_sum := m_agg_weighted_debt_sum m - w \<rparr>" "w \<le> m_agg_weighted_debt_sum m"
  using assms by (auto simp: reweight_Inr)

lemma liquidate_effect:
  assumes "liquidate_handler T clk A l m p rp grid bm b bs = Inr (l', m', p', rp', grid', bm', b', bs')"
    and "token_laws T" "bitmap_ok bm"
  obtains gas csp m1 p1 m2 p2 dc m3 cr l1 l2 l3 m4 and s :: absorption where
    "liq_open clk m p = Inr (m1, p1, weight p)" "books_step m p bm m' p' bm'" "booked_supply m' = booked_supply m - int (reactor s + buffer s + global s)"
    "burned T (la_fusd_mint A) (reactor s + buffer s + global s) l l'"
    "tracked_collateral m' + gas + csp = tracked_collateral m"
    "tracked_collateral m' \<le> tk_amount T l' (m_collateral_vault m')" "m_collateral_vault m' = m_collateral_vault m"
    "m_total_coll_surplus m' + p_coll_surplus p = m_total_coll_surplus m + p_coll_surplus p'"
    "reactor s + redist s + buffer s + global s + unhomed s = p_recorded_debt p1" "p_recorded_debt p \<le> p_recorded_debt p1"
    "rp_total_deposits rp' + reactor s = rp_total_deposits rp" "rp_fusd_vault rp' = rp_fusd_vault rp"
    "rp_coll_vault rp' = rp_coll_vault rp"
    "debits T ({m_collateral_vault m, rp_fusd_vault rp, ib_fusd_vault b} \<union> set_option (la_backstop_fusd_vault A)) l l'"
    "m_shutdown m \<Longrightarrow> m_shutdown m'" "0 < unhomed s \<Longrightarrow> m_shutdown m'" "m_bad_debt m' = m_bad_debt m + unhomed s"
    "p_recorded_debt p' = 0" "p_ink p' = 0" "p_stake p' = 0" "ib_fusd_vault b' = ib_fusd_vault b"
    "map_option gb_fusd_vault bs' = map_option gb_fusd_vault bs"
    "liq_seize m1 p1 = Inr (m2, p2, gas, dc)" "liq_split T A l m2 rp bs (p_recorded_debt p1) dc = Inr (m3, s, csp, cr)"
    "liq_offset T A (reactor s) csp l1 rp grid = Inr (l2, rp', grid')"
    "liq_rest T A s cr l2 m3 b bs = Inr (l3, m4, b', bs')"
    "m' = (liq_snapshot m4)\<lparr> m_agg_weighted_debt_sum := m_agg_weighted_debt_sum m' \<rparr>"
    "p_coll_surplus p' = p_coll_surplus p2" "la_buffer_fusd_vault A = ib_fusd_vault b"
  using assms(1)
proof (cases rule: liquidate_Inr)
  case h: (1 m1 p1 m2 p2 gas dc m3 s csp cr l1 l2 m4 l3)
  note k = h(1) [unfolded liq_constraints_def handler_Inr]
  note o = liq_open_Inr [OF h(2)]
  show thesis
  proof (cases rule: position_opened [OF o(1,2)])
    case op: (1 x t)
    show thesis
    proof (cases rule: liq_seize_Inr [OF h(3)])
      case sz: (1 sc r)
      note sp = liq_split_effect [OF h(4) o(9)]
      note off = liq_offset_effect [OF h(6) assms(2)]
      have strict: "0 < redist s \<longrightarrow> buffer s = 0 \<and> global s = 0"
        "redist s + buffer s + global s + unhomed s = 0 \<longrightarrow> cr = 0" using sp(7,8) by blast+
      note re = liq_rest_effect [OF h(7) assms(2) strict]
      let ?q = "liq_reset_position (liq_snapshot m4) p2"
      note rw = liq_reweight [OF h(9), unfolded liq_snapshot_def]
      have m4: "m_agg_recorded_debt m4 = m_agg_recorded_debt m3" "m_unminted_interest m4 = m_unminted_interest m3"
        "m_bad_debt m4 = m_bad_debt m3" "m_agg_weighted_debt_sum m4 = m_agg_weighted_debt_sum m3"
        "m_total_stakes m4 = m_total_stakes m3" "m_collateral_vault m4 = m_collateral_vault m3"
        "m_total_coll_surplus m4 = m_total_coll_surplus m3" "m_surplus_collateral m4 = m_surplus_collateral m3"
        by (subst re(4), simp)+
      have m3: "m_unminted_interest m3 = m_unminted_interest m + x" "m_agg_recorded_debt m2 = m_agg_recorded_debt m + x"
        "m_agg_weighted_debt_sum m3 = m_agg_weighted_debt_sum m" "m_total_stakes m3 + p_stake p = m_total_stakes m"
        "m_collateral_vault m3 = m_collateral_vault m" "m_total_coll_surplus m3 = m_total_coll_surplus m + r"
        "m_surplus_collateral m3 = m_surplus_collateral m" "m_total_collateral m3 + p_ink p1 = m_total_collateral m"
        "m_protocol_collateral m3 = m_protocol_collateral m" "m_shutdown m3 = m_shutdown m" "m_bad_debt m2 = m_bad_debt m"
        using sz(4,5) by (subst sp(1), simp add: sz(2) op; fail | simp add: sz(2) op; fail)+
      have m': "booked_supply m' = booked_supply m - int (reactor s + buffer s + global s)"
        "m_agg_weighted_debt_sum m' + weight p = m_agg_weighted_debt_sum m"
        "m_total_stakes m' + p_stake p = m_total_stakes m" "m_bad_debt m' = m_bad_debt m + unhomed s"
        "m_collateral_vault m' = m_collateral_vault m" "m_shutdown m' = m_shutdown m4"
        "m_total_coll_surplus m' = m_total_coll_surplus m + r" "m_surplus_collateral m' = m_surplus_collateral m"
        using rw(2) sp(2,3) m3 by (simp_all add: rw(1) m4 booked_supply_def)
      have p2: "p_coll_surplus p2 = p_coll_surplus p + r" "p_bucket p2 = p_bucket p" "p_owner p2 = p_owner p"
          "p_collateral_mint p2 = p_collateral_mint p"
        by (simp_all add: sz(3) op)
      have tr: "tracked_collateral m' + gas + csp = tracked_collateral m"
        using re(3) m3(7,8,9) m'(7,8) sp(4) sz(7,8) by (simp add: tracked_collateral_def rw(1))
      have bk: "books_step m p bm m' p' bm'" "p' = ?q\<lparr> p_bucket := p_bucket p' \<rparr>"
        by (rule books_stepI [OF assms(3) h(10)]; simp add: m' p2)+
      have p': "p_recorded_debt p' = 0" "p_ink p' = 0" "p_stake p' = 0" "p_coll_surplus p' = p_coll_surplus p2"
        by (subst bk(2), simp)+
      have bu: "burned T (la_fusd_mint A) (reactor s + buffer s + global s) l l'"
        using burned_trans [OF burned_0 [OF pay_collateral_effect(2) [OF h(5) assms(2)]]
            burned_trans [OF off(1) burned_trans [OF re(1) burned_same [OF liq_reserve_same [OF h(8) assms(2)]]]]]
        by (simp add: add.assoc)
      let ?X = "{m_collateral_vault m, rp_fusd_vault rp, ib_fusd_vault b} \<union> set_option (la_backstop_fusd_vault A)"
      have "debits T ?X l l1" using pay_collateral_effect(1) [OF h(5) assms(2)] by (rule debits_mono) (use k in simp)
      moreover have "debits T ?X l1 l2" using off(2) by (rule debits_mono) (use k in simp)
      moreover have "debits T ?X l2 l3" using re(2) by (rule debits_mono) (use k in auto)
      ultimately have de: "debits T ?X l l'"
        using debits_same [OF liq_reserve_same [OF h(8) assms(2)]] by (blast intro: debits_trans)
      have un: "m_shutdown m'" if "0 < unhomed s"
        using re(6) that sp(7) m'(6) by (cases "redist s = 0") auto
      have su: "tracked_collateral m' \<le> tk_amount T l' (m_collateral_vault m')"
        using h(11) k m'(5) by (simp add: assert_sufficiency_Inr)
      have cs: "m_total_coll_surplus m' + p_coll_surplus p = m_total_coll_surplus m + p_coll_surplus p'"
        using m'(7) p'(4) p2(1) by simp
      have sh: "m_shutdown m'" if "m_shutdown m" using re(5) m3(10) m'(6) that by simp
      have fin: "m' = (liq_snapshot m4)\<lparr> m_agg_weighted_debt_sum := m_agg_weighted_debt_sum m' \<rparr>"
        by (simp add: rw(1) liq_snapshot_def)
      have bv: "la_buffer_fusd_vault A = ib_fusd_vault b" using k by blast
      show thesis
        by (rule that [OF h(2) bk(1) m'(1) bu tr su m'(5) cs sp(5) op(10) off(4-6) de sh un m'(4) p'(1-3) re(7,8)
              h(3,4,6,7) fin p'(4) bv])
    qed
  qed
qed

text \<open>
  The reactor's vault still covers its deposits after the offset, and the depositors' compounded
  claims stay covered by them.
\<close>

lemma liquidate_reactor:
  assumes "liquidate_handler T clk A l m p rp grid bm b bs = Inr (l', m', p', rp', grid', bm', b', bs')"
    and "token_laws T"
  shows "rp_fusd_vault rp \<notin> {m_collateral_vault m, ib_fusd_vault b} \<union> set_option (la_backstop_fusd_vault A) \<Longrightarrow>
      rp_total_deposits rp \<le> tk_amount T l (rp_fusd_vault rp) \<Longrightarrow> rp_total_deposits rp' \<le> tk_amount T l' (rp_fusd_vault rp')"
    "pool_backs rp deps \<Longrightarrow> rp_total_deposits rp < DECIMAL_PRECISION \<Longrightarrow> pool_backs rp' deps"
proof -
  obtain gas csp cr s m3 l1 l2 m4 l3 n a k where h: "liq_constraints T A l m p rp b = Inr ()"
    "pay_collateral T A (la_liquidator_collateral_ata A) gas l = Inr l1"
    "liq_offset T A (reactor s) csp l1 rp grid = Inr (l2, rp', grid')"
    "liq_rest T A s cr l2 m3 b bs = Inr (l3, m4, b', bs')"
    "(if n > 0 then cpi (lamports_move T l3 a k n) else Inr l3) = Inr l'"
    by (rule liquidate_Inr [OF assms(1)]) (rule that)
  note v = h(1) [unfolded liq_constraints_def handler_Inr]
  note off = liq_offset_effect [OF h(3) assms(2)]
  show "pool_backs rp deps \<Longrightarrow> rp_total_deposits rp < DECIMAL_PRECISION \<Longrightarrow> pool_backs rp' deps" by (rule off(7))
  assume out: "rp_fusd_vault rp \<notin> {m_collateral_vault m, ib_fusd_vault b} \<union> set_option (la_backstop_fusd_vault A)"
    and le: "rp_total_deposits rp \<le> tk_amount T l (rp_fusd_vault rp)"
  have "tk_amount T l (rp_fusd_vault rp) \<le> tk_amount T l1 (rp_fusd_vault rp)"
    by (rule debitsD(3) [OF pay_collateral_effect(1) [OF h(2) assms(2)]]) (use out v in auto)
  moreover have "tk_amount T l1 (rp_fusd_vault rp) \<le> tk_amount T l2 (rp_fusd_vault rp) + reactor s"
    using off(3) out v by auto
  moreover have "tk_amount T l2 (rp_fusd_vault rp) \<le> tk_amount T l3 (rp_fusd_vault rp)"
    using h(4) assms(2)
  proof (cases rule: liq_rest_Inr)
    case (absorbed r)
    show ?thesis by (rule debitsD(3) [OF absorbed(5)]) (use out v in auto)
  qed simp_all
  moreover have "tk_amount T l3 = tk_amount T l'" using liq_reserve_same [OF h(5) assms(2)] by (simp add: same_tokens_def)
  ultimately show "rp_total_deposits rp' \<le> tk_amount T l' (rp_fusd_vault rp')" using off(4,5) le by simp
qed

text \<open>Where the stages of a liquidation put the debt and the collateral, in terms of the market before it.\<close>

lemma liquidate_homes:
  assumes "accrue m now = Inr m1" "realize m1 p now = Inr p1" "0 < p_recorded_debt p1" "token_laws T"
    and "liq_seize m1 p1 = Inr (m2, p2, gas, dc)" "liq_split T A l m2 rp bs (p_recorded_debt p1) dc = Inr (m3, s, csp, cr)"
    and "liq_rest T A s cr l2 m3 b bs = Inr (l3, m4, b', bs')"
    and "m' = (liq_snapshot m4)\<lparr> m_agg_weighted_debt_sum := m_agg_weighted_debt_sum m' \<rparr>"
  obtains g seized returned where "liq_global_available T A l m1 bs = Inr g"
    "s = absorb (p_recorded_debt p1) (rp_total_deposits rp) (0 < m_total_stakes m') (tk_amount T l (la_buffer_fusd_vault A)) g"
    "m_agg_recorded_debt m' + (reactor s + buffer s + global s + unhomed s) = m_agg_recorded_debt m1"
    "if 0 < redist s then redist_booked m m' cr (redist s)
     else m_l_art m' = m_l_art m \<and> m_l_coll m' = m_l_coll m \<and>
       m_last_art_redist_error m' = m_last_art_redist_error m \<and> m_last_coll_redist_error m' = m_last_coll_redist_error m"
    "ib_total_absorbed b' = ib_total_absorbed b + buffer s" "m_global_drawn m' = m_global_drawn m + global s"
    "seize_collateral (p_ink p1) (p_recorded_debt p1) (m_debt_spot m) (m_liq_bonus_bps m) = Some (seized, returned)"
    "p_coll_surplus p2 = p_coll_surplus p + returned" "gas = seized * m_liq_gas_comp_bps m div 10000"
    "csp = (seized - gas) * reactor s div p_recorded_debt p1" "gas + csp + cr = seized"
    "m_total_collateral m' + p_ink p1 = m_total_collateral m + (if 0 < redist s then cr else 0)"
    "m_protocol_collateral m' = m_protocol_collateral m + (if 0 < redist s then 0 else cr)"
    "m_total_stakes m' + p_stake p = m_total_stakes m"
proof -
  obtain x t where m1: "m1 = m\<lparr> m_agg_recorded_debt := m_agg_recorded_debt m + x,
      m_unminted_interest := m_unminted_interest m + x, m_last_update_ts := t \<rparr>"
    and p1: "p_stake p1 = p_stake p" "p_coll_surplus p1 = p_coll_surplus p"
    by (rule position_opened [OF assms(1,2)])
  obtain sc r where sz: "seize_collateral (p_ink p1) (p_recorded_debt p1) (m_debt_spot m1) (m_liq_bonus_bps m1) = Some (sc, r)"
    "m2 = m1\<lparr> m_total_stakes := m_total_stakes m1 - p_stake p1, m_total_collateral := m_total_collateral m1 - p_ink p1,
       m_total_coll_surplus := m_total_coll_surplus m1 + r \<rparr>"
    "p2 = p1\<lparr> p_coll_surplus := p_coll_surplus p1 + r \<rparr>" "p_ink p1 \<le> m_total_collateral m1" "p_stake p1 \<le> m_total_stakes m1"
    "gas = sc * m_liq_gas_comp_bps m1 div 10000" "gas + dc = sc"
    by (rule liq_seize_Inr [OF assms(5)])
  obtain g where g: "s = absorb (p_recorded_debt p1) (rp_total_deposits rp) (m_total_stakes m2 > 0) (tk_amount T l (la_buffer_fusd_vault A)) g"
    "liq_global_available T A l m2 bs = Inr g" "csp + cr = dc" "mul_div_floor dc (reactor s) (p_recorded_debt p1) = Some csp"
    by (rule liq_split_Inr [OF assms(6)])
  note sp = liq_split_effect [OF assms(6,3)]
  have strict: "0 < redist s \<longrightarrow> buffer s = 0 \<and> global s = 0"
    "redist s + buffer s + global s + unhomed s = 0 \<longrightarrow> cr = 0" using sp(7,8) by blast+
  note re = liq_rest_effect(4) [OF assms(7,4) strict]
  note ho = liq_rest_homes [OF assms(7,4) strict]
  have m4: "m_agg_recorded_debt m4 = m_agg_recorded_debt m3" "m_total_stakes m4 = m_total_stakes m3" by (subst re, simp)+
  have m3: "m_total_stakes m3 = m_total_stakes m2" "m_l_art m3 = m_l_art m" "m_l_coll m3 = m_l_coll m"
    "m_last_art_redist_error m3 = m_last_art_redist_error m" "m_last_coll_redist_error m3 = m_last_coll_redist_error m"
    "m_total_collateral m3 = m_total_collateral m2" "m_protocol_collateral m3 = m_protocol_collateral m" "m_global_drawn m3 = m_global_drawn m"
    by (subst sp(1), simp add: sz(2) m1)+
  have m': "m_agg_recorded_debt m' = m_agg_recorded_debt m4" "m_total_stakes m' = m_total_stakes m4"
    "m_l_art m' = m_l_art m4" "m_l_coll m' = m_l_coll m4" "m_last_art_redist_error m' = m_last_art_redist_error m4"
    "m_last_coll_redist_error m' = m_last_coll_redist_error m4" "m_total_collateral m' = m_total_collateral m4"
    "m_protocol_collateral m' = m_protocol_collateral m4" "m_global_drawn m' = m_global_drawn m4"
    by (subst assms(8), simp add: liq_snapshot_def)+
  show thesis
  proof (rule that)
    show "liq_global_available T A l m1 bs = Inr g"
      using g(2) by (simp add: sz(2) liq_global_available_def split: option.splits)
    show "s = absorb (p_recorded_debt p1) (rp_total_deposits rp) (0 < m_total_stakes m') (tk_amount T l (la_buffer_fusd_vault A)) g"
      using g(1) by (simp add: m' m4 m3)
    show "if 0 < redist s then redist_booked m m' cr (redist s)
       else m_l_art m' = m_l_art m \<and> m_l_coll m' = m_l_coll m \<and>
         m_last_art_redist_error m' = m_last_art_redist_error m \<and> m_last_coll_redist_error m' = m_last_coll_redist_error m"
      using ho(1) by (simp add: redist_booked_def m' m3 split: if_splits)
    show "csp = (sc - gas) * reactor s div p_recorded_debt p1" "gas + csp + cr = sc"
      using g(3,4) sz(7) by (auto simp: mul_div_floor_def wide_mul_div_eq split: if_splits)
    show "seize_collateral (p_ink p1) (p_recorded_debt p1) (m_debt_spot m) (m_liq_bonus_bps m) = Some (sc, r)"
      using sz(1) by (simp add: m1)
  qed (use sp(2) sz(4-6) ho(2-5) in \<open>simp_all add: m' m4 m3 sz(2,3) m1 p1\<close>)
qed


text \<open>A position of 1000 units that owes 700 when a unit is worth three quarters, liquidated against a pool of 1000 tokens.\<close>

definition liq_accounts0 :: liq_accounts where
  "liq_accounts0 = \<lparr> la_liquidator = 20, la_collateral_mint = 1, la_market = 3, la_position = 4, la_reactor_pool = 11,
     la_epoch_to_scale_to_sum = 14, la_market_coll_vault = 2, la_reactor_fusd_vault = 12, la_reactor_coll_vault = 13,
     la_fusd_mint = 8, la_liquidator_collateral_ata = 21, la_insurance_buffer = 22, la_buffer_fusd_vault = 23,
     la_backstop = 24, la_backstop_fusd_vault = None \<rparr>"

definition liq_ledger0 :: "nat \<Rightarrow> nat \<Rightarrow> nat \<Rightarrow> nat \<Rightarrow> ledger" where
  "liq_ledger0 vault gas coll fusd = \<lparr> lg_amount = (\<lambda>_. 0)(2 := vault, 21 := gas, 13 := coll, 12 := fusd),
     lg_mint = (\<lambda>_. 0)(2 := 1, 21 := 1, 13 := 1, 12 := 8, 23 := 8),
     lg_owner = (\<lambda>_. 0)(2 := 3, 21 := 20, 13 := 11, 12 := 11, 23 := 22), lg_supply = (\<lambda>_. 0)(8 := fusd),
     lg_lamports = (\<lambda>_. 0)(4 := 20000000) \<rparr>"

definition liq_ledger1 :: ledger where
  "liq_ledger1 = (liq_ledger0 0 5 995 300)\<lparr> lg_lamports := (\<lambda>_. 0)(20 := 20000000) \<rparr>"

definition buffer0 :: insurance_buffer where
  "buffer0 = \<lparr> ib_collateral_mint = 1, ib_fusd_vault = 23, ib_total_funded = 0, ib_total_absorbed = 0 \<rparr>"

definition liq_market0 :: market where
  "liq_market0 = (market1 700)\<lparr> m_debt_spot := 3 * RAY div 4 \<rparr>"
lemma liq_market0_sel:
  "m_spot liq_market0 = 2 * RAY" "m_debt_spot liq_market0 = 3 * RAY div 4" "m_spot_updated_slot liq_market0 = 0"
  "m_liq_grace_until liq_market0 = 0" "m_liq_divergence_until liq_market0 = 0" "m_mcr_bps liq_market0 = 11000"
  by (simp_all add: liq_market0_def market1_def market0_def)

lemma liq_open0: "liq_open clock0 liq_market0 (position1 700) = Inr (liq_market0, position1 700, 350000)"
proof -
  have "accrue liq_market0 0 = Inr liq_market0"
    by (simp add: accrue_def liq_market0_def market1_def market0_def i64_sat_def)
  moreover have "realize liq_market0 (position1 700) 0 = realize (market1 700) (position1 700) 0"
    by (simp add: realize_def liq_market0_def pending_of_position_def redist_of_market_def roll_snapshot_def)
  moreover have "\<not> is_healthy 1000 700 (3 * RAY div 4) 11000"
    by (subst is_healthy_iff) (simp_all add: RAY_def BPS_def)
  ultimately show ?thesis
    using open0(1,3) [of 700] by (simp add: liq_open_def clock0_def liq_market0_sel position1_sel RAY_def)
qed

lemma liq_seize0:
  "liq_seize liq_market0 (position1 700) =
     Inr (liq_market0\<lparr> m_total_stakes := 0, m_total_collateral := 0 \<rparr>, position1 700, 5, 995)"
proof -
  have "seize_collateral 1000 700 (3 * RAY div 4) 1000 = Some (1000, 0)"
    by (simp add: seize_collateral_def RAY_def BPS_def wide_mul_div_eq is_u128_def mul_div_floor_def mul_div_ceil_def checked_add_def checked_mul_def ray_div_def apply_bps_def BPS_DENOMINATOR_def)
  then show ?thesis
    by (simp add: liq_seize_def liq_credit_def liq_market0_def market1_def market0_def position1_def position0_def checked_sub_def checked_mul_def
        sub_or_panic_def)
qed

definition liq_market1 :: market where
  "liq_market1 = liq_market0\<lparr> m_total_stakes := 0, m_total_collateral := 0, m_agg_recorded_debt := 0 \<rparr>"

definition liq_pool1 :: reactor_pool where
  "liq_pool1 = pool0\<lparr> rp_total_deposits := 300, rp_p := 299999999999999999, rp_last_loss_error := 1000 \<rparr>"

lemma liq_split0:
  "liq_split ledger_runtime liq_accounts0 (liq_ledger0 1000 0 0 1000) (liq_market0\<lparr> m_total_stakes := 0, m_total_collateral := 0 \<rparr>)
     (pool0\<lparr> rp_total_deposits := 1000 \<rparr>) None 700 995 =
   Inr (liq_market1, \<lparr> reactor = 700, redist = 0, buffer = 0, global = 0, unhomed = 0 \<rparr>, 995, 0)"
proof -
  have "mul_div_floor 995 700 700 = Some 995" by (simp add: mul_div_floor_def wide_mul_div_eq is_u128_def)
  then show ?thesis
    by (simp add: liq_split_def liq_global_available_def liq_accounts0_def pool0_def absorb_def Let_def st_liquidate_def u128_num_def
        liq_market1_def liq_market0_def market1_def market0_def checked_sub_def checked_add_def sub_or_panic_def)
qed

lemma liq_offset0:
  "liq_offset ledger_runtime liq_accounts0 700 995 (liq_ledger0 995 5 0 1000) (pool0\<lparr> rp_total_deposits := 1000 \<rparr>) (replicate 512 0) =
   Inr (liq_ledger0 0 5 995 300, liq_pool1, (replicate 512 0)[0 := 995000000000000000000000000000000000])"
proof -
  have l: "loss_step 1000 0 700 = Inr (299999999999999999, 1000)"
    by (simp add: loss_step_def checked_mul_def checked_sub_def add_or_panic_def checked_add_def sub_or_panic_def DECIMAL_PRECISION_def)
  have u: "update_product 1000000000000000000 299999999999999999 = Inr (299999999999999999, 0)"
    by (simp add: update_product_def checked_mul_def update_product_loop.simps DECIMAL_PRECISION_def SCALE_FACTOR_def)
  have o: "reactor_offset (rp_pool_state (pool0\<lparr> rp_total_deposits := 1000 \<rparr>)) (replicate 512 0) 16 700 995 =
    Inr (rp_pool_state liq_pool1, (replicate 512 0)[0 := 995000000000000000000000000000000000])"
    by (simp add: reactor_offset_def rp_pool_state_def pool0_def liq_pool1_def coll_step_def roll_product_def s_idx_def
        checked_mul_def checked_add_def checked_sub_def try_from_def l u DECIMAL_PRECISION_def)
  have w: "rp_write_back (pool0\<lparr> rp_total_deposits := 1000 \<rparr>) (rp_pool_state liq_pool1) = liq_pool1"
    by (simp add: rp_write_back_def rp_pool_state_def liq_pool1_def pool0_def)
  have t: "tk_burn ledger_runtime (liq_ledger0 995 5 0 1000) 8 12 11 700 = Some (liq_ledger0 995 5 0 300)"
    "tk_transfer ledger_runtime (liq_ledger0 995 5 0 300) 2 13 3 995 = Some (liq_ledger0 0 5 995 300)"
    by (simp_all add: liq_ledger0_def ledger_runtime_def fun_eq_iff)
  show ?thesis
    by (simp add: liq_offset_def pay_collateral_def liq_accounts0_def REACTOR_MAX_SCALES_def o [unfolded rp_pool_state_simps] w t try_from_def)
qed


lemma liq_remove0:
  assumes "p_recorded_debt p = 0" "p_bucket p = 50" "0 < d"
  shows "reconcile bitmap50 m p d = Inr (bitmap0, p)"
  using assms list_update_id [of "replicate 256 (0::nat)" 50]
  by (simp add: reconcile_def bucket_target_def remove_member_def bitmap0_def bitmap50_def ZOMBIE_BUCKET_eq checked_sub_def bm_clear_def
      and_63 drop_6 push_bit_eq_mult replicate4)

lemma liquidate0:
  "\<exists>m' p'. liquidate_handler ledger_runtime clock0 liq_accounts0 (liq_ledger0 1000 0 0 1000) liq_market0 (position1 700)
     (pool0\<lparr> rp_total_deposits := 1000 \<rparr>) (replicate 512 0) bitmap50 buffer0 None =
   Inr (liq_ledger1, m', p', liq_pool1, (replicate 512 0)[0 := 995000000000000000000000000000000000], bitmap0, buffer0, None)"
proof -
  let ?m = "liq_snapshot liq_market1"
  let ?p = "liq_reset_position ?m (position1 700)"
  have c: "liq_constraints ledger_runtime liq_accounts0 (liq_ledger0 1000 0 0 1000) liq_market0 (position1 700)
      (pool0\<lparr> rp_total_deposits := 1000 \<rparr>) buffer0 = Inr ()"
    by (simp add: liq_constraints_def liq_accounts0_def liq_ledger0_def ledger_runtime_def position1_def position0_def pool0_def
        buffer0_def liq_market0_def market1_def market0_def)
  have g: "pay_collateral ledger_runtime liq_accounts0 (la_liquidator_collateral_ata liq_accounts0) 5 (liq_ledger0 1000 0 0 1000) =
      Inr (liq_ledger0 995 5 0 1000)"
    by (simp add: pay_collateral_def liq_accounts0_def try_from_def liq_ledger0_def ledger_runtime_def fun_eq_iff)
  have w: "reweight ?m ?p 350000 = Inr (?m\<lparr> m_agg_weighted_debt_sum := 0 \<rparr>)"
    by (simp add: reweight_Inr liq_snapshot_def liq_market1_def liq_market0_def market1_def)
  have r: "reconcile bitmap50 (?m\<lparr> m_agg_weighted_debt_sum := 0 \<rparr>) ?p 700 = Inr (bitmap0, ?p)"
    by (rule liq_remove0) (simp_all add: position1_def)
  have s: "assert_collateral_vault_sufficiency ledger_runtime liq_ledger1 (la_market_coll_vault liq_accounts0)
      (?m\<lparr> m_agg_weighted_debt_sum := 0 \<rparr>) = Inr ()"
    by (simp add: assert_sufficiency_Inr tracked_collateral_def liq_snapshot_def liq_market1_def liq_market0_def market1_def market0_def)
  have p: "p_recorded_debt (position1 700) = 700" "p_reserve_lamports (position1 700) = 20000000" by (simp_all add: position1_def position0_def)
  have v: "lamports_move ledger_runtime (liq_ledger0 0 5 995 300) (la_position liq_accounts0) (la_liquidator liq_accounts0) 20000000 =
      Some liq_ledger1"
    by (simp add: ledger_runtime_def move_lamports_def liq_ledger0_def liq_ledger1_def liq_accounts0_def fun_eq_iff)
  show ?thesis
    by (simp add: liquidate_handler_def Let_def v c liq_open0 liq_seize0 p liq_split0 g liq_offset0 liq_rest_def w r s)
qed


end
