(* ===== verification/Backing.thy ===== *)
theory Backing
  imports Books
begin

text \<open>
  Whether the market's totals cover its positions. What a position claims is its recorded debt (or
  collateral) plus the interest and the redistributions it has not realized yet, as exact rational
  numbers; the market's aggregate debt and total collateral have to stay above the sum of the
  claims. An operation that touches one position keeps that when it does not lower the cover it
  leaves for the others, whose total weight and stake are fixed parameters here.
\<close>

subsection \<open>Claims and cover\<close>

definition debt_claim :: "market \<Rightarrow> position \<Rightarrow> rat" where
  "debt_claim m p = of_nat (p_recorded_debt p) +
     of_nat (weight p) * of_int (m_last_update_ts m - p_last_debt_update p) / of_nat INTEREST_DENOM +
     of_nat (p_stake p) * (of_nat (m_l_art m) - of_nat (p_redist_l_art_snapshot p)) / of_nat PRECISION"

definition coll_claim :: "market \<Rightarrow> position \<Rightarrow> rat" where
  "coll_claim m p = of_nat (p_ink p) +
     of_nat (p_stake p) * (of_nat (m_l_coll m) - of_nat (p_redist_l_coll_snapshot p)) / of_nat PRECISION"

definition debt_cover :: "nat \<Rightarrow> nat \<Rightarrow> market \<Rightarrow> position \<Rightarrow> rat" where
  "debt_cover w s m p = of_nat (m_agg_recorded_debt m) - of_nat (m_last_art_redist_error m) / of_nat PRECISION - debt_claim m p -
     of_nat w * of_int (m_last_update_ts m) / of_nat INTEREST_DENOM - of_nat s * of_nat (m_l_art m) / of_nat PRECISION"

definition coll_cover :: "nat \<Rightarrow> market \<Rightarrow> position \<Rightarrow> rat" where
  "coll_cover s m p = of_nat (m_total_collateral m) - of_nat (m_last_coll_redist_error m) / of_nat PRECISION - coll_claim m p -
     of_nat s * of_nat (m_l_coll m) / of_nat PRECISION"

text \<open>The clock has not run backwards, and the checkpoints of a position with debt lie in the market's past.\<close>

definition timely :: "market \<Rightarrow> int \<Rightarrow> bool" where
  "timely m now \<longleftrightarrow> 0 \<le> m_last_update_ts m \<and> m_last_update_ts m \<le> now \<and> now < 2 ^ 63"

definition checkpointed :: "market \<Rightarrow> position \<Rightarrow> bool" where
  "checkpointed m p \<longleftrightarrow> 0 \<le> p_last_debt_update p \<and> (weight p = 0 \<or> p_last_debt_update p \<le> m_last_update_ts m) \<and>
     p_redist_l_coll_snapshot p \<le> m_l_coll m \<and> p_redist_l_art_snapshot p \<le> m_l_art m \<and> (p_ink p = 0 \<longrightarrow> p_stake p = 0)"

definition settled :: "market \<Rightarrow> position \<Rightarrow> bool" where
  "settled m p \<longleftrightarrow> p_last_debt_update p = m_last_update_ts m \<and>
     p_redist_l_coll_snapshot p = m_l_coll m \<and> p_redist_l_art_snapshot p = m_l_art m"

definition covered_step :: "nat \<Rightarrow> nat \<Rightarrow> market \<Rightarrow> position \<Rightarrow> market \<Rightarrow> position \<Rightarrow> bool" where
  "covered_step w s m p m' p' \<longleftrightarrow> debt_cover w s m p \<le> debt_cover w s m' p' \<and> coll_cover s m p \<le> coll_cover s m' p' \<and>
     m_last_update_ts m \<le> m_last_update_ts m' \<and> m_l_coll m \<le> m_l_coll m' \<and> m_l_art m \<le> m_l_art m'"

lemma covered_step_trans [trans]:
  "covered_step w s m p m1 p1 \<Longrightarrow> covered_step w s m1 p1 m2 p2 \<Longrightarrow> covered_step w s m p m2 p2"
  by (auto simp: covered_step_def)

subsection \<open>Opening\<close>

lemma of_nat_div_bound:
  fixes a b n :: nat
  assumes "n * b \<le> a" "0 < b"
  shows "(of_nat n :: rat) \<le> of_nat a / of_nat b"
proof -
  have "(of_nat (n * b) :: rat) \<le> of_nat a" using assms(1) by (simp only: of_nat_le_iff)
  then show ?thesis using assms(2) by (simp add: pos_le_divide_eq)
qed

lemma accrue_covers:
  assumes "accrue m now = Inr m1" "timely m now"
  obtains x where "m1 = m\<lparr> m_agg_recorded_debt := m_agg_recorded_debt m + x,
      m_unminted_interest := m_unminted_interest m + x, m_last_update_ts := m_last_update_ts m1 \<rparr>"
    "of_nat (m_agg_weighted_debt_sum m) * of_int (m_last_update_ts m1 - m_last_update_ts m) / of_nat INTEREST_DENOM \<le> (of_nat x :: rat)"
    "m_last_update_ts m1 = (if m_shutdown m then m_last_update_ts m else now)" "timely m1 now" "m_last_update_ts m \<le> m_last_update_ts m1"
proof (rule accrue_Inr [OF assms(1)])
  fix x t
  assume m1: "m1 = m\<lparr> m_agg_recorded_debt := m_agg_recorded_debt m + x,
      m_unminted_interest := m_unminted_interest m + x, m_last_update_ts := t \<rparr>"
    and x: "x = 0 \<and> t = m_last_update_ts m \<or>
     \<not> m_shutdown m \<and> m_last_update_ts m < now \<and> t = now \<and>
     pending_aggregate_interest (m_agg_weighted_debt_sum m) (nat (i64_sat (now - m_last_update_ts m))) = Some x"
  have t: "t = (if m_shutdown m then m_last_update_ts m else now)"
    using assms x m1 by (auto simp: accrue_def timely_def i64_sat_def Let_def res_simps split: if_splits dest!: arg_cong [where f = m_last_update_ts])
  have sat: "i64_sat (now - m_last_update_ts m) = now - m_last_update_ts m"
    using assms(2) by (simp add: timely_def i64_sat_def)
  have "of_nat (m_agg_weighted_debt_sum m) * of_int (t - m_last_update_ts m) / of_nat INTEREST_DENOM \<le> (of_nat x :: rat)"
    using x
  proof
    assume x: "\<not> m_shutdown m \<and> m_last_update_ts m < now \<and> t = now \<and>
     pending_aggregate_interest (m_agg_weighted_debt_sum m) (nat (i64_sat (now - m_last_update_ts m))) = Some x"
    then have "m_agg_weighted_debt_sum m * nat (now - m_last_update_ts m) \<le> x * INTEREST_DENOM"
      using pending_aggregate_interest_bounds(1) unfolding sat by blast
    then have "(of_nat (m_agg_weighted_debt_sum m * nat (now - m_last_update_ts m)) :: rat) \<le> of_nat (x * INTEREST_DENOM)"
      by (simp only: of_nat_le_iff)
    then show ?thesis using x by (simp add: divide_le_eq of_nat_nat)
  qed simp
  then show thesis
    by (intro that [where x = x]) (use t assms(2) in \<open>simp_all add: m1 timely_def\<close>)
qed

lemma realize_bounds:
  assumes "realize m p now = Inr p1" "m_last_update_ts m = (if m_shutdown m then m_last_update_ts m else now)"
    and "checkpointed m p" "timely m now"
  shows "settled m p1" "of_nat (p_recorded_debt p1) \<le> debt_claim m p" "of_nat (p_ink p1) \<le> coll_claim m p"
    "p_ink p1 = 0 \<longrightarrow> p_stake p1 = 0"
proof -
  let ?cap = "if m_shutdown m then m_last_update_ts m else now"
  obtain a pc pd where a: "accrued_interest (p_recorded_debt p) (p_user_rate_bps p) (nat (max (i64_sat (?cap - p_last_debt_update p)) 0)) = Some a"
    and pe: "pending_of_position m p = Inr (pc, pd)"
    and i: "p_ink p1 = p_ink p + pc" and d: "p_recorded_debt p1 = p_recorded_debt p + a + pd"
    and s: "p_last_debt_update p1 = ?cap" "p_redist_l_coll_snapshot p1 = m_l_coll m" "p_redist_l_art_snapshot p1 = m_l_art m"
      "p_stake p1 = p_stake p"
    by (rule realize_Inr [OF assms(1)]) (rule that)
  have A: "(of_nat a :: rat) \<le> of_nat (weight p) * of_int (m_last_update_ts m - p_last_debt_update p) / of_nat INTEREST_DENOM"
  proof (cases "weight p = 0")
    case True
    then have "a = 0" using accrued_interest_bounds(1) [OF a] INTEREST_DENOM_pos by (auto simp: weight_def simp del: INTEREST_DENOM_pos)
    then show ?thesis using True by simp
  next
    case False
    let ?n = "nat (max (i64_sat (?cap - p_last_debt_update p)) 0)"
    have "int ?n = m_last_update_ts m - p_last_debt_update p"
      using assms(3,4) False unfolding assms(2) [symmetric] by (simp add: checkpointed_def timely_def i64_sat_def)
    then have n: "(of_nat ?n :: rat) = of_int (m_last_update_ts m - p_last_debt_update p)"
      by (metis of_int_of_nat_eq)
    have "(of_nat a :: rat) \<le> of_nat (weight p * ?n) / of_nat INTEREST_DENOM"
      by (rule of_nat_div_bound) (use accrued_interest_bounds(1) [OF a] in \<open>simp_all add: weight_def\<close>)
    then show ?thesis by (simp only: of_nat_mult n times_divide_eq_left)
  qed
  have P: "0 < PRECISION" by (simp add: PRECISION_def)
  have L: "p_redist_l_coll_snapshot p \<le> m_l_coll m" "p_redist_l_art_snapshot p \<le> m_l_art m" using assms(3) by (auto simp: checkpointed_def)
  have "pc = p_stake p * (m_l_coll m - p_redist_l_coll_snapshot p) div PRECISION"
    and "pd = p_stake p * (m_l_art m - p_redist_l_art_snapshot p) div PRECISION" using pending_of_position_Inr [OF pe] by auto
  then have "(of_nat pc :: rat) \<le> of_nat (p_stake p * (m_l_coll m - p_redist_l_coll_snapshot p)) / of_nat PRECISION"
    and "(of_nat pd :: rat) \<le> of_nat (p_stake p * (m_l_art m - p_redist_l_art_snapshot p)) / of_nat PRECISION"
    by (simp_all only: of_nat_div_bound P div_times_less_eq_dividend)
  then have C: "(of_nat pc :: rat) \<le> of_nat (p_stake p) * (of_nat (m_l_coll m) - of_nat (p_redist_l_coll_snapshot p)) / of_nat PRECISION"
    and D: "(of_nat pd :: rat) \<le> of_nat (p_stake p) * (of_nat (m_l_art m) - of_nat (p_redist_l_art_snapshot p)) / of_nat PRECISION"
    using L by (simp_all add: of_nat_diff)
  show "settled m p1" using s(1) [folded assms(2)] s(2,3) by (simp add: settled_def)
  show "of_nat (p_recorded_debt p1) \<le> debt_claim m p" using A D by (simp add: debt_claim_def d)
  show "of_nat (p_ink p1) \<le> coll_claim m p" using C by (simp add: coll_claim_def i)
  show "p_ink p1 = 0 \<longrightarrow> p_stake p1 = 0" using assms(3) by (simp add: checkpointed_def i s(4))
qed

lemma settled_claims:
  assumes "settled m p"
  shows "debt_claim m p = of_nat (p_recorded_debt p)" "coll_claim m p = of_nat (p_ink p)"
  using assms by (simp_all add: settled_def debt_claim_def coll_claim_def)

lemma claims_market:
  "debt_claim (m\<lparr> m_agg_recorded_debt := x, m_unminted_interest := y, m_last_update_ts := t \<rparr>) p =
     debt_claim m p + of_nat (weight p) * of_int (t - m_last_update_ts m) / of_nat INTEREST_DENOM"
  "coll_claim (m\<lparr> m_agg_recorded_debt := x, m_unminted_interest := y, m_last_update_ts := t \<rparr>) p = coll_claim m p"
  by (simp_all add: debt_claim_def coll_claim_def algebra_simps add_divide_distrib diff_divide_distrib)

text \<open>Accruing the market and realizing a position settles it and leaves the others at least the cover they had.\<close>

lemma opened_settled:
  assumes "accrue m now = Inr m1" "realize m1 p now = Inr p1" "timely m now" "checkpointed m p"
  obtains x where "m_agg_recorded_debt m1 = m_agg_recorded_debt m + x" "m_total_collateral m1 = m_total_collateral m"
    "m_l_coll m1 = m_l_coll m" "m_l_art m1 = m_l_art m" "m_last_art_redist_error m1 = m_last_art_redist_error m"
    "m_last_coll_redist_error m1 = m_last_coll_redist_error m" "m_last_update_ts m \<le> m_last_update_ts m1"
    "of_nat (m_agg_weighted_debt_sum m) * of_int (m_last_update_ts m1 - m_last_update_ts m) / of_nat INTEREST_DENOM \<le> (of_nat x :: rat)"
    "of_nat (p_recorded_debt p1) \<le> debt_claim m p + of_nat (weight p) * of_int (m_last_update_ts m1 - m_last_update_ts m) / of_nat INTEREST_DENOM"
    "of_nat (p_ink p1) \<le> coll_claim m p" "settled m1 p1" "timely m1 now"
proof -
  obtain x where m1: "m1 = m\<lparr> m_agg_recorded_debt := m_agg_recorded_debt m + x,
      m_unminted_interest := m_unminted_interest m + x, m_last_update_ts := m_last_update_ts m1 \<rparr>"
    and x: "of_nat (m_agg_weighted_debt_sum m) * of_int (m_last_update_ts m1 - m_last_update_ts m) / of_nat INTEREST_DENOM \<le> (of_nat x :: rat)"
    and t: "m_last_update_ts m1 = (if m_shutdown m then m_last_update_ts m else now)" "timely m1 now" "m_last_update_ts m \<le> m_last_update_ts m1"
    by (rule accrue_covers [OF assms(1,3)])
  have f: "m_agg_recorded_debt m1 = m_agg_recorded_debt m + x" "m_total_collateral m1 = m_total_collateral m"
    "m_l_coll m1 = m_l_coll m" "m_l_art m1 = m_l_art m"
    "m_last_art_redist_error m1 = m_last_art_redist_error m" "m_last_coll_redist_error m1 = m_last_coll_redist_error m"
    by (subst m1, simp)+
  have sd: "m_shutdown m1 = m_shutdown m" by (subst m1, simp)
  have c: "checkpointed m1 p" using assms(4) t(3) by (auto simp: checkpointed_def f)
  have t': "m_last_update_ts m1 = (if m_shutdown m1 then m_last_update_ts m1 else now)" using t(1) by (auto simp: sd)
  note r = realize_bounds [OF assms(2) t' c t(2)]
  have "debt_claim m1 p = debt_claim m p + of_nat (weight p) * of_int (m_last_update_ts m1 - m_last_update_ts m) / of_nat INTEREST_DENOM"
    "coll_claim m1 p = coll_claim m p"
    by (subst m1, rule claims_market)+
  then show thesis using that [OF f t(3) x _ _ r(1) t(2)] r(2,3) by simp
qed

lemma opened_step:
  assumes "accrue m now = Inr m1" "realize m1 p now = Inr p1" "timely m now" "checkpointed m p"
    and w: "w + weight p = m_agg_weighted_debt_sum m"
  shows "covered_step w s m p m1 p1"
proof (rule opened_settled [OF assms(1-4)])
  fix x
  assume f: "m_agg_recorded_debt m1 = m_agg_recorded_debt m + x" "m_total_collateral m1 = m_total_collateral m"
    "m_l_coll m1 = m_l_coll m" "m_l_art m1 = m_l_art m" "m_last_art_redist_error m1 = m_last_art_redist_error m"
    "m_last_coll_redist_error m1 = m_last_coll_redist_error m" "m_last_update_ts m \<le> m_last_update_ts m1"
    and x: "of_nat (m_agg_weighted_debt_sum m) * of_int (m_last_update_ts m1 - m_last_update_ts m) / of_nat INTEREST_DENOM \<le> (of_nat x :: rat)"
    and cl: "of_nat (p_recorded_debt p1) \<le> debt_claim m p + of_nat (weight p) * of_int (m_last_update_ts m1 - m_last_update_ts m) / of_nat INTEREST_DENOM"
      "of_nat (p_ink p1) \<le> coll_claim m p"
    and st: "settled m1 p1"
  have W: "(of_nat (m_agg_weighted_debt_sum m) :: rat) = of_nat w + of_nat (weight p)" by (simp flip: w)
  have "debt_cover w s m p \<le> debt_cover w s m1 p1"
    using x cl(1) unfolding debt_cover_def settled_claims(1) [OF st] W f
    by (simp add: algebra_simps add_divide_distrib diff_divide_distrib)
  moreover have "coll_cover s m p \<le> coll_cover s m1 p1"
    using cl(2) unfolding coll_cover_def settled_claims(2) [OF st] f by simp
  ultimately show ?thesis using f(7) by (simp add: covered_step_def f)
qed

subsection \<open>Closing\<close>

text \<open>
  Between states in which the position is settled, the cover is the difference of the market's
  totals and the position's own figures.
\<close>

lemma settled_step:
  assumes "settled m p" "settled m' p'" "m_last_update_ts m' = m_last_update_ts m" "m_l_coll m' = m_l_coll m" "m_l_art m' = m_l_art m"
    and "m_last_coll_redist_error m' = m_last_coll_redist_error m" "m_last_art_redist_error m' = m_last_art_redist_error m"
    and "m_agg_recorded_debt m + p_recorded_debt p' \<le> m_agg_recorded_debt m' + p_recorded_debt p"
    and "m_total_collateral m + p_ink p' \<le> m_total_collateral m' + p_ink p"
  shows "covered_step w s m p m' p'"
proof -
  have "(of_nat (m_agg_recorded_debt m + p_recorded_debt p') :: rat) \<le> of_nat (m_agg_recorded_debt m' + p_recorded_debt p)"
    "(of_nat (m_total_collateral m + p_ink p') :: rat) \<le> of_nat (m_total_collateral m' + p_ink p)"
    using assms(8,9) by (simp_all only: of_nat_le_iff)
  then show ?thesis
    using assms(3-7) by (simp add: covered_step_def debt_cover_def coll_cover_def settled_claims [OF assms(1)] settled_claims [OF assms(2)])
qed

lemma settled_checkpointed: "settled m p \<Longrightarrow> 0 \<le> m_last_update_ts m \<Longrightarrow> p_ink p = 0 \<longrightarrow> p_stake p = 0 \<Longrightarrow> checkpointed m p"
  by (simp add: settled_def checkpointed_def)

lemma compute_stake_0: "compute_stake 0 a b = Inr s \<Longrightarrow> s = 0"
  by (auto simp: compute_stake_def res_simps num_simps split: if_splits)


subsection \<open>A whole touch\<close>

definition keeps_cover :: "int \<Rightarrow> market \<Rightarrow> position \<Rightarrow> market \<Rightarrow> position \<Rightarrow> bool" where
  "keeps_cover now m p m' p' \<longleftrightarrow>
     (\<forall>w s. w + weight p = m_agg_weighted_debt_sum m \<longrightarrow> s + p_stake p = m_total_stakes m \<longrightarrow> covered_step w s m p m' p') \<and>
     checkpointed m' p' \<and> timely m' now"

lemma touched_step:
  assumes "accrue m now = Inr m1" "realize m1 p now = Inr p1" "timely m now" "checkpointed m p"
    and "m_last_update_ts m' = m_last_update_ts m1" "m_l_coll m' = m_l_coll m1" "m_l_art m' = m_l_art m1"
    and "m_last_coll_redist_error m' = m_last_coll_redist_error m1" "m_last_art_redist_error m' = m_last_art_redist_error m1"
    and "p_last_debt_update p' = p_last_debt_update p1"
    and "p_redist_l_coll_snapshot p' = p_redist_l_coll_snapshot p1" "p_redist_l_art_snapshot p' = p_redist_l_art_snapshot p1"
    and "m_agg_recorded_debt m1 + p_recorded_debt p' \<le> m_agg_recorded_debt m' + p_recorded_debt p1"
    and "m_total_collateral m1 + p_ink p' \<le> m_total_collateral m' + p_ink p1"
    and "p_ink p' = 0 \<longrightarrow> p_stake p' = 0"
  shows "keeps_cover now m p m' p'"
proof -
  have st: "settled m1 p1" "timely m1 now" by (rule opened_settled [OF assms(1-4)], assumption)+
  then have st': "settled m' p'" using assms(5-12) by (simp add: settled_def)
  show ?thesis
    unfolding keeps_cover_def
  proof (intro conjI allI impI)
    fix w s
    assume w: "w + weight p = m_agg_weighted_debt_sum m"
    show "covered_step w s m p m' p'"
      by (intro covered_step_trans [OF opened_step [OF assms(1-4) w]] settled_step [OF st(1) st'] assms)
  next
    show "timely m' now" using st(2) by (simp add: timely_def assms(5))
    show "checkpointed m' p'" by (rule settled_checkpointed [OF st']) (use st(2) assms(5,15) in \<open>auto simp: timely_def\<close>)
  qed
qed

end
