(* ===== verification/Liquidate_Backing.thy ===== *)
theory Liquidate_Backing
  imports Liquidate Backing
begin

text \<open>
  A liquidation leaves the surviving positions at least the cover they had, whichever tiers take the
  debt: what is redistributed goes into the accumulators together with the remainder they carry.
\<close>

lemma accumulate_cover:
  assumes "accumulate l e s d = Inr (l', e')"
  shows "(of_nat e' :: rat) / of_nat PRECISION + of_nat s * of_nat l' / of_nat PRECISION =
      of_nat d + of_nat e / of_nat PRECISION + of_nat s * of_nat l / of_nat PRECISION" "l \<le> l'"
proof -
  have x: "l \<le> l'" "(l' - l) * s + e' = d * PRECISION + e" using redist_acc.exact [OF assms] by auto
  have "(of_nat ((l' - l) * s + e') :: rat) = of_nat (d * PRECISION + e)" by (simp only: x(2))
  then have "(of_nat l' - of_nat l) * of_nat s + of_nat e' = (of_nat d * of_nat PRECISION + of_nat e :: rat)"
    using x(1) by (simp add: of_nat_diff)
  then have "(of_nat e' + of_nat s * of_nat l' :: rat) = of_nat d * of_nat PRECISION + (of_nat e + of_nat s * of_nat l)"
    by (simp add: algebra_simps)
  moreover have "(of_nat PRECISION :: rat) \<noteq> 0" by (simp add: PRECISION_def)
  ultimately show "(of_nat e' :: rat) / of_nat PRECISION + of_nat s * of_nat l' / of_nat PRECISION =
      of_nat d + of_nat e / of_nat PRECISION + of_nat s * of_nat l / of_nat PRECISION"
    by (simp add: add_divide_distrib [symmetric] divide_eq_eq distrib_right)
  show "l \<le> l'" by (rule x(1))
qed

lemma liq_rest_accumulates:
  assumes "liq_rest T A s c l m b bs = Inr (l', m', b', bs')" "token_laws T"
  obtains cc where "m_total_collateral m' = m_total_collateral m + cc" "m_agg_recorded_debt m' = m_agg_recorded_debt m"
    "m_last_update_ts m' = m_last_update_ts m"
    "(of_nat (m_last_art_redist_error m') :: rat) / of_nat PRECISION + of_nat (m_total_stakes m) * of_nat (m_l_art m') / of_nat PRECISION =
      of_nat (redist s) + of_nat (m_last_art_redist_error m) / of_nat PRECISION + of_nat (m_total_stakes m) * of_nat (m_l_art m) / of_nat PRECISION"
    "m_l_art m \<le> m_l_art m'"
    "(of_nat (m_last_coll_redist_error m') :: rat) / of_nat PRECISION + of_nat (m_total_stakes m) * of_nat (m_l_coll m') / of_nat PRECISION =
      of_nat cc + of_nat (m_last_coll_redist_error m) / of_nat PRECISION + of_nat (m_total_stakes m) * of_nat (m_l_coll m) / of_nat PRECISION"
    "m_l_coll m \<le> m_l_coll m'"
  using assms
proof (cases rule: liq_rest_Inr)
  case redistributed
  show thesis
  proof (cases rule: liq_redistribute_effect [OF redistributed(2)])
    case (1 lc la ec ea)
    show thesis by (rule that [of c]) (use accumulate_cover [OF 1(2)] accumulate_cover [OF 1(3)] in \<open>simp_all add: 1(1)\<close>)
  qed
qed (rule that [of 0]; simp)+

lemma liquidate_covers:
  assumes "liquidate_handler T clk A l m p rp grid bm b bs = Inr (l', m', p', rp', grid', bm', b', bs')"
    and "token_laws T" "bitmap_ok bm" "timely m (unix_timestamp clk)" "checkpointed m p"
  shows "keeps_cover (unix_timestamp clk) m p m' p'"
  using assms(1)
proof (cases rule: liquidate_Inr)
  case h: (1 m1 p1 m2 p2 gas dc m3 s csp cr l1 l2 m4 l3)
  note o = liq_open_Inr [OF h(2)]
  note sp = liq_split_effect [OF h(4) o(9)]
  have st: "settled m1 p1" "timely m1 (unix_timestamp clk)" by (rule opened_settled [OF o(1,2) assms(4,5)], assumption)+
  show ?thesis
  proof (cases rule: liq_seize_Inr [OF h(3)])
    case sz: (1 sc r)
    note m' = liq_reweight(1) [OF h(9), unfolded liq_snapshot_def]
    obtain k where p': "p' = (liq_reset_position (liq_snapshot m4) p2)\<lparr> p_bucket := k \<rparr>" by (rule reconcile_Inr [OF h(10) assms(3)])
    have m3: "m_total_stakes m3 = m_total_stakes m1 - p_stake p1" "m_total_collateral m3 = m_total_collateral m1 - p_ink p1"
      "m_l_coll m3 = m_l_coll m1" "m_l_art m3 = m_l_art m1" "m_last_coll_redist_error m3 = m_last_coll_redist_error m1"
      "m_last_art_redist_error m3 = m_last_art_redist_error m1" "m_last_update_ts m3 = m_last_update_ts m1"
      "m_agg_recorded_debt m2 = m_agg_recorded_debt m1"
      by (subst sp(1), simp add: sz(2); fail | simp add: sz(2))+
    have p2: "p_last_debt_update p2 = p_last_debt_update p1" by (simp add: sz(3))
    obtain cc where cc: "m_total_collateral m4 = m_total_collateral m3 + cc" "m_agg_recorded_debt m4 = m_agg_recorded_debt m3"
        "m_last_update_ts m4 = m_last_update_ts m3"
      and ca: "(of_nat (m_last_art_redist_error m4) :: rat) / of_nat PRECISION + of_nat (m_total_stakes m3) * of_nat (m_l_art m4) / of_nat PRECISION =
        of_nat (redist s) + of_nat (m_last_art_redist_error m3) / of_nat PRECISION + of_nat (m_total_stakes m3) * of_nat (m_l_art m3) / of_nat PRECISION"
        "m_l_art m3 \<le> m_l_art m4"
      and ccv: "(of_nat (m_last_coll_redist_error m4) :: rat) / of_nat PRECISION + of_nat (m_total_stakes m3) * of_nat (m_l_coll m4) / of_nat PRECISION =
        of_nat cc + of_nat (m_last_coll_redist_error m3) / of_nat PRECISION + of_nat (m_total_stakes m3) * of_nat (m_l_coll m3) / of_nat PRECISION"
        "m_l_coll m3 \<le> m_l_coll m4"
      by (rule liq_rest_accumulates [OF h(7) assms(2)])
    have agg: "(of_nat (m_agg_recorded_debt m4) :: rat) = of_nat (m_agg_recorded_debt m1) - of_nat (p_recorded_debt p1) + of_nat (redist s)"
    proof -
      have "m_agg_recorded_debt m4 + p_recorded_debt p1 = m_agg_recorded_debt m1 + redist s" using sp(2,5) cc(2) m3(8) by simp
      then have "(of_nat (m_agg_recorded_debt m4 + p_recorded_debt p1) :: rat) = of_nat (m_agg_recorded_debt m1 + redist s)" by (simp only:)
      then show ?thesis by simp
    qed
    have col: "(of_nat (m_total_collateral m4) :: rat) = of_nat (m_total_collateral m1) - of_nat (p_ink p1) + of_nat cc"
      using cc(1) m3(2) sz(5) by (simp add: of_nat_diff)
    have st': "settled m' p'"
      using st(1) by (simp add: settled_def m' p' p2 cc(3) m3(7) liq_snapshot_def)
    have cov: "covered_step w (m_total_stakes m3) m1 p1 m' p'" for w
      using ca ccv agg col m3
      by (simp add: covered_step_def debt_cover_def coll_cover_def settled_claims [OF st(1)] settled_claims [OF st'])
        (simp add: m' p' cc(3))
    have "m_total_stakes m3 + p_stake p = m_total_stakes m"
      by (rule position_opened [OF o(1,2)]) (use m3(1) sz(4) in simp)
    then have step: "covered_step w s m p m' p'" if "w + weight p = m_agg_weighted_debt_sum m" "s + p_stake p = m_total_stakes m" for w s
      using covered_step_trans [OF opened_step [OF o(1,2) assms(4,5) that(1)] cov] that(2) by (metis add_right_cancel)
    show ?thesis
      unfolding keeps_cover_def
    proof (intro conjI allI impI step)
      show "timely m' (unix_timestamp clk)" using st(2) by (simp add: timely_def m' cc(3) m3(7))
      show "checkpointed m' p'" by (rule settled_checkpointed [OF st']) (use st(2) in \<open>auto simp: timely_def p' m' cc(3) m3(7)\<close>)
    qed
  qed
qed

end
