(* ===== verification/Cdp_Backing.thy ===== *)
theory Cdp_Backing
  imports Cdp_Ops Backing
begin

text \<open>Every borrower instruction leaves the other positions at least the cover they had.\<close>

lemma deposit_covers:
  assumes "deposit_handler T clk A amount l m p bm = Inr (l', m', p', bm')" "bitmap_ok bm"
    and "timely m (unix_timestamp clk)" "checkpointed m p"
  shows "keeps_cover (unix_timestamp clk) m p m' p'"
  using assms(1)
proof (cases rule: deposit_Inr)
  case h: (1 l1 m1 p1 m2 p3 p4)
  show ?thesis
  proof (cases rule: position_closed [OF h(8,9)])
    case cl: (1 w s u)
    obtain n where p4: "p4 = p3\<lparr> p_reserve_lamports := n \<rparr>"
      using h(10) by (auto simp: if_Inr res_simps intro: that [of "p_reserve_lamports p3"])
    obtain b where p': "p' = p4\<lparr> p_bucket := b \<rparr>" by (rule reconcile_Inr [OF h(11) assms(2)])
    have "p_ink p1 + amount = 0 \<longrightarrow> s = 0" using cl(5) compute_stake_0 by auto
    then show ?thesis
      by (intro touched_step [OF h(5,6) assms(3,4)]) (simp_all add: cl(1,2) p4 p')
  qed
qed

lemma withdraw_covers:
  assumes "withdraw_handler T clk A amount l m p bm = Inr (l', m', p', bm')" "bitmap_ok bm"
    and "timely m (unix_timestamp clk)" "checkpointed m p"
  shows "keeps_cover (unix_timestamp clk) m p m' p'"
  using assms(1)
proof (cases rule: withdraw_Inr)
  case h: (1 m1 p1 m2 p3)
  show ?thesis
  proof (cases rule: position_closed [OF h(12,13)])
    case cl: (1 w s u)
    obtain b where p': "p' = p3\<lparr> p_bucket := b \<rparr>" by (rule reconcile_Inr [OF h(14) assms(2)])
    have "p_ink p1 - amount = 0 \<longrightarrow> s = 0" using cl(5) compute_stake_0 by auto
    then show ?thesis
      using h(7,11) by (intro touched_step [OF h(5,6) assms(3,4)]) (simp_all add: cl(1,2) p')
  qed
qed

lemma borrow_covers:
  assumes "borrow_handler T clk A amount l m p bm = Inr (l', m', p', bm')" "bitmap_ok bm"
    and "timely m (unix_timestamp clk)" "checkpointed m p"
  shows "keeps_cover (unix_timestamp clk) m p m' p'"
  using assms(1)
proof (cases rule: borrow_Inr)
  case h: (1 m1 p1 fee d m2 m3 p4)
  obtain a n where m2: "m2 = m1\<lparr> m_rl_accrued := a, m_rl_last_update := n \<rparr>" by (rule limiter_step [OF h(18)])
  have d: "bd_new_agg d = m_agg_recorded_debt m1 + bd_debt_delta d"
    using u128_supply.borrow_identity(3,4) [OF h(13)] by simp
  show ?thesis
  proof (cases rule: position_closed [OF h(19,20)])
    case cl: (1 w s u)
    obtain b where p': "p' = p4\<lparr> p_bucket := b \<rparr>" by (rule reconcile_Inr [OF h(22) assms(2)])
    have "p_ink p1 = 0 \<longrightarrow> s = 0" using cl(5) compute_stake_0 by auto
    then show ?thesis
      by (intro touched_step [OF h(4,5) assms(3,4)]) (simp_all add: cl(1,2) p' m2 d)
  qed
qed

lemma repay_covers:
  assumes "repay_handler T clk A amount l m p bm = Inr (l', m', p', bm')" "bitmap_ok bm"
    and "timely m (unix_timestamp clk)" "checkpointed m p"
  shows "keeps_cover (unix_timestamp clk) m p m' p'"
  using assms(1)
proof (cases rule: repay_Inr)
  case h: (idle m1 p1)
  obtain s where s: "m' = m1\<lparr> m_total_stakes := m_total_stakes m1 - p_stake p1 + s \<rparr>" "p' = p1\<lparr> p_stake := s \<rparr>"
    "compute_stake (p_ink p1) (m_total_stakes_snapshot m1) (m_total_collateral_snapshot m1) = Inr s"
    by (rule set_stake_Inr [OF h(4)])
  have "p_ink p1 = 0 \<longrightarrow> s = 0" using s(3) compute_stake_0 by auto
  then show ?thesis by (intro touched_step [OF h(1,2) assms(3,4)]) (simp_all add: s(1,2))
next
  case h: (paid m1 p1 d m2 m3 p3)
  have d: "m_agg_recorded_debt m1 + rd_new_position_debt d = rd_new_agg d + p_recorded_debt p1"
    using u128_supply.repay_identity [OF h(5)] by simp
  show ?thesis
  proof (cases rule: position_closed [OF h(8,9)])
    case cl: (1 w s u)
    obtain b where p': "p' = p3\<lparr> p_bucket := b \<rparr>" by (rule reconcile_Inr [OF h(11) assms(2)])
    have "p_ink p1 = 0 \<longrightarrow> s = 0" using cl(5) compute_stake_0 by auto
    moreover obtain a t where "m' = m3\<lparr> m_rl_accrued := a, m_rl_last_update := t \<rparr>"
      using h(10) by (cases "0 < m_rl_cap m3") (auto intro: that [where a = "m_rl_accrued m3" and t = "m_rl_last_update m3"])
    ultimately show ?thesis
      using d by (intro touched_step [OF h(3,4) assms(3,4)]) (simp_all add: cl(1,2) p')
  qed
qed

lemma adjust_rate_covers:
  assumes "adjust_rate_handler clk A new_rate_bps m p bm = Inr (m', p', bm')" "bitmap_ok bm"
    and "timely m (unix_timestamp clk)" "checkpointed m p"
  shows "keeps_cover (unix_timestamp clk) m p m' p'"
  using assms(1)
proof (cases rule: adjust_rate_Inr)
  case h: (1 m1 p1 m2 p2 m3 p4)
  obtain f where m2: "m2 = m1\<lparr> m_agg_recorded_debt := m_agg_recorded_debt m1 + f, m_unminted_interest := m_unminted_interest m1 + f \<rparr>"
    and p2: "p2 = p1\<lparr> p_recorded_debt := p_recorded_debt p1 + f \<rparr>"
  proof (cases rule: charge_premature_fee_Inr [OF h(7)])
    case 1
    then show thesis using that [of 0] by simp
  qed (use that in blast)
  show ?thesis
  proof (cases rule: position_closed [OF h(8,9)])
    case cl: (1 w s u)
    obtain b where p': "p' = p4\<lparr> p_bucket := b \<rparr>" by (rule reconcile_Inr [OF h(10) assms(2)])
    have "p_ink p1 = 0 \<longrightarrow> s = 0" using cl(5) compute_stake_0 by (auto simp: p2)
    then show ?thesis
      by (intro touched_step [OF h(5,6) assms(3,4)]) (simp_all add: cl(1,2) p' m2 p2)
  qed
qed

end
