(* ===== verification/Map_Sums.thy ===== *)
theory Map_Sums
  imports Prelude
begin

text \<open>Sums over the values of a finite map, and how updating one key changes them.\<close>

definition sum_map :: "('v \<Rightarrow> 'a :: comm_monoid_add) \<Rightarrow> ('k \<rightharpoonup> 'v) \<Rightarrow> 'a" where
  "sum_map f m = (\<Sum>k\<in>dom m. f (the (m k)))"

lemma sum_map_empty [simp]: "sum_map f Map.empty = 0"
  by (simp add: sum_map_def)

lemma sum_map_remove:
  assumes "finite (dom m)" "m k = Some v"
  shows "sum_map f m = f v + sum_map f (m(k := None))"
proof -
  have "sum_map f m = f (the (m k)) + (\<Sum>j\<in>dom m - {k}. f (the (m j)))"
    unfolding sum_map_def by (rule sum.remove) (use assms in auto)
  moreover have "(\<Sum>j\<in>dom m - {k}. f (the (m j))) = sum_map f (m(k := None))"
    unfolding sum_map_def by (rule sum.cong) auto
  ultimately show ?thesis using assms(2) by simp
qed

lemma sum_map_insert:
  assumes "finite (dom m)" "m k = None"
  shows "sum_map f (m(k \<mapsto> v)) = f v + sum_map f m"
proof -
  have "(m(k \<mapsto> v))(k := None) = m" using assms(2) by (auto simp: fun_eq_iff)
  then show ?thesis using sum_map_remove [of "m(k \<mapsto> v)" k v f] assms(1) by simp
qed

lemma sum_map_update:
  assumes "finite (dom m)" "m k = Some v"
  shows "sum_map f (m(k \<mapsto> v')) = f v' + sum_map f (m(k := None))"
proof -
  have "(m(k \<mapsto> v'))(k := None) = m(k := None)" by simp
  then show ?thesis using sum_map_remove [of "m(k \<mapsto> v')" k v' f] assms(1) by simp
qed

lemma sum_map_cong:
  "(\<And>k v. m k = Some v \<Longrightarrow> f v = g v) \<Longrightarrow> sum_map f m = sum_map g m"
  unfolding sum_map_def by (rule sum.cong) auto

lemma sum_map_add: "sum_map (\<lambda>v. f v + g v) m = sum_map f m + sum_map g m"
  by (simp add: sum_map_def sum.distrib)

lemma sum_map_member_le:
  fixes f :: "'v \<Rightarrow> 'a :: ordered_comm_monoid_add"
  assumes "finite (dom m)" "m k = Some v" "\<And>k v. m k = Some v \<Longrightarrow> 0 \<le> f v"
  shows "f v \<le> sum_map f m"
proof -
  have "0 \<le> sum_map f (m(k := None))"
    unfolding sum_map_def by (rule sum_nonneg) (auto split: if_splits intro: assms(3))
  then show ?thesis unfolding sum_map_remove [OF assms(1,2)] using add_left_mono [of 0 _ "f v"] by simp
qed

end
