(* ===== verification/Market_Books.thy ===== *)
theory Market_Books
  imports Backing Map_Sums
begin

text \<open>
  The books of a whole market: what its totals, its bitmap and its accumulators have to be, given the
  positions. The invariant is kept by accruing, by opening and closing a position, and by every touch
  of one position that keeps the books and the cover.
\<close>

definition books_ok :: "market \<Rightarrow> (pubkey \<rightharpoonup> position) \<Rightarrow> redemption_bitmap \<Rightarrow> bool" where
  "books_ok m ps bm \<longleftrightarrow> finite (dom ps) \<and>
     sum_map weight ps = m_agg_weighted_debt_sum m \<and> sum_map p_stake ps = m_total_stakes m \<and>
     sum_map p_coll_surplus ps = m_total_coll_surplus m \<and> bitmap_ok bm \<and>
     (\<forall>b \<le> ZOMBIE_BUCKET. tally bm b = sum_map (\<lambda>p. if member_of (p_recorded_debt p) p = Some b then 1 else 0) ps) \<and>
     (\<forall>k p. ps k = Some p \<longrightarrow> checkpointed m p) \<and>
     sum_map (debt_claim m) ps + of_nat (m_last_art_redist_error m) / of_nat PRECISION \<le> of_nat (m_agg_recorded_debt m) \<and>
     sum_map (coll_claim m) ps + of_nat (m_last_coll_redist_error m) / of_nat PRECISION \<le> of_nat (m_total_collateral m)"

lemma books_okD:
  assumes "books_ok m ps bm"
  shows "finite (dom ps)" "sum_map weight ps = m_agg_weighted_debt_sum m" "sum_map p_stake ps = m_total_stakes m"
    "sum_map p_coll_surplus ps = m_total_coll_surplus m" "bitmap_ok bm"
    "\<And>b. b \<le> ZOMBIE_BUCKET \<Longrightarrow> tally bm b = sum_map (\<lambda>p. if member_of (p_recorded_debt p) p = Some b then 1 else 0) ps"
    "\<And>k p. ps k = Some p \<Longrightarrow> checkpointed m p"
    "sum_map (debt_claim m) ps + of_nat (m_last_art_redist_error m) / of_nat PRECISION \<le> of_nat (m_agg_recorded_debt m)"
    "sum_map (coll_claim m) ps + of_nat (m_last_coll_redist_error m) / of_nat PRECISION \<le> of_nat (m_total_collateral m)"
  using assms by (auto simp: books_ok_def)

text \<open>The claims of positions nobody touches move with the market's clock and accumulators.\<close>

lemma sum_debt_claim:
  "sum_map (debt_claim m') ps = sum_map (debt_claim m) ps +
     of_nat (sum_map weight ps) * of_int (m_last_update_ts m' - m_last_update_ts m) / of_nat INTEREST_DENOM +
     of_nat (sum_map p_stake ps) * (of_nat (m_l_art m') - of_nat (m_l_art m)) / of_nat PRECISION"
proof -
  have "debt_claim m' p = debt_claim m p + (of_nat (weight p) * (of_int (m_last_update_ts m' - m_last_update_ts m) / of_nat INTEREST_DENOM) +
     of_nat (p_stake p) * ((of_nat (m_l_art m') - of_nat (m_l_art m)) / of_nat PRECISION))" for p
    by (simp add: debt_claim_def algebra_simps add_divide_distrib diff_divide_distrib)
  then have "sum_map (debt_claim m') ps = sum_map (debt_claim m) ps +
     (sum_map (\<lambda>p. of_nat (weight p)) ps * (of_int (m_last_update_ts m' - m_last_update_ts m) / of_nat INTEREST_DENOM) +
      sum_map (\<lambda>p. of_nat (p_stake p)) ps * ((of_nat (m_l_art m') - of_nat (m_l_art m)) / of_nat PRECISION))"
    by (simp add: sum_map_def sum.distrib sum_distrib_right sum_divide_distrib)
  then show ?thesis by (simp add: sum_map_def)
qed

lemma sum_coll_claim:
  "sum_map (coll_claim m') ps = sum_map (coll_claim m) ps +
     of_nat (sum_map p_stake ps) * (of_nat (m_l_coll m') - of_nat (m_l_coll m)) / of_nat PRECISION"
proof -
  have "coll_claim m' p = coll_claim m p + of_nat (p_stake p) * ((of_nat (m_l_coll m') - of_nat (m_l_coll m)) / of_nat PRECISION)" for p
    by (simp add: coll_claim_def algebra_simps add_divide_distrib diff_divide_distrib)
  then have "sum_map (coll_claim m') ps = sum_map (coll_claim m) ps +
      sum_map (\<lambda>p. of_nat (p_stake p)) ps * ((of_nat (m_l_coll m') - of_nat (m_l_coll m)) / of_nat PRECISION)"
    by (simp add: sum_map_def sum.distrib sum_distrib_right sum_divide_distrib)
  then show ?thesis by (simp add: sum_map_def)
qed

text \<open>One touch.\<close>

lemma books_ok_touch:
  assumes "books_ok m ps bm" "ps k = Some p" "books_step m p bm m' p' bm'" "keeps_cover now m p m' p'"
    and cs: "m_total_coll_surplus m' + p_coll_surplus p = m_total_coll_surplus m + p_coll_surplus p'"
  shows "books_ok m' (ps(k \<mapsto> p')) bm'"
proof -
  note b = books_okD [OF assms(1)]
  let ?o = "ps(k := None)"
  note rem = sum_map_remove [OF b(1) assms(2)] and upd = sum_map_update [OF b(1) assms(2), of _ p']
  define w s where "w = sum_map weight ?o" and "s = sum_map p_stake ?o"
  have w: "w + weight p = m_agg_weighted_debt_sum m" "s + p_stake p = m_total_stakes m"
    using b(2,3) by (simp_all add: rem w_def s_def)
  have c: "covered_step w s m p m' p'" "checkpointed m' p'" using assms(4) w by (auto simp: keeps_cover_def)
  have o: "checkpointed m' q" if "ps j = Some q" for j q
    using b(7) [OF that] c(1) by (auto simp: checkpointed_def covered_step_def)
  have d: "sum_map (debt_claim m') ?o = sum_map (debt_claim m) ?o +
      of_nat w * of_int (m_last_update_ts m' - m_last_update_ts m) / of_nat INTEREST_DENOM +
      of_nat s * (of_nat (m_l_art m') - of_nat (m_l_art m)) / of_nat PRECISION"
    unfolding w_def s_def by (rule sum_debt_claim)
  have e: "sum_map (coll_claim m') ?o = sum_map (coll_claim m) ?o +
      of_nat s * (of_nat (m_l_coll m') - of_nat (m_l_coll m)) / of_nat PRECISION"
    unfolding s_def by (rule sum_coll_claim)
  have "sum_map (debt_claim m') (ps(k \<mapsto> p')) + of_nat (m_last_art_redist_error m') / of_nat PRECISION \<le> of_nat (m_agg_recorded_debt m')"
    using b(8) c(1) unfolding upd rem d covered_step_def debt_cover_def
    by (simp add: algebra_simps add_divide_distrib diff_divide_distrib)
  moreover have "sum_map (coll_claim m') (ps(k \<mapsto> p')) + of_nat (m_last_coll_redist_error m') / of_nat PRECISION \<le> of_nat (m_total_collateral m')"
    using b(9) c(1) unfolding upd rem e covered_step_def coll_cover_def
    by (simp add: algebra_simps add_divide_distrib diff_divide_distrib)
  moreover have "tally bm' i = sum_map (\<lambda>p. if member_of (p_recorded_debt p) p = Some i then 1 else 0) (ps(k \<mapsto> p'))"
    if "i \<le> ZOMBIE_BUCKET" for i
    using b(6) [OF that] assms(3) that unfolding upd rem books_step_def by (auto split: if_splits)
  moreover have "sum_map weight (ps(k \<mapsto> p')) = m_agg_weighted_debt_sum m'" "sum_map p_stake (ps(k \<mapsto> p')) = m_total_stakes m'"
    using b(2,3) assms(3) unfolding upd rem books_step_def by auto
  moreover have "sum_map p_coll_surplus (ps(k \<mapsto> p')) = m_total_coll_surplus m'" using b(4) cs unfolding upd rem by auto
  ultimately show ?thesis
    using b(1) assms(3) o c(2) unfolding books_ok_def books_step_def by (auto split: if_splits)
qed


text \<open>Accruing covers what the claims grow by.\<close>

lemma books_ok_accrue:
  assumes "books_ok m ps bm" "accrue m now = Inr m1" "timely m now"
  shows "books_ok m1 ps bm" "timely m1 now" "m_last_update_ts m1 = (if m_shutdown m1 then m_last_update_ts m1 else now)"
proof -
  note b = books_okD [OF assms(1)]
  obtain x where m1: "m1 = m\<lparr> m_agg_recorded_debt := m_agg_recorded_debt m + x,
      m_unminted_interest := m_unminted_interest m + x, m_last_update_ts := m_last_update_ts m1 \<rparr>"
    and x: "of_nat (m_agg_weighted_debt_sum m) * of_int (m_last_update_ts m1 - m_last_update_ts m) / of_nat INTEREST_DENOM \<le> (of_nat x :: rat)"
    and t: "m_last_update_ts m1 = (if m_shutdown m then m_last_update_ts m else now)" "timely m1 now" "m_last_update_ts m \<le> m_last_update_ts m1"
    by (rule accrue_covers [OF assms(2,3)])
  have f: "m_agg_weighted_debt_sum m1 = m_agg_weighted_debt_sum m" "m_total_stakes m1 = m_total_stakes m"
    "m_total_coll_surplus m1 = m_total_coll_surplus m" "m_l_coll m1 = m_l_coll m" "m_l_art m1 = m_l_art m"
    "m_last_art_redist_error m1 = m_last_art_redist_error m" "m_last_coll_redist_error m1 = m_last_coll_redist_error m"
    "m_agg_recorded_debt m1 = m_agg_recorded_debt m + x" "m_total_collateral m1 = m_total_collateral m"
    "m_shutdown m1 = m_shutdown m"
    by (subst m1, simp)+
  have "checkpointed m1 p" if "ps k = Some p" for k p
    using b(7) [OF that] t(3) by (auto simp: checkpointed_def f)
  moreover have "sum_map (debt_claim m1) ps + of_nat (m_last_art_redist_error m1) / of_nat PRECISION \<le> of_nat (m_agg_recorded_debt m1)"
    using b(8) x sum_debt_claim [of m1 ps m] unfolding f b(2) by simp
  moreover have "sum_map (coll_claim m1) ps + of_nat (m_last_coll_redist_error m1) / of_nat PRECISION \<le> of_nat (m_total_collateral m1)"
    using b(9) sum_coll_claim [of m1 ps m] unfolding f by simp
  ultimately show "books_ok m1 ps bm" using b(1-6) unfolding books_ok_def f by blast
  show "timely m1 now" by (rule t(2))
  show "m_last_update_ts m1 = (if m_shutdown m1 then m_last_update_ts m1 else now)" using t(1) by (auto simp: f)
qed

text \<open>Opening and closing an empty position, and changes of fields the books do not mention.\<close>

lemma books_ok_open:
  assumes "books_ok m ps bm" "ps k = None" "p_recorded_debt p = 0" "p_ink p = 0" "p_stake p = 0" "p_coll_surplus p = 0" "checkpointed m p"
  shows "books_ok m (ps(k \<mapsto> p)) bm"
proof -
  note b = books_okD [OF assms(1)]
  have "debt_claim m p = 0" "coll_claim m p = 0" "weight p = 0" using assms by (simp_all add: debt_claim_def coll_claim_def weight_def)
  then show ?thesis
    using b assms unfolding books_ok_def sum_map_insert [OF b(1) assms(2)] by (auto simp: member_of_def split: if_splits)
qed

lemma books_ok_close:
  assumes "books_ok m ps bm" "ps k = Some p" "p_recorded_debt p = 0" "p_ink p = 0" "p_coll_surplus p = 0"
  shows "books_ok m (ps(k := None)) bm"
proof -
  note b = books_okD [OF assms(1)]
  have "p_stake p = 0" using b(7) [OF assms(2)] assms(4) by (simp add: checkpointed_def)
  then have "debt_claim m p = 0" "coll_claim m p = 0" "weight p = 0" "p_stake p = 0"
    using assms by (simp_all add: debt_claim_def coll_claim_def weight_def)
  then show ?thesis
    using b assms unfolding books_ok_def sum_map_remove [OF b(1) assms(2)] by (auto simp: member_of_def split: if_splits)
qed

lemma books_ok_frame:
  assumes "books_ok m ps bm" "m_agg_weighted_debt_sum m' = m_agg_weighted_debt_sum m" "m_total_stakes m' = m_total_stakes m"
    "m_total_coll_surplus m' = m_total_coll_surplus m" "m_l_coll m' = m_l_coll m" "m_l_art m' = m_l_art m"
    "m_last_art_redist_error m' = m_last_art_redist_error m" "m_last_coll_redist_error m' = m_last_coll_redist_error m"
    "m_agg_recorded_debt m' = m_agg_recorded_debt m" "m_total_collateral m' = m_total_collateral m"
    "m_last_update_ts m' = m_last_update_ts m"
  shows "books_ok m' ps bm"
proof -
  note b = books_okD [OF assms(1)]
  have "debt_claim m' = debt_claim m" "coll_claim m' = coll_claim m" "checkpointed m' = checkpointed m"
    using assms by (simp_all add: fun_eq_iff debt_claim_def coll_claim_def checkpointed_def)
  then show ?thesis using b unfolding books_ok_def assms(2-) by simp
qed

text \<open>What the invariant gives: no position, and not all of them together, can claim more than the market has.\<close>

lemma claim_nonneg:
  assumes "checkpointed m p"
  shows "of_nat (p_recorded_debt p) \<le> debt_claim m p" "of_nat (p_ink p) \<le> coll_claim m p"
proof -
  have "0 \<le> (of_nat (weight p) * of_int (m_last_update_ts m - p_last_debt_update p) :: rat)"
    using assms by (cases "weight p = 0") (auto simp: checkpointed_def)
  then show "of_nat (p_recorded_debt p) \<le> debt_claim m p" "of_nat (p_ink p) \<le> coll_claim m p"
    using assms by (simp_all add: debt_claim_def coll_claim_def checkpointed_def)
qed

lemma books_ok_totals:
  assumes "books_ok m ps bm"
  shows "sum_map p_recorded_debt ps \<le> m_agg_recorded_debt m" "sum_map p_ink ps \<le> m_total_collateral m"
proof -
  note b = books_okD [OF assms]
  have "sum_map (\<lambda>p. of_nat (p_recorded_debt p)) ps \<le> sum_map (debt_claim m) ps"
    "sum_map (\<lambda>p. of_nat (p_ink p)) ps \<le> sum_map (coll_claim m) ps"
    unfolding sum_map_def by (intro sum_mono claim_nonneg; use b(7) in auto)+
  moreover have "0 \<le> (of_nat (m_last_art_redist_error m) / of_nat PRECISION :: rat)"
    "0 \<le> (of_nat (m_last_coll_redist_error m) / of_nat PRECISION :: rat)" by simp_all
  moreover have "(of_nat (sum_map p_recorded_debt ps) :: rat) = sum_map (\<lambda>p. of_nat (p_recorded_debt p)) ps"
    "(of_nat (sum_map p_ink ps) :: rat) = sum_map (\<lambda>p. of_nat (p_ink p)) ps" by (simp_all add: sum_map_def)
  ultimately have "(of_nat (sum_map p_recorded_debt ps) :: rat) \<le> of_nat (m_agg_recorded_debt m)"
    "(of_nat (sum_map p_ink ps) :: rat) \<le> of_nat (m_total_collateral m)"
    using b(8,9) by linarith+
  then show "sum_map p_recorded_debt ps \<le> m_agg_recorded_debt m" "sum_map p_ink ps \<le> m_total_collateral m"
    by (simp_all only: of_nat_le_iff)
qed

end
