(* ===== verification/Redeem.thy ===== *)
theory Redeem
  imports Cdp_Backing Market_Books Redemption_Fee Ledger_Frame
begin

text \<open>
  Redemption: \<^verbatim>\<open>instructions/redeem.rs\<close>, in two passes over the submitted candidates (bring current,
  then draw in the order of the collateral ratio), and \<^verbatim>\<open>instructions/urgent_redeem.rs\<close>, the single
  unordered pass of a market that is shut down. The candidates are keys into the store of accounts;
  an index of the source is the key at that index.
\<close>

record redeem_accounts =
  re_redeemer :: pubkey
  re_collateral_mint :: pubkey
  re_market :: pubkey
  re_fusd_mint :: pubkey
  re_market_coll_vault :: pubkey
  re_redeemer_fusd_ata :: pubkey
  re_redeemer_collateral_ata :: pubkey

text \<open>What a candidate key can hold: no account of the program (or no data), another of its accounts, or a position.\<close>

datatype account_data = ForeignAccount | OtherAccount | PositionAccount position

type_synonym store = "pubkey \<Rightarrow> account_data"

subsection \<open>Common steps\<close>

definition redeem_constraints :: "'l runtime \<Rightarrow> redeem_accounts \<Rightarrow> 'l \<Rightarrow> market \<Rightarrow> unit res" where
  "redeem_constraints T A l m =
     bindR (constraint (re_market_coll_vault A = m_collateral_vault m)) (\<lambda>_.
     bindR (constraint (tk_mint T l (re_redeemer_fusd_ata A) = re_fusd_mint A)) (\<lambda>_.
     bindR (constraint (tk_owner T l (re_redeemer_fusd_ata A) = re_redeemer A)) (\<lambda>_.
     bindR (constraint (tk_mint T l (re_redeemer_collateral_ata A) = re_collateral_mint A)) (\<lambda>_.
     constraint (tk_owner T l (re_redeemer_collateral_ata A) = re_redeemer A)))))"

definition mid_price :: "market \<Rightarrow> nat res" where
  "mid_price m =
     bindR (require (m_spot m > 0 \<and> m_debt_spot m > 0) OracleUnavailable) (\<lambda>_.
     bindR (math (checked_add 128 (m_spot m) (m_debt_spot m))) (\<lambda>s. Inr (s div 2)))"

text \<open>The amount to redeem from a position: capped by its debt and by its collateral at the mid price.\<close>

definition redeem_amount :: "nat \<Rightarrow> nat \<Rightarrow> position \<Rightarrow> nat res" where
  "redeem_amount mid remaining pos =
     bindR (math (ray_mul (p_ink pos) mid)) (\<lambda>coll_value. Inr (min (min remaining (p_recorded_debt pos)) coll_value))"

definition redeem_collateral :: "nat \<Rightarrow> nat \<Rightarrow> position \<Rightarrow> nat res" where
  "redeem_collateral mid redeem_amt pos =
     bindR (math (mul_div_floor redeem_amt RAY mid)) (\<lambda>c. Inr (min c (p_ink pos)))"

text \<open>Take debt and collateral out of a position and close the touch.\<close>

definition redeem_apply ::
    "nat \<Rightarrow> nat \<Rightarrow> nat \<Rightarrow> nat \<Rightarrow> market \<Rightarrow> position \<Rightarrow> redemption_bitmap \<Rightarrow> (market \<times> position \<times> redemption_bitmap \<times> nat) res" where
  "redeem_apply redeem_amt coll_total old_weighted old_debt m pos bm =
     bindR (math (st_redeem_step u128_num (m_agg_recorded_debt m) redeem_amt)) (\<lambda>d.
     bindR (sub_or_panic (p_recorded_debt pos) redeem_amt) (\<lambda>new_debt.
     bindR (sub_or_panic (p_ink pos) coll_total) (\<lambda>new_ink.
     let pos = set_ink (pos\<lparr> p_recorded_debt := new_debt \<rparr>) new_ink in
     bindR (math (checked_sub (m_total_collateral m) coll_total)) (\<lambda>total_collateral.
     bindR (reweight (m\<lparr> m_agg_recorded_debt := rs_new_agg d, m_total_collateral := total_collateral \<rparr>) pos old_weighted) (\<lambda>m.
     bindR (set_stake m pos) (\<lambda>(m, pos).
     bindR (reconcile bm m pos old_debt) (\<lambda>(bm, pos).
     Inr (m, pos, bm, rs_burned d))))))))"

text \<open>Burn the redeemed tokens, pay the collateral and check the vault.\<close>

definition redeem_pay ::
    "'l runtime \<Rightarrow> redeem_accounts \<Rightarrow> nat \<Rightarrow> nat \<Rightarrow> 'l \<Rightarrow> market \<Rightarrow> 'l res" where
  "redeem_pay T A redeemed_fusd coll l m =
     bindR (cpi (tk_burn T l (re_fusd_mint A) (re_redeemer_fusd_ata A) (re_redeemer A) (redeemed_fusd mod 2 ^ 64))) (\<lambda>l.
     bindR (if coll > 0
            then cpi (tk_transfer T l (re_market_coll_vault A) (re_redeemer_collateral_ata A) (re_market A) (coll mod 2 ^ 64))
            else Inr l) (\<lambda>l.
     bindR (assert_collateral_vault_sufficiency T l (re_market_coll_vault A) m) (\<lambda>_. Inr l)))"

subsection \<open>Ordered redemption\<close>

type_synonym candidate = "pubkey \<times> nat \<times> nat"

text \<open>First pass: one candidate.\<close>

definition redeem_admit ::
    "int \<Rightarrow> pubkey \<Rightarrow> nat option \<Rightarrow> market \<times> store \<times> pubkey list \<times> candidate list \<Rightarrow> pubkey \<Rightarrow>
     (market \<times> store \<times> pubkey list \<times> candidate list) res" where
  "redeem_admit now coll_mint lowest_normal st key =
     (case st of (m, accts, seen, order) \<Rightarrow>
      case accts key of
        ForeignAccount \<Rightarrow> Inr st
      | OtherAccount \<Rightarrow> Inl Constraint
      | PositionAccount pos \<Rightarrow>
          bindR (require (p_collateral_mint pos = coll_mint) Unauthorized) (\<lambda>_.
          bindR (require (key \<notin> set seen) DuplicateRedemptionTarget) (\<lambda>_.
          if \<not> (p_recorded_debt pos > 0 \<and> (p_bucket pos = ZOMBIE_BUCKET \<or> Some (p_bucket pos) = lowest_normal))
          then Inr (m, accts, seen @ [key], order)
          else bindR (weighted pos) (\<lambda>old_weighted.
               bindR (realize m pos now) (\<lambda>pos.
               bindR (reweight m pos old_weighted) (\<lambda>m.
               bindR (set_stake m pos) (\<lambda>(m, pos).
               Inr (m, accts(key := PositionAccount pos), seen @ [key], order @ [(key, p_ink pos, p_recorded_debt pos)]))))))))"

text \<open>The stable sort of the candidates, by the comparison of collateral ratios.\<close>

fun insert_by :: "('a \<Rightarrow> 'a \<Rightarrow> ordering) \<Rightarrow> 'a \<Rightarrow> 'a list \<Rightarrow> 'a list" where
  "insert_by cmp x [] = [x]"
| "insert_by cmp x (y # ys) = (if cmp x y = Greater then y # insert_by cmp x ys else x # y # ys)"

definition sort_by :: "('a \<Rightarrow> 'a \<Rightarrow> ordering) \<Rightarrow> 'a list \<Rightarrow> 'a list" where
  "sort_by cmp xs = foldr (insert_by cmp) xs []"

definition cmp_candidate :: "'u u256 \<Rightarrow> candidate \<Rightarrow> candidate \<Rightarrow> ordering" where
  "cmp_candidate U a b = cmp_collateral_ratio U (fst (snd a)) (snd (snd a)) (fst (snd b)) (snd (snd b))"

text \<open>
  Second pass: one candidate. Once nothing remains every further step leaves the state alone, which is
  the loop's early exit.
\<close>

definition redeem_draw ::
    "nat \<Rightarrow> market \<times> store \<times> redemption_bitmap \<times> nat \<times> nat \<Rightarrow> candidate \<Rightarrow>
     (market \<times> store \<times> redemption_bitmap \<times> nat \<times> nat) res" where
  "redeem_draw mid st c =
     (case st of (m, accts, bm, remaining, coll_drawn_total) \<Rightarrow>
      if remaining = 0 then Inr st
      else case accts (fst c) of
        PositionAccount pos \<Rightarrow>
          bindR (redeem_amount mid remaining pos) (\<lambda>redeem_amt.
          if redeem_amt = 0 then Inr st
          else bindR (redeem_collateral mid redeem_amt pos) (\<lambda>coll_total.
               bindR (weighted pos) (\<lambda>old_weighted.
               bindR (redeem_apply redeem_amt coll_total old_weighted (p_recorded_debt pos) m pos bm) (\<lambda>(m, pos, bm, burned).
               bindR (math (checked_add 128 coll_drawn_total coll_total)) (\<lambda>coll_drawn_total.
               bindR (sub_or_panic remaining burned) (\<lambda>remaining.
               Inr (m, accts(fst c := PositionAccount pos), bm, remaining, coll_drawn_total)))))))
      | _ \<Rightarrow> Inl Constraint)"

definition redeem_base_rate :: "int \<Rightarrow> nat \<Rightarrow> nat \<Rightarrow> nat \<Rightarrow> market \<Rightarrow> market \<times> nat" where
  "redeem_base_rate now decayed redeemed total_debt_before m =
     (if m_redemption_base_rate_max_bps m > 0
      then let new_base_rate = bump_base_rate decayed redeemed total_debt_before in
           (m\<lparr> m_redemption_base_rate := new_base_rate,
               m_redemption_base_rate_ts := (if i64_sat (now - m_redemption_base_rate_ts m) \<ge> 60 then now
                                             else m_redemption_base_rate_ts m) \<rparr>, new_base_rate)
      else (m, 0))"

definition redeem_fee :: "nat \<Rightarrow> nat \<Rightarrow> market \<Rightarrow> (market \<times> nat) res" where
  "redeem_fee new_base_rate coll_drawn_total m =
     (let fee_bps = effective_fee_bps new_base_rate (m_redemption_fee_bps m) (m_redemption_base_rate_max_bps m) MAX_REDEMPTION_FEE_BPS in
      bindR (math (checked_mul 128 coll_drawn_total fee_bps)) (\<lambda>scaled.
      bindR (sub_or_panic coll_drawn_total (scaled div 10000)) (\<lambda>redeemer_coll_total.
      bindR (math (checked_add 64 (m_surplus_collateral m) (scaled div 10000 mod 2 ^ 64))) (\<lambda>surplus_collateral.
      Inr (m\<lparr> m_surplus_collateral := surplus_collateral \<rparr>, redeemer_coll_total)))))"

definition redeem_handler ::
    "'u u256 \<Rightarrow> 'l runtime \<Rightarrow> clock \<Rightarrow> redeem_accounts \<Rightarrow> pubkey list \<Rightarrow> nat \<Rightarrow> 'l \<Rightarrow> market \<Rightarrow> redemption_bitmap \<Rightarrow> store \<Rightarrow>
     ('l \<times> market \<times> redemption_bitmap \<times> store) res" where
  "redeem_handler U T clk A cands amount l m bm accts =
     bindR (redeem_constraints T A l m) (\<lambda>_.
     bindR (require (amount > 0) ZeroAmount) (\<lambda>_.
     bindR (require (length cands \<le> MAX_REDEMPTION_CANDIDATES) TooManyRedemptionCandidates) (\<lambda>_.
     bindR (require (\<not> m_shutdown m) MarketShutdown) (\<lambda>_.
     let now = unix_timestamp clk in
     bindR (accrue m now) (\<lambda>m.
     bindR (mid_price m) (\<lambda>mid.
     let total_debt_before = m_agg_recorded_debt m;
         decayed = (if m_redemption_base_rate_max_bps m > 0
                    then decay_base_rate (m_redemption_base_rate m) (i64_sat (now - m_redemption_base_rate_ts m)) else 0) in
     bindR (require (clock_slot clk - m_spot_updated_slot m \<le> MAX_PRICE_STALENESS_SLOTS) StalePrice) (\<lambda>_.
     let lowest_normal = first_set (bm_words bm) in
     bindR (require (lowest_normal \<noteq> None \<or> bm_zombie_count bm > 0) NothingToRedeem) (\<lambda>_.
     bindR (foldR (redeem_admit now (re_collateral_mint A) lowest_normal) (m, accts, [], []) cands) (\<lambda>(m, accts, _, order).
     bindR (require (order \<noteq> []) NothingToRedeem) (\<lambda>_.
     bindR (foldR (redeem_draw mid) (m, accts, bm, amount, 0) (sort_by (cmp_candidate U) order)) (\<lambda>(m, accts, bm, remaining, coll_drawn_total).
     bindR (sub_or_panic amount remaining) (\<lambda>redeemed_fusd.
     bindR (require (redeemed_fusd > 0) NothingToRedeem) (\<lambda>_.
     let (m, new_base_rate) = redeem_base_rate now decayed redeemed_fusd total_debt_before m in
     bindR (redeem_fee new_base_rate coll_drawn_total m) (\<lambda>(m, redeemer_coll_total).
     bindR (redeem_pay T A redeemed_fusd redeemer_coll_total l m) (\<lambda>l.
     Inr (l, m, bm, accts))))))))))))))))"

subsection \<open>Wind-down redemption\<close>

definition urgent_step ::
    "int \<Rightarrow> nat \<Rightarrow> pubkey \<Rightarrow> market \<times> store \<times> redemption_bitmap \<times> pubkey list \<times> nat \<times> nat \<Rightarrow> pubkey \<Rightarrow>
     (market \<times> store \<times> redemption_bitmap \<times> pubkey list \<times> nat \<times> nat) res" where
  "urgent_step now mid coll_mint st key =
     (case st of (m, accts, bm, seen, remaining, redeemer_coll_total) \<Rightarrow>
      if remaining = 0 then Inr st
      else if accts key = ForeignAccount then Inr st
      else bindR (require (key \<notin> set seen) DuplicateRedemptionTarget) (\<lambda>_.
      case accts key of
        PositionAccount pos \<Rightarrow>
          bindR (require (p_collateral_mint pos = coll_mint) Unauthorized) (\<lambda>_.
          bindR (weighted pos) (\<lambda>old_weighted.
          let art_before = p_recorded_debt pos in
          bindR (realize m pos now) (\<lambda>pos.
          bindR (redeem_amount mid remaining pos) (\<lambda>redeem_amt.
          if redeem_amt = 0
          then bindR (reweight m pos old_weighted) (\<lambda>m.
               bindR (set_stake m pos) (\<lambda>(m, pos).
               bindR (reconcile bm m pos art_before) (\<lambda>(bm, pos).
               Inr (m, accts(key := PositionAccount pos), bm, seen @ [key], remaining, redeemer_coll_total))))
          else bindR (redeem_collateral mid redeem_amt pos) (\<lambda>coll_total.
               bindR (redeem_apply redeem_amt coll_total old_weighted art_before m pos bm) (\<lambda>(m, pos, bm, burned).
               bindR (math (checked_add 128 redeemer_coll_total coll_total)) (\<lambda>redeemer_coll_total.
               bindR (sub_or_panic remaining burned) (\<lambda>remaining.
               Inr (m, accts(key := PositionAccount pos), bm, seen @ [key], remaining, redeemer_coll_total)))))))))
      | _ \<Rightarrow> Inl Constraint))"

definition urgent_redeem_handler ::
    "'l runtime \<Rightarrow> clock \<Rightarrow> redeem_accounts \<Rightarrow> pubkey list \<Rightarrow> nat \<Rightarrow> 'l \<Rightarrow> market \<Rightarrow> redemption_bitmap \<Rightarrow> store \<Rightarrow>
     ('l \<times> market \<times> redemption_bitmap \<times> store) res" where
  "urgent_redeem_handler T clk A cands amount l m bm accts =
     bindR (redeem_constraints T A l m) (\<lambda>_.
     bindR (require (amount > 0) ZeroAmount) (\<lambda>_.
     bindR (require (m_shutdown m) MarketNotShutdown) (\<lambda>_.
     bindR (require (length cands \<le> MAX_REDEMPTION_CANDIDATES) TooManyRedemptionCandidates) (\<lambda>_.
     let now = unix_timestamp clk in
     bindR (accrue m now) (\<lambda>m.
     bindR (mid_price m) (\<lambda>mid.
     bindR (foldR (urgent_step now mid (re_collateral_mint A)) (m, accts, bm, [], amount, 0) cands)
           (\<lambda>(m, accts, bm, _, remaining, redeemer_coll_total).
     bindR (sub_or_panic amount remaining) (\<lambda>redeemed_fusd.
     bindR (require (redeemed_fusd > 0) NothingToRedeem) (\<lambda>_.
     bindR (redeem_pay T A redeemed_fusd redeemer_coll_total l m) (\<lambda>l.
     Inr (l, m, bm, accts)))))))))))"

subsection \<open>Touching one position\<close>

lemma accrue_current:
  "m_last_update_ts m = (if m_shutdown m then m_last_update_ts m else now) \<Longrightarrow> accrue m now = Inr m"
  by (cases "m_shutdown m") (simp_all add: accrue_def i64_sat_def)

text \<open>The market after a touch: only its debt, its collateral and its sums over positions differ.\<close>

definition market_moved :: "market \<Rightarrow> nat \<Rightarrow> nat \<Rightarrow> market \<Rightarrow> bool" where
  "market_moved m n c m' \<longleftrightarrow> n \<le> m_agg_recorded_debt m \<and> c \<le> m_total_collateral m \<and>
     (\<exists>w s. m' = m\<lparr> m_agg_recorded_debt := m_agg_recorded_debt m - n, m_total_collateral := m_total_collateral m - c,
       m_agg_weighted_debt_sum := w, m_total_stakes := s \<rparr>)"

lemma market_moved_refl: "market_moved m 0 0 m"
  unfolding market_moved_def by (intro conjI exI [of _ "m_agg_weighted_debt_sum m"] exI [of _ "m_total_stakes m"]) simp_all

lemma market_moved_trans:
  assumes "market_moved m n c m1" "market_moved m1 k d m2"
  shows "market_moved m (n + k) (c + d) m2"
proof -
  obtain w s where m1: "m1 = m\<lparr> m_agg_recorded_debt := m_agg_recorded_debt m - n, m_total_collateral := m_total_collateral m - c,
       m_agg_weighted_debt_sum := w, m_total_stakes := s \<rparr>" "n \<le> m_agg_recorded_debt m" "c \<le> m_total_collateral m"
    using assms(1) unfolding market_moved_def by blast
  obtain w' s' where m2: "m2 = m1\<lparr> m_agg_recorded_debt := m_agg_recorded_debt m1 - k, m_total_collateral := m_total_collateral m1 - d,
       m_agg_weighted_debt_sum := w', m_total_stakes := s' \<rparr>" "k \<le> m_agg_recorded_debt m1" "d \<le> m_total_collateral m1"
    using assms(2) unfolding market_moved_def by blast
  show ?thesis
    unfolding market_moved_def
    by (intro conjI exI [of _ w'] exI [of _ s']) (use m1(2,3) m2(2,3) in \<open>simp_all add: m2(1) m1(1)\<close>)
qed

lemma market_movedD:
  assumes "market_moved m n c m'"
  shows "m_agg_recorded_debt m' + n = m_agg_recorded_debt m" "m_total_collateral m' + c = m_total_collateral m"
    "m_unminted_interest m' = m_unminted_interest m" "m_bad_debt m' = m_bad_debt m" "m_shutdown m' = m_shutdown m"
    "m_last_update_ts m' = m_last_update_ts m" "m_l_coll m' = m_l_coll m" "m_l_art m' = m_l_art m"
    "m_last_coll_redist_error m' = m_last_coll_redist_error m" "m_last_art_redist_error m' = m_last_art_redist_error m"
    "m_collateral_vault m' = m_collateral_vault m" "m_total_coll_surplus m' = m_total_coll_surplus m"
    "m_surplus_collateral m' = m_surplus_collateral m" "m_protocol_collateral m' = m_protocol_collateral m"
    "settled m' p \<longleftrightarrow> settled m p" "timely m' now \<longleftrightarrow> timely m now" "m_total_stakes_snapshot m' = m_total_stakes_snapshot m"
    "m_total_collateral_snapshot m' = m_total_collateral_snapshot m"
  using assms by (auto simp: market_moved_def settled_def timely_def)

text \<open>Bringing a member current.\<close>

lemma admit_touch:
  assumes "weighted p = Inr w" "realize m p now = Inr p1" "reweight m p1 w = Inr m1" "set_stake m1 p1 = Inr (m', p')"
    and "m_last_update_ts m = (if m_shutdown m then m_last_update_ts m else now)" "timely m now"
    and "books_ok m ps bm" "ps k = Some p" "0 < p_recorded_debt p"
  shows "books_ok m' (ps(k \<mapsto> p')) bm" "market_moved m 0 0 m'" "settled m' p'" "p_bucket p' = p_bucket p"
    "p_collateral_mint p' = p_collateral_mint p" "p_recorded_debt p \<le> p_recorded_debt p'" "p_ink p \<le> p_ink p'"
proof -
  note a = accrue_current [OF assms(5)] and b = books_okD [OF assms(7)]
  have rw: "reweight m p1 (weight p) = Inr m1" using assms(3) weighted_weight [OF assms(1)] by simp
  obtain pr: "p_owner p1 = p_owner p" "p_collateral_mint p1 = p_collateral_mint p" "p_stake p1 = p_stake p" "p_bucket p1 = p_bucket p"
    "p_coll_surplus p1 = p_coll_surplus p" "p_ink p \<le> p_ink p1" "p_recorded_debt p \<le> p_recorded_debt p1"
    by (rule position_opened [OF a assms(2)]) (rule that)
  obtain v s t where m': "m' = m\<lparr> m_agg_weighted_debt_sum := v, m_total_stakes := t \<rparr>" and p': "p' = p1\<lparr> p_stake := s \<rparr>"
    and sums: "v + weight p = m_agg_weighted_debt_sum m + weight p1" "t + p_stake p1 = m_total_stakes m + s"
    and stk: "compute_stake (p_ink p1) (m_total_stakes_snapshot m) (m_total_collateral_snapshot m) = Inr s"
    by (rule position_closed [OF rw assms(4)])
  have kc: "keeps_cover now m p m' p'"
    by (rule touched_step [OF a assms(2,6) b(7) [OF assms(8)]]) (use stk compute_stake_0 in \<open>auto simp: m' p'\<close>)
  have bs: "books_step m p bm m' p' bm"
    unfolding books_step_def using b(5) sums pr assms(9) by (auto simp: m' p' member_of_def weight_def)
  show "books_ok m' (ps(k \<mapsto> p')) bm"
    by (rule books_ok_touch [OF assms(7,8) bs kc]) (simp add: m' p' pr)
  show "market_moved m 0 0 m'"
    unfolding market_moved_def by (intro conjI exI [of _ v] exI [of _ t]) (simp_all add: m')
  have "settled m p1" by (rule realize_bounds(1) [OF assms(2,5) b(7) [OF assms(8)] assms(6)])
  then show "settled m' p'" by (simp add: settled_def m' p')
  show "p_bucket p' = p_bucket p" "p_collateral_mint p' = p_collateral_mint p" "p_recorded_debt p \<le> p_recorded_debt p'" "p_ink p \<le> p_ink p'"
    using pr by (simp_all add: p')
qed

text \<open>Taking debt and collateral out of a member.\<close>

lemma redeem_apply_Inr:
  assumes "redeem_apply n c (weight p0) (p_recorded_debt p0) m p bm = Inr (m', p', bm', bu)"
    and "bitmap_ok bm" "p_bucket p = p_bucket p0" "p_stake p = p_stake p0" "p_owner p = p_owner p0"
    "p_collateral_mint p = p_collateral_mint p0" "p_coll_surplus p = p_coll_surplus p0"
  obtains s where "bu = n" "n \<le> p_recorded_debt p" "c \<le> p_ink p" "market_moved m n c m'" "books_step m p0 bm m' p' bm'"
    "p' = (set_ink (p\<lparr> p_recorded_debt := p_recorded_debt p - n \<rparr>) (p_ink p - c))\<lparr> p_stake := s, p_bucket := p_bucket p' \<rparr>"
    "p_ink p - c = 0 \<longrightarrow> s = 0"
proof -
  let ?q = "set_ink (p\<lparr> p_recorded_debt := p_recorded_debt p - n \<rparr>) (p_ink p - c)"
  obtain d m1 q3 where d: "st_redeem_step u128_num (m_agg_recorded_debt m) n = Some d"
    and le: "n \<le> p_recorded_debt p" "c \<le> p_ink p" "c \<le> m_total_collateral m"
    and rw: "reweight (m\<lparr> m_agg_recorded_debt := rs_new_agg d, m_total_collateral := m_total_collateral m - c \<rparr>) ?q (weight p0) = Inr m1"
    and ss: "set_stake m1 ?q = Inr (m', q3)" and rc: "reconcile bm m' q3 (p_recorded_debt p0) = Inr (bm', p')"
    and bu: "bu = rs_burned d"
    using assms(1) unfolding redeem_apply_def Let_def handler_Inr sub_or_panic_Inr by clarify (rule that; assumption)
  have ag: "rs_burned d = n" "rs_new_agg d + n = m_agg_recorded_debt m"
    using u128_supply.redeem_identity(2,3) [OF d] by (simp_all, linarith?)
  show thesis
  proof (cases rule: position_closed [OF rw ss])
    case cl: (1 w s t)
    have bs: "books_step m p0 bm m' p' bm'" "p' = q3\<lparr> p_bucket := p_bucket p' \<rparr>"
      by (rule books_stepI [OF assms(2) rc]; use cl assms(3-6) in \<open>simp add: weight_def\<close>)+
    have mm: "market_moved m n c m'"
      unfolding market_moved_def by (intro conjI exI [of _ w] exI [of _ t]) (use ag le in \<open>auto simp: cl(1)\<close>)
    show thesis
      by (rule that [OF _ le(1,2) mm bs(1), of s]) (use cl(5) compute_stake_0 ag bu bs(2) in \<open>auto simp: cl(2)\<close>)
  qed
qed

subsection \<open>The two passes\<close>

text \<open>The market's positions in the store of accounts.\<close>

definition positions_of :: "pubkey \<Rightarrow> store \<Rightarrow> pubkey \<rightharpoonup> position" where
  "positions_of mint accts k =
     (case accts k of PositionAccount p \<Rightarrow> if p_collateral_mint p = mint then Some p else None | _ \<Rightarrow> None)"

lemma positions_of_Some: "positions_of mint accts k = Some p \<longleftrightarrow> accts k = PositionAccount p \<and> p_collateral_mint p = mint"
  by (auto simp: positions_of_def split: account_data.splits if_splits)

lemma positions_of_update:
  "p_collateral_mint p = mint \<Longrightarrow> positions_of mint (accts(k := PositionAccount p)) = (positions_of mint accts)(k \<mapsto> p)"
  by (simp add: positions_of_def fun_eq_iff)

text \<open>A candidate of the second pass: realized, and in the lowest bucket or in the pen.\<close>

definition candidate_ok :: "pubkey \<Rightarrow> market \<Rightarrow> store \<Rightarrow> candidate \<Rightarrow> bool" where
  "candidate_ok mint m accts c \<longleftrightarrow> (\<exists>p. positions_of mint accts (fst c) = Some p \<and> settled m p)"

definition admitted ::
    "pubkey \<Rightarrow> nat option \<Rightarrow> redemption_bitmap \<Rightarrow> market \<Rightarrow> store \<Rightarrow> market \<times> store \<times> pubkey list \<times> candidate list \<Rightarrow> bool" where
  "admitted mint lowest bm m0 accts0 = (\<lambda>(m, accts, seen, order).
     books_ok m (positions_of mint accts) bm \<and> market_moved m0 0 0 m \<and> distinct (map fst order) \<and> fst ` set order \<subseteq> set seen \<and>
     (\<forall>c \<in> set order. \<exists>p0 p. positions_of mint accts0 (fst c) = Some p0 \<and> 0 < p_recorded_debt p0 \<and>
        (p_bucket p0 = ZOMBIE_BUCKET \<or> Some (p_bucket p0) = lowest) \<and>
        positions_of mint accts (fst c) = Some p \<and> settled m p \<and> snd c = (p_ink p, p_recorded_debt p)) \<and>
     (\<forall>k. k \<notin> fst ` set order \<longrightarrow> accts k = accts0 k))"

lemma redeem_admit_Inr:
  assumes "redeem_admit now mint lowest (m, accts, seen, order) key = Inr st'"
  obtains (foreign) "st' = (m, accts, seen, order)"
    | (skipped) "st' = (m, accts, seen @ [key], order)"
    | (taken) p w p1 m1 m' p' where "positions_of mint accts key = Some p" "key \<notin> set seen" "0 < p_recorded_debt p"
      "p_bucket p = ZOMBIE_BUCKET \<or> Some (p_bucket p) = lowest" "weighted p = Inr w" "realize m p now = Inr p1"
      "reweight m p1 w = Inr m1" "set_stake m1 p1 = Inr (m', p')"
      "st' = (m', accts(key := PositionAccount p'), seen @ [key], order @ [(key, p_ink p', p_recorded_debt p')])"
proof (cases "accts key")
  case (PositionAccount p)
  show thesis
  proof (cases "0 < p_recorded_debt p \<and> (p_bucket p = ZOMBIE_BUCKET \<or> Some (p_bucket p) = lowest)")
    case True
    obtain w p1 m1 m' p' where h: "p_collateral_mint p = mint" "key \<notin> set seen" "weighted p = Inr w" "realize m p now = Inr p1"
      "reweight m p1 w = Inr m1" "set_stake m1 p1 = Inr (m', p')"
      "st' = (m', accts(key := PositionAccount p'), seen @ [key], order @ [(key, p_ink p', p_recorded_debt p')])"
      using assms PositionAccount True unfolding redeem_admit_def by (auto simp: handler_Inr)
    show thesis by (rule taken [OF _ h(2) _ _ h(3-7)]) (use True h(1) PositionAccount in \<open>simp_all add: positions_of_Some\<close>)
  next
    case False
    then show thesis
      using assms PositionAccount skipped unfolding redeem_admit_def by (auto simp: handler_Inr)
  qed
qed (use assms foreign in \<open>auto simp: redeem_admit_def\<close>)

lemma redeem_admit_step:
  assumes "redeem_admit now mint lowest (m, accts, seen, order) key = Inr st'"
    and "admitted mint lowest bm m0 accts0 (m, accts, seen, order)"
    and "m_last_update_ts m0 = (if m_shutdown m0 then m_last_update_ts m0 else now)" "timely m0 now"
  shows "admitted mint lowest bm m0 accts0 st'"
  using assms(1)
proof (cases rule: redeem_admit_Inr)
  case t: (taken p w p1 m1 m' p')
  have inv: "books_ok m (positions_of mint accts) bm" "market_moved m0 0 0 m" "distinct (map fst order)" "fst ` set order \<subseteq> set seen"
    "\<And>k. k \<notin> fst ` set order \<Longrightarrow> accts k = accts0 k"
    using assms(2) by (auto simp: admitted_def)
  have cur: "m_last_update_ts m = (if m_shutdown m then m_last_update_ts m else now)" "timely m now"
    using assms(3,4) market_movedD(5,6,16) [OF inv(2)] by auto
  have p: "accts key = PositionAccount p" "p_collateral_mint p = mint" using t(1) by (auto simp: positions_of_Some)
  note a = admit_touch [OF t(5-8) cur inv(1) t(1,3)]
  have new: "positions_of mint (accts(key := PositionAccount p')) = (positions_of mint accts)(key \<mapsto> p')"
    by (rule positions_of_update) (simp add: a(5) p(2))
  have out: "key \<notin> fst ` set order" using inv(4) t(2) by auto
  have "market_moved m0 0 0 m'" using market_moved_trans [OF inv(2) a(2)] by simp
  moreover have "\<exists>p0 p. positions_of mint accts0 (fst c) = Some p0 \<and> 0 < p_recorded_debt p0 \<and>
        (p_bucket p0 = ZOMBIE_BUCKET \<or> Some (p_bucket p0) = lowest) \<and>
        positions_of mint (accts(key := PositionAccount p')) (fst c) = Some p \<and> settled m' p \<and> snd c = (p_ink p, p_recorded_debt p)"
    if "c \<in> set (order @ [(key, p_ink p', p_recorded_debt p')])" for c
  proof (cases "c \<in> set order")
    case True
    then have "fst c \<noteq> key" using out by auto
    then show ?thesis using assms(2) True market_movedD(15) [OF a(2)] unfolding admitted_def new by auto
  next
    case False
    then have "c = (key, p_ink p', p_recorded_debt p')" using that by simp
    moreover have "positions_of mint accts0 key = Some p" using t(1) inv(5) [OF out] by (simp add: positions_of_def)
    ultimately show ?thesis using t(3,4) a(3) by (simp add: new)
  qed
  ultimately show ?thesis
    unfolding t(9) admitted_def using a(1) inv(3-5) out by (auto simp: new)
qed (use assms(2) in \<open>auto simp: admitted_def\<close>)

lemma redeem_admit_all:
  assumes "foldR (redeem_admit now mint lowest) (m, accts, [], []) cands = Inr st'" "books_ok m (positions_of mint accts) bm"
    and "m_last_update_ts m = (if m_shutdown m then m_last_update_ts m else now)" "timely m now"
  shows "admitted mint lowest bm m accts st'"
  using assms(1)
proof (rule foldR_invariant)
  show "admitted mint lowest bm m accts (m, accts, [], [])" using assms(2) by (simp add: admitted_def market_moved_refl)
  fix st x st'
  assume "admitted mint lowest bm m accts st" "redeem_admit now mint lowest st x = Inr st'"
  then show "admitted mint lowest bm m accts st'" by (cases st) (auto intro: redeem_admit_step [OF _ _ assms(3,4)])
qed

definition drawn_from ::
    "pubkey \<Rightarrow> nat \<Rightarrow> nat \<Rightarrow> pubkey set \<Rightarrow> market \<Rightarrow> store \<Rightarrow> market \<times> store \<times> redemption_bitmap \<times> nat \<times> nat \<Rightarrow> bool" where
  "drawn_from mint mid amount K m0 accts0 = (\<lambda>(m, accts, bm, remaining, drawn).
     books_ok m (positions_of mint accts) bm \<and> remaining \<le> amount \<and> market_moved m0 (amount - remaining) drawn m \<and>
     drawn * mid \<le> (amount - remaining) * RAY \<and>
     (\<forall>k \<in> K. \<exists>p. positions_of mint accts k = Some p \<and> settled m p) \<and>
     (\<forall>k. k \<notin> K \<longrightarrow> accts k = accts0 k))"

lemma redeem_amount_Inr:
  assumes "redeem_amount mid r p = Inr n"
  shows "n \<le> r" "n \<le> p_recorded_debt p" "n * RAY \<le> p_ink p * mid"
proof -
  obtain v where v: "ray_mul (p_ink p) mid = Some v" "n = min (min r (p_recorded_debt p)) v"
    using assms unfolding redeem_amount_def handler_Inr by auto
  then show "n \<le> r" "n \<le> p_recorded_debt p" by simp_all
  have "v * RAY \<le> p_ink p * mid" using v(1) by (auto simp: ray_mul_def dest: mul_div_floor_le)
  moreover have "n * RAY \<le> v * RAY" using v(2) by simp
  ultimately show "n * RAY \<le> p_ink p * mid" by linarith
qed

lemma redeem_collateral_Inr:
  assumes "redeem_collateral mid n p = Inr c"
  shows "c \<le> p_ink p" "c * mid \<le> n * RAY"
proof -
  obtain v where v: "mul_div_floor n RAY mid = Some v" "c = min v (p_ink p)"
    using assms unfolding redeem_collateral_def handler_Inr by auto
  then show "c \<le> p_ink p" by simp
  have "c * mid \<le> v * mid" using v(2) by simp
  then show "c * mid \<le> n * RAY" using mul_div_floor_le [OF v(1)] by linarith
qed

lemma redeem_draw_Inr:
  assumes "redeem_draw mid (m, accts, bm, remaining, drawn) c = Inr st'"
  obtains (idle) "st' = (m, accts, bm, remaining, drawn)"
    | (taken) p n col m' p' bm' bu where "accts (fst c) = PositionAccount p" "redeem_amount mid remaining p = Inr n" "0 < n"
      "redeem_collateral mid n p = Inr col"
      "redeem_apply n col (weight p) (p_recorded_debt p) m p bm = Inr (m', p', bm', bu)" "bu \<le> remaining"
      "st' = (m', accts(fst c := PositionAccount p'), bm', remaining - bu, drawn + col)"
proof (cases "remaining = 0")
  case True
  then show thesis using assms idle by (simp add: redeem_draw_def)
next
  case False
  show thesis
  proof (cases "accts (fst c)")
    case (PositionAccount p)
    obtain n where n: "redeem_amount mid remaining p = Inr n"
      using assms False PositionAccount by (auto simp: redeem_draw_def bindR_Inr)
    show thesis
    proof (cases "n = 0")
      case True
      then show thesis using assms False PositionAccount n idle by (simp add: redeem_draw_def)
    next
      case n0: False
      obtain col w m' p' bm' bu where h: "redeem_collateral mid n p = Inr col" "weighted p = Inr w"
        "redeem_apply n col w (p_recorded_debt p) m p bm = Inr (m', p', bm', bu)" "bu \<le> remaining"
        "st' = (m', accts(fst c := PositionAccount p'), bm', remaining - bu, drawn + col)"
        using assms False PositionAccount n n0 unfolding redeem_draw_def by (auto simp: handler_Inr sub_or_panic_Inr)
      then show thesis using taken [OF PositionAccount n _ h(1) _ h(4,5)] n0 weighted_weight [OF h(2)] by simp
    qed
  qed (use assms False in \<open>simp_all add: redeem_draw_def\<close>)
qed

lemma redeem_draw_step:
  assumes "redeem_draw mid (m, accts, bm, remaining, drawn) c = Inr st'"
    and "drawn_from mint mid amount K m0 accts0 (m, accts, bm, remaining, drawn)" "fst c \<in> K" "timely m0 now"
  shows "drawn_from mint mid amount K m0 accts0 st'"
  using assms(1)
proof (cases rule: redeem_draw_Inr)
  case t: (taken p n col m' p' bm' bu)
  have inv: "books_ok m (positions_of mint accts) bm" "remaining \<le> amount" "market_moved m0 (amount - remaining) drawn m"
    "drawn * mid \<le> (amount - remaining) * RAY" "\<And>k. k \<in> K \<Longrightarrow> \<exists>p. positions_of mint accts k = Some p \<and> settled m p"
    "\<And>k. k \<notin> K \<Longrightarrow> accts k = accts0 k"
    using assms(2) by (auto simp: drawn_from_def)
  have p: "positions_of mint accts (fst c) = Some p" "settled m p" "p_collateral_mint p = mint"
    using inv(5) [OF assms(3)] t(1) by (auto simp: positions_of_Some)
  obtain s where a: "bu = n" "n \<le> p_recorded_debt p" "col \<le> p_ink p" "market_moved m n col m'" "books_step m p bm m' p' bm'"
    "p' = (set_ink (p\<lparr> p_recorded_debt := p_recorded_debt p - n \<rparr>) (p_ink p - col))\<lparr> p_stake := s, p_bucket := p_bucket p' \<rparr>"
    "p_ink p - col = 0 \<longrightarrow> s = 0"
    by (rule redeem_apply_Inr [OF t(5) books_okD(5) [OF inv(1)] refl refl refl refl refl])
  note mm = market_movedD [OF a(4)]
  have p': "p_recorded_debt p' = p_recorded_debt p - n" "p_ink p' = p_ink p - col" "p_stake p' = s"
    "p_last_debt_update p' = p_last_debt_update p" "p_redist_l_coll_snapshot p' = p_redist_l_coll_snapshot p"
    "p_redist_l_art_snapshot p' = p_redist_l_art_snapshot p" "p_collateral_mint p' = p_collateral_mint p" "p_coll_surplus p' = p_coll_surplus p"
    by (subst a(6), simp)+
  have st: "settled m' p'" using p(2) p' mm(6-8) by (simp add: settled_def)
  have tm: "timely m now" using assms(4) market_movedD(16) [OF inv(3)] by simp
  have kc: "keeps_cover now m p m' p'"
    unfolding keeps_cover_def
  proof (intro conjI allI impI)
    show "covered_step w s m p m' p'" for w s
      by (rule settled_step [OF p(2) st]) (use mm a(2,3) p' in simp_all)
    show "timely m' now" using tm mm(16) by simp
    show "checkpointed m' p'" by (rule settled_checkpointed [OF st]) (use tm mm(6) p' a(7) in \<open>auto simp: timely_def\<close>)
  qed
  have ps: "positions_of mint (accts(fst c := PositionAccount p')) = (positions_of mint accts)(fst c \<mapsto> p')"
    by (rule positions_of_update) (simp add: p' p(3))
  have "books_ok m' (positions_of mint (accts(fst c := PositionAccount p'))) bm'"
    unfolding ps by (rule books_ok_touch [OF inv(1) p(1) a(5) kc]) (simp add: mm p')
  moreover have "market_moved m0 (amount - (remaining - n)) (drawn + col) m'"
    using market_moved_trans [OF inv(3) a(4)] inv(2) redeem_amount_Inr(1) [OF t(2)] by simp
  moreover have "(drawn + col) * mid \<le> (amount - (remaining - n)) * RAY"
  proof -
    have "(drawn + col) * mid \<le> (amount - remaining) * RAY + n * RAY"
      using inv(4) redeem_collateral_Inr(2) [OF t(4)] by (simp add: add_mult_distrib)
    then show ?thesis using inv(2) redeem_amount_Inr(1) [OF t(2)] by (simp flip: add_mult_distrib)
  qed
  ultimately show ?thesis
    unfolding t(7) a(1) drawn_from_def using inv(2,5,6) st assms(3) mm(15) by (auto simp: ps)
qed (use assms(2) in \<open>simp add: drawn_from_def\<close>)

lemma redeem_draw_all:
  assumes "foldR (redeem_draw mid) (m, accts, bm, amount, 0) cs = Inr st'" "books_ok m (positions_of mint accts) bm" "timely m now"
    and "fst ` set cs \<subseteq> K" "\<And>k. k \<in> K \<Longrightarrow> \<exists>p. positions_of mint accts k = Some p \<and> settled m p"
  shows "drawn_from mint mid amount K m accts st'"
  using assms(1)
proof (rule foldR_invariant)
  show "drawn_from mint mid amount K m accts (m, accts, bm, amount, 0)"
    using assms(2,5) by (simp add: drawn_from_def market_moved_refl)
  fix st x st'
  assume "drawn_from mint mid amount K m accts st" "x \<in> set cs" "redeem_draw mid st x = Inr st'"
  then show "drawn_from mint mid amount K m accts st'"
    using assms(4) by (cases st) (auto intro: redeem_draw_step [OF _ _ _ assms(3)])
qed

lemma set_insert_by: "set (insert_by cmp x xs) = insert x (set xs)"
  by (induction xs) auto

lemma set_sort_by: "set (sort_by cmp xs) = set xs"
  by (induction xs) (simp_all add: sort_by_def set_insert_by)

subsection \<open>The handlers\<close>

lemma redeem_pay_effect:
  assumes "redeem_pay T A n c l m = Inr l'" "token_laws T" "n < 2 ^ 64" "c < 2 ^ 64"
  shows "burned T (re_fusd_mint A) n l l'" "debits T {re_redeemer_fusd_ata A, re_market_coll_vault A} l l'"
    "tracked_collateral m \<le> tk_amount T l' (re_market_coll_vault A)"
proof -
  obtain l1 where b: "tk_burn T l (re_fusd_mint A) (re_redeemer_fusd_ata A) (re_redeemer A) n = Some l1"
    and t: "(if c > 0 then cpi (tk_transfer T l1 (re_market_coll_vault A) (re_redeemer_collateral_ata A) (re_market A) c) else Inr l1) = Inr l'"
    and s: "assert_collateral_vault_sufficiency T l' (re_market_coll_vault A) m = Inr ()"
    using assms(1) unfolding redeem_pay_def handler_Inr mod_less [OF assms(3)] mod_less [OF assms(4)]
    by clarify (rule that; (assumption | simp))
  consider "l' = l1" | "tk_transfer T l1 (re_market_coll_vault A) (re_redeemer_collateral_ata A) (re_market A) c = Some l'"
    using t by (cases "0 < c") (simp_all add: ok_or_Inr)
  then have "burned T (re_fusd_mint A) 0 l1 l' \<and> debits T {re_redeemer_fusd_ata A, re_market_coll_vault A} l1 l'"
  proof cases
    case 1
    then show ?thesis by (simp add: burned_0 debits_refl)
  next
    case 2
    show ?thesis by (intro conjI burned_0 transferD(5) [OF assms(2) 2] debits_transfer [OF 2 assms(2)]) simp
  qed
  then have z: "burned T (re_fusd_mint A) 0 l1 l'" "debits T {re_redeemer_fusd_ata A, re_market_coll_vault A} l1 l'" by blast+
  have "debits T {re_redeemer_fusd_ata A, re_market_coll_vault A} l l1" by (rule debits_burn [OF b assms(2)]) simp
  then show "debits T {re_redeemer_fusd_ata A, re_market_coll_vault A} l l'" using z(2) by (rule debits_trans)
  show "burned T (re_fusd_mint A) n l l'" using burned_trans [OF burned_burn [OF b assms(2)] z(1)] by simp
  show "tracked_collateral m \<le> tk_amount T l' (re_market_coll_vault A)" using s by (simp add: assert_sufficiency_Inr)
qed

lemma redeem_base_rate_eq:
  assumes "redeem_base_rate now d r t m = (m', rate)"
  shows "m' = m\<lparr> m_redemption_base_rate := m_redemption_base_rate m', m_redemption_base_rate_ts := m_redemption_base_rate_ts m' \<rparr>"
  using assms by (cases "0 < m_redemption_base_rate_max_bps m") (auto simp: redeem_base_rate_def Let_def)

lemma redeem_fee_Inr:
  assumes "redeem_fee rate c m = Inr (m', paid)" "c < 2 ^ 64"
  shows "m' = m\<lparr> m_surplus_collateral := m_surplus_collateral m + (c - paid) \<rparr>" "paid \<le> c"
    "(c - paid) * 10000 \<le> c * MAX_REDEMPTION_FEE_BPS"
proof -
  define f where "f = effective_fee_bps rate (m_redemption_fee_bps m) (m_redemption_base_rate_max_bps m) MAX_REDEMPTION_FEE_BPS"
  have f: "f \<le> MAX_REDEMPTION_FEE_BPS" unfolding f_def by (subst effective_fee_eq) (simp_all add: MAX_REDEMPTION_FEE_BPS_def)
  have h: "c * f div 10000 \<le> c" "paid = c - c * f div 10000"
    "m' = m\<lparr> m_surplus_collateral := m_surplus_collateral m + c * f div 10000 mod 2 ^ 64 \<rparr>"
    using assms(1) unfolding redeem_fee_def Let_def handler_Inr sub_or_panic_Inr checked_mul_Some f_def [symmetric] by auto
  have "c * f div 10000 mod 2 ^ 64 = c * f div 10000" using h(1) assms(2) by (intro mod_less) linarith
  then show "m' = m\<lparr> m_surplus_collateral := m_surplus_collateral m + (c - paid) \<rparr>" "paid \<le> c" using h by simp_all
  have "(c - paid) * 10000 \<le> c * f" using h(1,2) div_times_less_eq_dividend [of "c * f" 10000] by simp
  also have "\<dots> \<le> c * MAX_REDEMPTION_FEE_BPS" using f by simp
  finally show "(c - paid) * 10000 \<le> c * MAX_REDEMPTION_FEE_BPS" .
qed

lemma redeem_Inr:
  assumes "redeem_handler U T clk A cands amount l m bm accts = Inr (l', m', bm', accts')"
  obtains m1 mid m2 accts2 seen order m3 remaining drawn m4 rate paid where
    "redeem_constraints T A l m = Inr ()" "0 < amount" "length cands \<le> MAX_REDEMPTION_CANDIDATES" "\<not> m_shutdown m"
    "accrue m (unix_timestamp clk) = Inr m1" "mid_price m1 = Inr mid"
    "clock_slot clk - m_spot_updated_slot m1 \<le> MAX_PRICE_STALENESS_SLOTS"
    "foldR (redeem_admit (unix_timestamp clk) (re_collateral_mint A) (first_set (bm_words bm))) (m1, accts, [], []) cands =
       Inr (m2, accts2, seen, order)"
    "foldR (redeem_draw mid) (m2, accts2, bm, amount, 0) (sort_by (cmp_candidate U) order) = Inr (m3, accts', bm', remaining, drawn)"
    "remaining < amount"
    "redeem_base_rate (unix_timestamp clk)
       (if m_redemption_base_rate_max_bps m1 > 0
        then decay_base_rate (m_redemption_base_rate m1) (i64_sat (unix_timestamp clk - m_redemption_base_rate_ts m1)) else 0)
       (amount - remaining) (m_agg_recorded_debt m1) m3 = (m4, rate)"
    "redeem_fee rate drawn m4 = Inr (m', paid)" "redeem_pay T A (amount - remaining) paid l m' = Inr l'"
  using assms unfolding redeem_handler_def Let_def handler_Inr sub_or_panic_Inr
  by clarify (rule that; (assumption | simp))


lemma redeem_effect:
  assumes "redeem_handler U T clk A cands amount l m bm accts = Inr (l', m', bm', accts')" "token_laws T" "amount < 2 ^ 64"
    and "books_ok m (positions_of (re_collateral_mint A) accts) bm" "timely m (unix_timestamp clk)" "m_total_collateral m < 2 ^ 64"
  obtains n paid drawn K where
    "books_ok m' (positions_of (re_collateral_mint A) accts') bm'" "timely m' (unix_timestamp clk)"
    "0 < n" "n \<le> amount" "burned T (re_fusd_mint A) n l l'" "booked_supply m' = booked_supply m - int n"
    "tracked_collateral m' + paid = tracked_collateral m" "tracked_collateral m' \<le> tk_amount T l' (m_collateral_vault m')"
    "m_collateral_vault m' = m_collateral_vault m"
    "paid \<le> drawn" "(drawn - paid) * 10000 \<le> drawn * MAX_REDEMPTION_FEE_BPS"
    "drawn * ((m_spot m + m_debt_spot m) div 2) \<le> n * RAY"
    "debits T {re_redeemer_fusd_ata A, m_collateral_vault m} l l'" "m_shutdown m' = m_shutdown m" "\<not> m_shutdown m"
    "m_bad_debt m' = m_bad_debt m"
    "\<And>k. k \<notin> K \<Longrightarrow> accts' k = accts k"
    "\<And>k. k \<in> K \<Longrightarrow> \<exists>p. positions_of (re_collateral_mint A) accts k = Some p \<and> 0 < p_recorded_debt p \<and>
       (p_bucket p = ZOMBIE_BUCKET \<or> Some (p_bucket p) = first_set (bm_words bm))"
    "0 < m_spot m" "0 < m_debt_spot m" "clock_slot clk - m_spot_updated_slot m \<le> MAX_PRICE_STALENESS_SLOTS"
    "tk_owner T l (re_redeemer_fusd_ata A) = re_redeemer A"
  using assms(1)
proof (cases rule: redeem_Inr)
  case h: (1 m1 mid m2 accts2 seen order m3 remaining drawn m4 rate paid)
  let ?mint = "re_collateral_mint A" and ?now = "unix_timestamp clk"
  note b1 = books_ok_accrue [OF assms(4) h(5) assms(5)]
  have ad: "admitted ?mint (first_set (bm_words bm)) bm m1 accts (m2, accts2, seen, order)"
    by (rule redeem_admit_all [OF h(8) b1(1) b1(3) b1(2)])
  have a2: "books_ok m2 (positions_of ?mint accts2) bm" "market_moved m1 0 0 m2"
    "\<And>k. k \<in> fst ` set order \<Longrightarrow> \<exists>p. positions_of ?mint accts2 k = Some p \<and> settled m2 p"
    "\<And>k. k \<in> fst ` set order \<Longrightarrow> \<exists>p. positions_of ?mint accts k = Some p \<and> 0 < p_recorded_debt p \<and>
       (p_bucket p = ZOMBIE_BUCKET \<or> Some (p_bucket p) = first_set (bm_words bm))"
    "\<And>k. k \<notin> fst ` set order \<Longrightarrow> accts2 k = accts k"
    using ad unfolding admitted_def by fastforce+
  have t2: "timely m2 ?now" using b1(2) market_movedD(16) [OF a2(2)] by simp
  have dr: "drawn_from ?mint mid amount (fst ` set order) m2 accts2 (m3, accts', bm', remaining, drawn)"
    by (rule redeem_draw_all [OF h(9) a2(1) t2 _ a2(3)]) (simp add: set_sort_by)
  have d: "books_ok m3 (positions_of ?mint accts') bm'" "market_moved m2 (amount - remaining) drawn m3"
    "drawn * mid \<le> (amount - remaining) * RAY" "\<And>k. k \<notin> fst ` set order \<Longrightarrow> accts' k = accts2 k"
    using dr by (auto simp: drawn_from_def)
  have mm: "market_moved m1 (amount - remaining) drawn m3" using market_moved_trans [OF a2(2) d(2)] by simp
  note mv = market_movedD [OF mm]
  have acc: "booked_supply m1 = booked_supply m" "tracked_collateral m1 = tracked_collateral m" "m_collateral_vault m1 = m_collateral_vault m"
    "m_shutdown m1 = m_shutdown m" "m_bad_debt m1 = m_bad_debt m" "m_spot m1 = m_spot m" "m_debt_spot m1 = m_debt_spot m"
    "m_spot_updated_slot m1 = m_spot_updated_slot m" "m_total_collateral m1 = m_total_collateral m"
    by (rule accrue_Inr [OF h(5)], simp add: booked_supply_def tracked_collateral_def)+
  have mid: "mid = (m_spot m + m_debt_spot m) div 2" "0 < m_spot m" "0 < m_debt_spot m"
    using h(6) unfolding mid_price_def handler_Inr acc by auto
  have dl: "drawn < 2 ^ 64" using mv(2) acc(9) assms(6) by linarith
  note fe = redeem_fee_Inr [OF h(12) dl] and br = redeem_base_rate_eq [OF h(11)]
  have m4: "m_agg_recorded_debt m4 = m_agg_recorded_debt m3" "m_total_collateral m4 = m_total_collateral m3"
    "m_unminted_interest m4 = m_unminted_interest m3" "m_bad_debt m4 = m_bad_debt m3" "m_shutdown m4 = m_shutdown m3"
    "m_last_update_ts m4 = m_last_update_ts m3" "m_l_coll m4 = m_l_coll m3" "m_l_art m4 = m_l_art m3"
    "m_last_coll_redist_error m4 = m_last_coll_redist_error m3" "m_last_art_redist_error m4 = m_last_art_redist_error m3"
    "m_collateral_vault m4 = m_collateral_vault m3" "m_total_coll_surplus m4 = m_total_coll_surplus m3"
    "m_surplus_collateral m4 = m_surplus_collateral m3" "m_protocol_collateral m4 = m_protocol_collateral m3"
    "m_agg_weighted_debt_sum m4 = m_agg_weighted_debt_sum m3" "m_total_stakes m4 = m_total_stakes m3"
    by (subst br, simp)+
  have bk: "books_ok m' (positions_of ?mint accts') bm'" by (rule books_ok_frame [OF d(1)]) (simp_all add: fe(1) m4)
  have tm: "timely m' ?now" using b1(2) mv(6) by (simp add: timely_def fe(1) m4)
  have "redeem_constraints T A l m = Inr ()" by (rule h(1))
  then have v: "re_market_coll_vault A = m_collateral_vault m" "tk_owner T l (re_redeemer_fusd_ata A) = re_redeemer A"
    unfolding redeem_constraints_def handler_Inr by simp_all
  have paid: "amount - remaining < 2 ^ 64" "paid < 2 ^ 64" using assms(3) fe(2) dl by linarith+
  note py = redeem_pay_effect [OF h(13) assms(2) paid, unfolded v(1)]
  have bs: "booked_supply m' = booked_supply m - int (amount - remaining)"
    using mv(1,3,4) acc(1) by (simp add: booked_supply_def fe(1) m4)
  have tr: "tracked_collateral m' + paid = tracked_collateral m"
    using mv(2,12-14) acc(2) fe(2) by (simp add: tracked_collateral_def fe(1) m4)
  have out: "accts' k = accts k" if "k \<notin> fst ` set order" for k using d(4) a2(5) that by simp
  have vm: "m_collateral_vault m' = m_collateral_vault m" "m_shutdown m' = m_shutdown m" "m_bad_debt m' = m_bad_debt m"
    using mv(4,5,11) acc(3-5) by (simp_all add: fe(1) m4)
  have n: "0 < amount - remaining" "amount - remaining \<le> amount" using h(10) by simp_all
  show thesis
    by (rule that [OF bk tm n py(1) bs tr py(3) [folded vm(1)] vm(1) fe(2,3) d(3) [unfolded mid(1)] py(2) vm(2) h(4) vm(3) out a2(4)
        mid(2,3) h(7) [unfolded acc(8)] v(2)])
qed

definition wound_down ::
    "pubkey \<Rightarrow> nat \<Rightarrow> nat \<Rightarrow> market \<Rightarrow> store \<Rightarrow> market \<times> store \<times> redemption_bitmap \<times> pubkey list \<times> nat \<times> nat \<Rightarrow> bool" where
  "wound_down mint mid amount m0 accts0 = (\<lambda>(m, accts, bm, seen, remaining, paid).
     books_ok m (positions_of mint accts) bm \<and> remaining \<le> amount \<and> market_moved m0 (amount - remaining) paid m \<and>
     paid * mid \<le> (amount - remaining) * RAY \<and> (\<forall>k. k \<notin> set seen \<longrightarrow> accts k = accts0 k))"

lemma urgent_step_Inr:
  assumes "urgent_step now mid mint (m, accts, bm, seen, remaining, paid) key = Inr st'"
  obtains (idle) "st' = (m, accts, bm, seen, remaining, paid)"
    | (current) p p1 m1 m' p2 bm' p' where "positions_of mint accts key = Some p" "realize m p now = Inr p1"
      "redeem_amount mid remaining p1 = Inr 0" "reweight m p1 (weight p) = Inr m1" "set_stake m1 p1 = Inr (m', p2)"
      "reconcile bm m' p2 (p_recorded_debt p) = Inr (bm', p')"
      "st' = (m', accts(key := PositionAccount p'), bm', seen @ [key], remaining, paid)"
    | (taken) p p1 n col m' p' bm' bu where "positions_of mint accts key = Some p" "realize m p now = Inr p1"
      "redeem_amount mid remaining p1 = Inr n" "redeem_collateral mid n p1 = Inr col"
      "redeem_apply n col (weight p) (p_recorded_debt p) m p1 bm = Inr (m', p', bm', bu)" "bu \<le> remaining"
      "st' = (m', accts(key := PositionAccount p'), bm', seen @ [key], remaining - bu, paid + col)"
proof (cases "remaining = 0 \<or> accts key = ForeignAccount")
  case True
  then show thesis using assms idle by (cases "remaining = 0") (simp_all add: urgent_step_def)
next
  case False
  then show thesis
  proof (cases "accts key")
    case (PositionAccount p)
    obtain w p1 n where o: "p_collateral_mint p = mint" "weighted p = Inr w" "realize m p now = Inr p1" "redeem_amount mid remaining p1 = Inr n"
      and r: "(if n = 0
          then bindR (reweight m p1 w) (\<lambda>m.
               bindR (set_stake m p1) (\<lambda>(m, pos).
               bindR (reconcile bm m pos (p_recorded_debt p)) (\<lambda>(bm, pos).
               Inr (m, accts(key := PositionAccount pos), bm, seen @ [key], remaining, paid))))
          else bindR (redeem_collateral mid n p1) (\<lambda>coll_total.
               bindR (redeem_apply n coll_total w (p_recorded_debt p) m p1 bm) (\<lambda>(m, pos, bm, burned).
               bindR (math (checked_add 128 paid coll_total)) (\<lambda>redeemer_coll_total.
               bindR (sub_or_panic remaining burned) (\<lambda>remaining.
               Inr (m, accts(key := PositionAccount pos), bm, seen @ [key], remaining, redeemer_coll_total)))))) = Inr st'"
      using assms False PositionAccount unfolding urgent_step_def by (auto simp: Let_def bindR_Inr ensure_Inr)
    have p: "positions_of mint accts key = Some p" using PositionAccount o(1) by (simp add: positions_of_Some)
    note w = weighted_weight [OF o(2)]
    show thesis
    proof (cases "n = 0")
      case True
      obtain m1 m' p2 bm' p' where "reweight m p1 (weight p) = Inr m1" "set_stake m1 p1 = Inr (m', p2)"
        "reconcile bm m' p2 (p_recorded_debt p) = Inr (bm', p')"
        "st' = (m', accts(key := PositionAccount p'), bm', seen @ [key], remaining, paid)"
        using r True w by (auto simp: handler_Inr)
      then show thesis using current p o(3,4) True by blast
    next
      case False
      obtain col m' p' bm' bu where "redeem_collateral mid n p1 = Inr col"
        "redeem_apply n col (weight p) (p_recorded_debt p) m p1 bm = Inr (m', p', bm', bu)" "bu \<le> remaining"
        "st' = (m', accts(key := PositionAccount p'), bm', seen @ [key], remaining - bu, paid + col)"
        using r False w by (auto simp: handler_Inr sub_or_panic_Inr)
      then show thesis using taken p o(3,4) by blast
    qed
  qed (use assms in \<open>auto simp: urgent_step_def bindR_Inr\<close>)
qed

lemma urgent_step_step:
  assumes "urgent_step now mid mint (m, accts, bm, seen, remaining, paid) key = Inr st'"
    and "wound_down mint mid amount m0 accts0 (m, accts, bm, seen, remaining, paid)"
    and "m_last_update_ts m0 = (if m_shutdown m0 then m_last_update_ts m0 else now)" "timely m0 now"
  shows "wound_down mint mid amount m0 accts0 st'"
proof -
  have inv: "books_ok m (positions_of mint accts) bm" "remaining \<le> amount" "market_moved m0 (amount - remaining) paid m"
    "paid * mid \<le> (amount - remaining) * RAY" "\<And>k. k \<notin> set seen \<Longrightarrow> accts k = accts0 k"
    using assms(2) by (auto simp: wound_down_def)
  note b = books_okD [OF inv(1)]
  have cur: "m_last_update_ts m = (if m_shutdown m then m_last_update_ts m else now)" "timely m now"
    using assms(3,4) market_movedD(5,6,16) [OF inv(3)] by auto
  note ac = accrue_current [OF cur(1)]
  show ?thesis
    using assms(1)
  proof (cases rule: urgent_step_Inr)
    case idle
    then show ?thesis using assms(2) by simp
  next
    case t: (current p p1 m1 m' p2 bm' p')
    show ?thesis
    proof (cases rule: position_opened [OF ac t(2)])
      case op: (1 x t')
      show ?thesis
      proof (cases rule: position_closed [OF t(4,5)])
        case cl: (1 v s u)
        have bs: "books_step m p bm m' p' bm'" "p' = p2\<lparr> p_bucket := p_bucket p' \<rparr>"
          by (rule books_stepI [OF b(5) t(6)]; use cl op(2-) in \<open>simp add: weight_def\<close>)+
        have p': "p_last_debt_update p' = p_last_debt_update p1" "p_redist_l_coll_snapshot p' = p_redist_l_coll_snapshot p1"
          "p_redist_l_art_snapshot p' = p_redist_l_art_snapshot p1" "p_recorded_debt p' = p_recorded_debt p1" "p_ink p' = p_ink p1"
          "p_stake p' = s" "p_coll_surplus p' = p_coll_surplus p" "p_collateral_mint p' = p_collateral_mint p"
          by (subst bs(2), simp add: cl(2) op(2-))+
        have kc: "keeps_cover now m p m' p'"
          by (rule touched_step [OF ac t(2) cur(2) b(7) [OF t(1)]]) (use cl(5) compute_stake_0 p' in \<open>auto simp: cl(1)\<close>)
        have ps: "positions_of mint (accts(key := PositionAccount p')) = (positions_of mint accts)(key \<mapsto> p')"
          using t(1) by (intro positions_of_update) (simp add: p' positions_of_Some)
        have "books_ok m' (positions_of mint (accts(key := PositionAccount p'))) bm'"
          unfolding ps by (rule books_ok_touch [OF inv(1) t(1) bs(1) kc]) (simp add: cl(1) p')
        moreover have "market_moved m 0 0 m'"
          unfolding market_moved_def by (intro conjI exI [of _ v] exI [of _ u]) (simp_all add: cl(1))
        ultimately show ?thesis
          unfolding t(7) wound_down_def using inv(2,4,5) market_moved_trans [OF inv(3)] by fastforce
      qed
    qed
  next
    case t: (taken p p1 n col m' p' bm' bu)
    show ?thesis
    proof (cases rule: position_opened [OF ac t(2)])
      case op: (1 x t')
      obtain s where a: "bu = n" "n \<le> p_recorded_debt p1" "col \<le> p_ink p1" "market_moved m n col m'" "books_step m p bm m' p' bm'"
        "p' = (set_ink (p1\<lparr> p_recorded_debt := p_recorded_debt p1 - n \<rparr>) (p_ink p1 - col))\<lparr> p_stake := s, p_bucket := p_bucket p' \<rparr>"
        "p_ink p1 - col = 0 \<longrightarrow> s = 0"
        by (rule redeem_apply_Inr [OF t(5) b(5)]) (simp_all add: op(2-))
      note mm = market_movedD [OF a(4)]
      have p': "p_last_debt_update p' = p_last_debt_update p1" "p_redist_l_coll_snapshot p' = p_redist_l_coll_snapshot p1"
          "p_redist_l_art_snapshot p' = p_redist_l_art_snapshot p1" "p_recorded_debt p' = p_recorded_debt p1 - n" "p_ink p' = p_ink p1 - col"
          "p_stake p' = s" "p_coll_surplus p' = p_coll_surplus p" "p_collateral_mint p' = p_collateral_mint p"
        by (subst a(6), simp add: op(2-))+
      have kc: "keeps_cover now m p m' p'"
        by (rule touched_step [OF ac t(2) cur(2) b(7) [OF t(1)]]) (use mm a(2,3,7) p' in auto)
      have ps: "positions_of mint (accts(key := PositionAccount p')) = (positions_of mint accts)(key \<mapsto> p')"
        using t(1) by (intro positions_of_update) (simp add: p' positions_of_Some)
      have "books_ok m' (positions_of mint (accts(key := PositionAccount p'))) bm'"
        unfolding ps by (rule books_ok_touch [OF inv(1) t(1) a(5) kc]) (simp add: mm p')
      moreover have "market_moved m0 (amount - (remaining - n)) (paid + col) m'"
        using market_moved_trans [OF inv(3) a(4)] inv(2) redeem_amount_Inr(1) [OF t(3)] by simp
      moreover have "(paid + col) * mid \<le> (amount - remaining) * RAY + n * RAY"
        using inv(4) redeem_collateral_Inr(2) [OF t(4)] by (simp add: add_mult_distrib)
      then have "(paid + col) * mid \<le> (amount - (remaining - n)) * RAY"
        using inv(2) redeem_amount_Inr(1) [OF t(3)] by (simp flip: add_mult_distrib)
      ultimately show ?thesis unfolding t(7) a(1) wound_down_def using inv(2,5) by auto
    qed
  qed
qed


lemma urgent_step_all:
  assumes "foldR (urgent_step now mid mint) (m, accts, bm, [], amount, 0) cands = Inr st'" "books_ok m (positions_of mint accts) bm"
    and "m_last_update_ts m = (if m_shutdown m then m_last_update_ts m else now)" "timely m now"
  shows "wound_down mint mid amount m accts st'"
  using assms(1)
proof (rule foldR_invariant)
  show "wound_down mint mid amount m accts (m, accts, bm, [], amount, 0)" using assms(2) by (simp add: wound_down_def market_moved_refl)
  fix st x st'
  assume "wound_down mint mid amount m accts st" "urgent_step now mid mint st x = Inr st'"
  then show "wound_down mint mid amount m accts st'" by (cases st) (auto intro: urgent_step_step [OF _ _ assms(3,4)])
qed

lemma urgent_redeem_effect:
  assumes "urgent_redeem_handler T clk A cands amount l m bm accts = Inr (l', m', bm', accts')" "token_laws T" "amount < 2 ^ 64"
    and "books_ok m (positions_of (re_collateral_mint A) accts) bm" "timely m (unix_timestamp clk)" "m_total_collateral m < 2 ^ 64"
  obtains n paid where
    "books_ok m' (positions_of (re_collateral_mint A) accts') bm'" "timely m' (unix_timestamp clk)"
    "0 < n" "n \<le> amount" "burned T (re_fusd_mint A) n l l'" "booked_supply m' = booked_supply m - int n"
    "tracked_collateral m' + paid = tracked_collateral m" "tracked_collateral m' \<le> tk_amount T l' (m_collateral_vault m')"
    "m_collateral_vault m' = m_collateral_vault m" "paid * ((m_spot m + m_debt_spot m) div 2) \<le> n * RAY"
    "debits T {re_redeemer_fusd_ata A, m_collateral_vault m} l l'" "m_shutdown m'" "m_shutdown m" "m_bad_debt m' = m_bad_debt m"
    "tk_owner T l (re_redeemer_fusd_ata A) = re_redeemer A"
proof -
  obtain m1 mid seen remaining paid where h: "redeem_constraints T A l m = Inr ()" "m_shutdown m"
    "accrue m (unix_timestamp clk) = Inr m1" "mid_price m1 = Inr mid"
    "foldR (urgent_step (unix_timestamp clk) mid (re_collateral_mint A)) (m1, accts, bm, [], amount, 0) cands =
       Inr (m', accts', bm', seen, remaining, paid)"
    "remaining < amount" "redeem_pay T A (amount - remaining) paid l m' = Inr l'"
    using assms(1) unfolding urgent_redeem_handler_def Let_def handler_Inr sub_or_panic_Inr
    by clarify (rule that; (assumption | simp))
  note b1 = books_ok_accrue [OF assms(4) h(3) assms(5)]
  have wd: "wound_down (re_collateral_mint A) mid amount m1 accts (m', accts', bm', seen, remaining, paid)"
    by (rule urgent_step_all [OF h(5) b1(1) b1(3) b1(2)])
  have d: "books_ok m' (positions_of (re_collateral_mint A) accts') bm'" "market_moved m1 (amount - remaining) paid m'"
    "paid * mid \<le> (amount - remaining) * RAY"
    using wd by (auto simp: wound_down_def)
  note mv = market_movedD [OF d(2)]
  have acc: "booked_supply m1 = booked_supply m" "tracked_collateral m1 = tracked_collateral m" "m_collateral_vault m1 = m_collateral_vault m"
    "m_shutdown m1 = m_shutdown m" "m_bad_debt m1 = m_bad_debt m" "m_spot m1 = m_spot m" "m_debt_spot m1 = m_debt_spot m"
    "m_total_collateral m1 = m_total_collateral m"
    by (rule accrue_Inr [OF h(3)], simp add: booked_supply_def tracked_collateral_def)+
  have mid: "mid = (m_spot m + m_debt_spot m) div 2" using h(4) unfolding mid_price_def handler_Inr acc by auto
  have v: "re_market_coll_vault A = m_collateral_vault m" "tk_owner T l (re_redeemer_fusd_ata A) = re_redeemer A"
    using h(1) unfolding redeem_constraints_def handler_Inr by simp_all
  have lt: "amount - remaining < 2 ^ 64" "paid < 2 ^ 64" using assms(3,6) mv(2) acc(8) by linarith+
  note py = redeem_pay_effect [OF h(7) assms(2) lt, unfolded v(1)]
  have bs: "booked_supply m' = booked_supply m - int (amount - remaining)"
    using mv(1,3,4) acc(1) by (simp add: booked_supply_def)
  have tr: "tracked_collateral m' + paid = tracked_collateral m"
    using mv(2,12-14) acc(2) by (simp add: tracked_collateral_def)
  have vm: "m_collateral_vault m' = m_collateral_vault m" "m_shutdown m'" "m_bad_debt m' = m_bad_debt m"
    using mv(4,5,11) acc(3-5) h(2) by simp_all
  have tm: "timely m' (unix_timestamp clk)" using b1(2) mv(16) by simp
  have n: "0 < amount - remaining" "amount - remaining \<le> amount" using h(6) by simp_all
  show thesis
    by (rule that [OF d(1) tm n py(1) bs tr py(3) [folded vm(1)] vm(1) d(3) [unfolded mid] py(2) vm(2) h(2) vm(3) v(2)])
qed

end
