(* ===== verification/Redeem_Safety.thy ===== *)
theory Redeem_Safety
  imports Redeem Cdp_Safety "HOL-Library.Multiset"
begin

text \<open>What redemption guarantees to the redeemer, to the borrowers and to the market.\<close>

subsection \<open>The order of the candidates\<close>

lemma sorted_insert_by:
  assumes "sorted_wrt R xs" "\<And>y. y \<in> set xs \<Longrightarrow> (cmp x y = Greater \<longrightarrow> R y x) \<and> (cmp x y \<noteq> Greater \<longrightarrow> R x y)"
    and "\<And>y z. y \<in> set xs \<Longrightarrow> z \<in> set xs \<Longrightarrow> R x y \<Longrightarrow> R y z \<Longrightarrow> R x z"
  shows "sorted_wrt R (insert_by cmp x xs)"
  using assms
proof (induction xs)
  case (Cons y ys)
  show ?case
  proof (cases "cmp x y = Greater")
    case True
    have "sorted_wrt R (insert_by cmp x ys)"
      by (rule Cons.IH) (use Cons.prems in \<open>auto dest: Cons.prems(3)\<close>)
    then show ?thesis using True Cons.prems(1,2) by (auto simp: set_insert_by)
  next
    case False
    then show ?thesis using Cons.prems by auto
  qed
qed simp

lemma mset_insert_by: "mset (insert_by cmp x xs) = add_mset x (mset xs)"
  by (induction xs) auto

definition ratio_le :: "candidate \<Rightarrow> candidate \<Rightarrow> bool" where
  "ratio_le a b \<longleftrightarrow> fst (snd a) * snd (snd b) \<le> fst (snd b) * snd (snd a)"

lemma ratio_le_trans:
  assumes "ratio_le a b" "ratio_le b c" "0 < snd (snd b)"
  shows "ratio_le a c"
proof -
  let ?ia = "fst (snd a)" and ?ib = "fst (snd b)" and ?ic = "fst (snd c)"
  let ?da = "snd (snd a)" and ?db = "snd (snd b)" and ?dc = "snd (snd c)"
  have "?ia * ?db * ?dc \<le> ?ib * ?da * ?dc" using assms(1) by (simp add: ratio_le_def)
  also have "\<dots> \<le> ?ic * ?db * ?da" using assms(2) by (simp add: ratio_le_def mult.commute mult.left_commute)
  finally have "(?ia * ?dc) * ?db \<le> (?ic * ?da) * ?db" by (simp add: mult.assoc mult.commute mult.left_commute)
  then show ?thesis using assms(3) by (simp add: ratio_le_def)
qed

lemma cmp_candidate_ratio:
  assumes "u256_laws U" "fst (snd a) < 2 ^ 64" "snd (snd a) < 2 ^ 128" "fst (snd b) < 2 ^ 64" "snd (snd b) < 2 ^ 128"
  shows "cmp_candidate U a b = Greater \<longrightarrow> ratio_le b a" "cmp_candidate U a b \<noteq> Greater \<longrightarrow> ratio_le a b"
  unfolding cmp_candidate_def cmp_collateral_ratio_exact [OF assms(1,2,4,3,5)] ratio_le_def by simp_all

lemma ratio_le_rat:
  assumes "ratio_le a b" "0 < snd (snd a)" "0 < snd (snd b)"
  shows "(of_nat (fst (snd a)) / of_nat (snd (snd a)) :: rat) \<le> of_nat (fst (snd b)) / of_nat (snd (snd b))"
proof -
  have "(of_nat (fst (snd a) * snd (snd b)) :: rat) \<le> of_nat (fst (snd b) * snd (snd a))"
    using assms(1) by (simp only: of_nat_le_iff ratio_le_def)
  then show ?thesis using assms(2,3) by (simp add: pos_divide_le_eq pos_le_divide_eq)
qed

lemma sort_by_ratio:
  assumes "u256_laws U" "\<And>c. c \<in> set cs \<Longrightarrow> fst (snd c) < 2 ^ 64 \<and> 0 < snd (snd c) \<and> snd (snd c) < 2 ^ 128"
  shows "sorted_wrt ratio_le (sort_by (cmp_candidate U) cs)"
  using assms(2)
proof (induction cs)
  case (Cons c cs)
  let ?s = "sort_by (cmp_candidate U) cs"
  have r: "fst (snd y) < 2 ^ 64 \<and> 0 < snd (snd y) \<and> snd (snd y) < 2 ^ 128" if "y \<in> set (c # ?s)" for y
    using Cons.prems that by (auto simp: set_sort_by)
  have "sorted_wrt ratio_le (insert_by (cmp_candidate U) c ?s)"
  proof (rule sorted_insert_by)
    show "sorted_wrt ratio_le ?s" using Cons by simp
    show "(cmp_candidate U c y = Greater \<longrightarrow> ratio_le y c) \<and> (cmp_candidate U c y \<noteq> Greater \<longrightarrow> ratio_le c y)" if "y \<in> set ?s" for y
      by (intro conjI cmp_candidate_ratio [OF assms(1)]) (use r [of c] r [of y] that in simp_all)
    show "ratio_le c y \<Longrightarrow> ratio_le y z \<Longrightarrow> ratio_le c z" if "y \<in> set ?s" for y z
      using ratio_le_trans [of c y z] r [of y] that by simp
  qed
  then show ?case by (simp add: sort_by_def)
qed (simp add: sort_by_def)

lemma mset_sort_by: "mset (sort_by cmp xs) = mset xs"
  by (induction xs) (simp_all add: sort_by_def mset_insert_by)

subsection \<open>The first pass admits every redeemable candidate once\<close>

definition redeemable :: "pubkey \<Rightarrow> nat option \<Rightarrow> store \<Rightarrow> pubkey \<Rightarrow> bool" where
  "redeemable mint lowest accts k \<longleftrightarrow>
     (case positions_of mint accts k of
        None \<Rightarrow> False
      | Some p \<Rightarrow> 0 < p_recorded_debt p \<and> (p_bucket p = ZOMBIE_BUCKET \<or> Some (p_bucket p) = lowest))"

lemma redeem_admit_cases:
  assumes "redeem_admit now mint lowest (m, accts, seen, order) key = Inr st'"
  obtains (foreign) "accts key = ForeignAccount" "st' = (m, accts, seen, order)"
    | (skipped) "accts key \<noteq> ForeignAccount" "key \<notin> set seen" "\<not> redeemable mint lowest accts key" "st' = (m, accts, seen @ [key], order)"
    | (taken) p w p1 m1 m' p' where "accts key = PositionAccount p" "key \<notin> set seen" "redeemable mint lowest accts key"
      "realize m p now = Inr p1" "reweight m p1 w = Inr m1" "set_stake m1 p1 = Inr (m', p')" "0 < p_recorded_debt p"
      "st' = (m', accts(key := PositionAccount p'), seen @ [key], order @ [(key, p_ink p', p_recorded_debt p')])"
proof (cases "accts key")
  case (PositionAccount p)
  then have h: "p_collateral_mint p = mint" "key \<notin> set seen"
    using assms unfolding redeem_admit_def by (auto simp: bindR_Inr ensure_Inr)
  have r: "redeemable mint lowest accts key \<longleftrightarrow>
      0 < p_recorded_debt p \<and> (p_bucket p = ZOMBIE_BUCKET \<or> Some (p_bucket p) = lowest)"
    using PositionAccount h(1) by (simp add: redeemable_def positions_of_def)
  show thesis
  proof (cases "redeemable mint lowest accts key")
    case True
    obtain w p1 m1 m' p' where "realize m p now = Inr p1" "reweight m p1 w = Inr m1" "set_stake m1 p1 = Inr (m', p')"
      "st' = (m', accts(key := PositionAccount p'), seen @ [key], order @ [(key, p_ink p', p_recorded_debt p')])"
      using assms PositionAccount True [unfolded r] unfolding redeem_admit_def by (auto simp: handler_Inr)
    then show thesis using taken [OF PositionAccount h(2) True] True [unfolded r] by blast
  next
    case False
    then show thesis
      using assms PositionAccount skipped h False [unfolded r] unfolding redeem_admit_def by (auto simp: handler_Inr)
  qed
qed (use assms foreign in \<open>auto simp: redeem_admit_def\<close>)

text \<open>What the first pass has done after the candidates \<open>ks\<close>, from the accrued market \<open>m0\<close>.\<close>

definition first_pass ::
    "int \<Rightarrow> pubkey \<Rightarrow> nat option \<Rightarrow> market \<Rightarrow> store \<Rightarrow> pubkey list \<Rightarrow> market \<times> store \<times> pubkey list \<times> candidate list \<Rightarrow> bool" where
  "first_pass now mint lowest m0 accts0 ks = (\<lambda>(m, accts, seen, order).
     (\<exists>w t. m = m0\<lparr> m_agg_weighted_debt_sum := w, m_total_stakes := t \<rparr>) \<and>
     seen = filter (\<lambda>k. accts0 k \<noteq> ForeignAccount) ks \<and> distinct seen \<and>
     map fst order = filter (redeemable mint lowest accts0) ks \<and>
     (\<forall>c \<in> set order. \<exists>p q p'. accts0 (fst c) = PositionAccount p \<and> realize m0 p now = Inr q \<and> 0 < p_recorded_debt p \<and>
        accts (fst c) = PositionAccount p' \<and> p_ink p' = p_ink q \<and> p_recorded_debt p' = p_recorded_debt q \<and>
        snd c = (p_ink q, p_recorded_debt q)) \<and>
     (\<forall>k. k \<notin> fst ` set order \<longrightarrow> accts k = accts0 k))"

lemma realize_moved: "realize (m\<lparr> m_agg_weighted_debt_sum := w, m_total_stakes := t \<rparr>) p now = realize m p now"
  by (simp add: realize_def pending_of_position_def redist_of_market_def roll_snapshot_def)

lemma first_pass_step:
  assumes "redeem_admit now mint lowest st key = Inr st'" "first_pass now mint lowest m0 accts0 ks st"
  shows "first_pass now mint lowest m0 accts0 (ks @ [key]) st'"
proof -
  obtain m accts seen order where st: "st = (m, accts, seen, order)" by (cases st)
  obtain w t where m: "m = m0\<lparr> m_agg_weighted_debt_sum := w, m_total_stakes := t \<rparr>"
    and inv: "seen = filter (\<lambda>k. accts0 k \<noteq> ForeignAccount) ks" "distinct seen"
      "map fst order = filter (redeemable mint lowest accts0) ks" "\<And>k. k \<notin> fst ` set order \<Longrightarrow> accts k = accts0 k"
    and ord: "\<And>c. c \<in> set order \<Longrightarrow> \<exists>p q p'. accts0 (fst c) = PositionAccount p \<and> realize m0 p now = Inr q \<and> 0 < p_recorded_debt p \<and>
        accts (fst c) = PositionAccount p' \<and> p_ink p' = p_ink q \<and> p_recorded_debt p' = p_recorded_debt q \<and>
        snd c = (p_ink q, p_recorded_debt q)"
    using assms(2) unfolding first_pass_def st by auto
  have sub: "fst ` set order \<subseteq> set seen"
  proof
    fix k assume "k \<in> fst ` set order"
    moreover have "fst ` set order = set (filter (redeemable mint lowest accts0) ks)" unfolding inv(3) [symmetric] by simp
    ultimately have "k \<in> set ks" "accts0 k \<noteq> ForeignAccount" using ord by (simp, force)
    then show "k \<in> set seen" by (simp add: inv(1))
  qed
  have fo: "accts k = ForeignAccount \<longleftrightarrow> accts0 k = ForeignAccount" for k
    using inv(4) [of k] ord by (cases "k \<in> fst ` set order") force+
  have same: "accts key = accts0 key \<and> (redeemable mint lowest accts key \<longleftrightarrow> redeemable mint lowest accts0 key)" if "key \<notin> set seen"
  proof -
    have "accts key = accts0 key" using inv(4) [of key] sub that by blast
    then show ?thesis by (simp add: redeemable_def positions_of_def)
  qed
  from assms(1) show ?thesis unfolding st
  proof (cases rule: redeem_admit_cases)
    case f: foreign
    have "\<not> redeemable mint lowest accts0 key" "accts0 key = ForeignAccount"
      using f(1) fo [of key] by (auto simp: redeemable_def positions_of_def)
    then show ?thesis using assms(2) unfolding st f(2) first_pass_def by force
  next
    case k: skipped
    have "\<not> redeemable mint lowest accts0 key" "accts0 key \<noteq> ForeignAccount" using k(1-3) same by auto
    then show ?thesis using assms(2) k(2) unfolding st k(4) first_pass_def by force
  next
    case tk: (taken p v p1 m1 m' p')
    have a: "accts0 key = PositionAccount p" "redeemable mint lowest accts0 key" using tk(1-3) same by auto
    have q: "realize m0 p now = Inr p1" using tk(4) by (simp add: m realize_moved)
    obtain s where "m' = m1\<lparr> m_total_stakes := m_total_stakes m1 - p_stake p1 + s \<rparr>" "p' = p1\<lparr> p_stake := s \<rparr>"
      by (rule set_stake_Inr [OF tk(6)])
    then have "\<exists>w t. m' = m0\<lparr> m_agg_weighted_debt_sum := w, m_total_stakes := t \<rparr>"
      "p_ink p' = p_ink p1" "p_recorded_debt p' = p_recorded_debt p1"
      using tk(5) by (auto simp: reweight_Inr m)
    moreover have "key \<notin> fst ` set order" using sub tk(2) by auto
    ultimately show ?thesis
      unfolding tk(8) first_pass_def using inv ord a q tk(2,7) by (auto simp: image_iff)
  qed
qed

lemma first_pass_all:
  "foldR (redeem_admit now mint lowest) st cs = Inr st' \<Longrightarrow> first_pass now mint lowest m0 accts0 ks st \<Longrightarrow>
   first_pass now mint lowest m0 accts0 (ks @ cs) st'"
proof (induction cs arbitrary: st ks)
  case (Cons c cs)
  obtain st1 where "redeem_admit now mint lowest st c = Inr st1" "foldR (redeem_admit now mint lowest) st1 cs = Inr st'"
    using Cons.prems(1) by (auto simp: bindR_Inr)
  then show ?case using Cons.IH [of st1 "ks @ [c]"] first_pass_step [OF _ Cons.prems(2)] by simp
qed simp

subsection \<open>The second pass draws each candidate to its limit before the next\<close>

text \<open>The most that can be redeemed from a position: its debt, or its collateral at the mid price when that is less.\<close>

definition redeem_limit :: "nat \<Rightarrow> position \<Rightarrow> nat" where
  "redeem_limit mid p = min (p_recorded_debt p) (p_ink p * mid div RAY)"

text \<open>\<open>n\<close> tokens were redeemed from a position, for collateral at the mid price.\<close>

definition redeemed_from :: "nat \<Rightarrow> nat \<Rightarrow> position \<Rightarrow> position \<Rightarrow> bool" where
  "redeemed_from mid n p p' \<longleftrightarrow> p_recorded_debt p' + n = p_recorded_debt p \<and>
     p_ink p' + min (n * RAY div mid) (p_ink p) = p_ink p"

lemma reconcile_position: "reconcile bm m p d = Inr (bm', p') \<Longrightarrow> \<exists>b. p' = p\<lparr> p_bucket := b \<rparr>"
  by (auto simp: reconcile_def bindR_Inr if_Inr intro: exI [of _ "p_bucket p"] split: bool.splits option.splits)

lemma redeem_draw_exact:
  assumes "redeem_draw mid (m, accts, bm, r, d) c = Inr (m', accts', bm', r', d')" "accts (fst c) = PositionAccount p"
  shows "r' = r - redeem_limit mid p" "\<And>k. k \<noteq> fst c \<Longrightarrow> accts' k = accts k"
    "\<exists>p'. accts' (fst c) = PositionAccount p' \<and> redeemed_from mid (min (redeem_limit mid p) r) p p'"
proof -
  have "r' = r - redeem_limit mid p \<and> (\<forall>k. k \<noteq> fst c \<longrightarrow> accts' k = accts k) \<and>
    (\<exists>p'. accts' (fst c) = PositionAccount p' \<and> redeemed_from mid (min (redeem_limit mid p) r) p p')"
  proof (cases "r = 0")
    case True
    then show ?thesis using assms by (simp add: redeem_draw_def redeemed_from_def)
  next
    case False
    obtain n where n: "redeem_amount mid r p = Inr n"
      using assms False by (auto simp: redeem_draw_def bindR_Inr)
    have nv: "n = min (redeem_limit mid p) r"
      using n unfolding redeem_amount_def handler_Inr
      by (auto simp: redeem_limit_def ray_mul_def mul_div_floor_def wide_mul_div_eq split: if_splits)
    show ?thesis
    proof (cases "n = 0")
      case True
      then show ?thesis using assms False n nv by (auto simp: redeem_draw_def redeemed_from_def min_def split: if_splits)
    next
      case n0: False
      obtain col w p' bu where h: "redeem_collateral mid n p = Inr col"
        "redeem_apply n col w (p_recorded_debt p) m p bm = Inr (m', p', bm', bu)"
        "r' = r - bu" "accts' = accts(fst c := PositionAccount p')"
        using assms False n n0 unfolding redeem_draw_def by (auto simp: handler_Inr sub_or_panic_Inr)
      have col: "col = min (n * RAY div mid) (p_ink p)"
        using h(1) unfolding redeem_collateral_def handler_Inr
        by (auto simp: mul_div_floor_def wide_mul_div_eq split: if_splits)
      obtain dd m1 m2 p2 where a: "st_redeem_step u128_num (m_agg_recorded_debt m) n = Some dd" "bu = rs_burned dd"
        "n \<le> p_recorded_debt p" "set_stake m1 (set_ink (p\<lparr> p_recorded_debt := p_recorded_debt p - n \<rparr>) (p_ink p - col)) = Inr (m2, p2)"
        "reconcile bm m2 p2 (p_recorded_debt p) = Inr (bm', p')"
        using h(2) unfolding redeem_apply_def Let_def handler_Inr sub_or_panic_Inr by clarify (rule that; (assumption | simp only:))
      obtain s where "p2 = (set_ink (p\<lparr> p_recorded_debt := p_recorded_debt p - n \<rparr>) (p_ink p - col))\<lparr> p_stake := s \<rparr>"
        by (rule set_stake_Inr [OF a(4)])
      then have p': "p_recorded_debt p' = p_recorded_debt p - n" "p_ink p' = p_ink p - col"
        using reconcile_position [OF a(5)] by auto
      have "bu = n" using u128_supply.redeem_identity(2,3) [OF a(1)] a(2) by simp
      then show ?thesis using h(3,4) p' col a(3) nv by (auto simp: redeemed_from_def min_def)
    qed
  qed
  then show "r' = r - redeem_limit mid p" "\<And>k. k \<noteq> fst c \<Longrightarrow> accts' k = accts k"
    "\<exists>p'. accts' (fst c) = PositionAccount p' \<and> redeemed_from mid (min (redeem_limit mid p) r) p p'" by blast+
qed

text \<open>Position \<open>i\<close> of the order is drawn to its limit, or to what the positions before it leave of the amount.\<close>

lemma second_pass:
  "foldR (redeem_draw mid) (m, accts, bm, r, d) cs = Inr (m', accts', bm', r', d') \<Longrightarrow> distinct (map fst cs) \<Longrightarrow>
   (\<forall>c \<in> set cs. accts (fst c) = PositionAccount (f (fst c))) \<Longrightarrow>
   (\<forall>k. k \<notin> fst ` set cs \<longrightarrow> accts' k = accts k) \<and>
   (\<forall>i < length cs. \<exists>p'. accts' (fst (cs ! i)) = PositionAccount p' \<and>
      redeemed_from mid (min (redeem_limit mid (f (fst (cs ! i))))
        (r - (\<Sum>c \<leftarrow> take i cs. redeem_limit mid (f (fst c))))) (f (fst (cs ! i))) p')"
proof (induction cs arbitrary: m accts bm r d)
  case (Cons c cs)
  obtain m1 accts1 bm1 r1 d1 where 1: "redeem_draw mid (m, accts, bm, r, d) c = Inr (m1, accts1, bm1, r1, d1)"
    "foldR (redeem_draw mid) (m1, accts1, bm1, r1, d1) cs = Inr (m', accts', bm', r', d')"
    using Cons.prems(1) by (auto simp: bindR_Inr)
  have c: "accts (fst c) = PositionAccount (f (fst c))" "fst c \<notin> fst ` set cs" using Cons.prems(2,3) by auto
  note dr = redeem_draw_exact [OF 1(1) c(1)]
  have "\<forall>c \<in> set cs. accts1 (fst c) = PositionAccount (f (fst c))"
  proof
    fix x assume "x \<in> set cs"
    then have "fst x \<in> fst ` set cs" "accts (fst x) = PositionAccount (f (fst x))" using Cons.prems(3) by auto
    then have "fst x \<noteq> fst c" "accts (fst x) = PositionAccount (f (fst x))" using c(2) by metis+
    then show "accts1 (fst x) = PositionAccount (f (fst x))" using dr(2) by simp
  qed
  note IH = Cons.IH [OF 1(2) _ this]
  have out: "\<forall>k. k \<notin> fst ` set (c # cs) \<longrightarrow> accts' k = accts k" using IH Cons.prems(2) dr(2) by auto
  have "\<exists>p'. accts' (fst ((c # cs) ! i)) = PositionAccount p' \<and>
      redeemed_from mid (min (redeem_limit mid (f (fst ((c # cs) ! i))))
        (r - (\<Sum>c \<leftarrow> take i (c # cs). redeem_limit mid (f (fst c))))) (f (fst ((c # cs) ! i))) p'"
    if i: "i < length (c # cs)" for i
  proof (cases i)
    case 0
    have "accts' (fst c) = accts1 (fst c)" using IH Cons.prems(2) c(2) by auto
    then show ?thesis using dr(3) by (simp add: 0)
  next
    case (Suc j)
    then have "j < length cs" using i by simp
    then show ?thesis using IH Cons.prems(2) by (simp add: Suc dr(1))
  qed
  then show ?case using out by blast
qed simp

lemma realize_range:
  assumes "realize m p now = Inr q" "p_ink p < 2 ^ 64"
  shows "p_ink q < 2 ^ 64" "p_recorded_debt q < 2 ^ 128" "p_recorded_debt p \<le> p_recorded_debt q"
  by (rule realize_Inr [OF assms(1)]; use assms(2) in auto)+

text \<open>The two passes together: the order is the list of the keys after the sort.\<close>

lemma redeem_passes:
  fixes cs :: "candidate list"
  assumes "first_pass now mint lowest m1 accts cands (m2, accts2, seen, order)"
    and "foldR (redeem_draw mid) (m2, accts2, bm, amount, 0) cs = Inr (m3, accts', bm', remaining, drawn)"
    and "cs = sort_by (cmp_candidate U) order" "u256_laws U" "\<forall>k p. accts k = PositionAccount p \<longrightarrow> p_ink p < 2 ^ 64"
  obtains q ks where "distinct ks" "set ks = {k \<in> set cands. redeemable mint lowest accts k}"
    "\<forall>k \<in> set ks. \<exists>p. accts k = PositionAccount p \<and> realize m1 p now = Inr (q k)"
    "sorted_wrt (\<lambda>j k. (of_nat (p_ink (q j)) / of_nat (p_recorded_debt (q j)) :: rat)
        \<le> of_nat (p_ink (q k)) / of_nat (p_recorded_debt (q k))) ks"
    "\<forall>i < length ks. \<exists>p'. accts' (ks ! i) = PositionAccount p' \<and>
        redeemed_from mid (min (redeem_limit mid (q (ks ! i))) (amount - (\<Sum>k \<leftarrow> take i ks. redeem_limit mid (q k))))
          (q (ks ! i)) p'"
    "\<forall>k. k \<notin> set ks \<longrightarrow> accts' k = accts k"
proof -
  define q where "q k = (case accts k of PositionAccount p \<Rightarrow> projr (realize m1 p now))" for k
  define f where "f k = (case accts2 k of PositionAccount p \<Rightarrow> p)" for k
  have once: "distinct (filter (\<lambda>k. accts k \<noteq> ForeignAccount) cands)" and ord: "map fst order = filter (redeemable mint lowest accts) cands"
    and out: "\<And>k. k \<notin> fst ` set order \<Longrightarrow> accts2 k = accts k"
    using assms(1) by (auto simp: first_pass_def)
  have set_cs: "set cs = set order" by (simp add: assms(3) set_sort_by)
  have cur: "\<exists>p p'. accts (fst c) = PositionAccount p \<and> realize m1 p now = Inr (q (fst c)) \<and> 0 < p_recorded_debt p \<and>
      accts2 (fst c) = PositionAccount p' \<and> p_ink p' = p_ink (q (fst c)) \<and> p_recorded_debt p' = p_recorded_debt (q (fst c)) \<and>
      snd c = (p_ink (q (fst c)), p_recorded_debt (q (fst c)))" if "c \<in> set cs" for c
    using assms(1) that unfolding first_pass_def q_def set_cs by fastforce
  have f: "accts2 (fst c) = PositionAccount (f (fst c))" "p_ink (f (fst c)) = p_ink (q (fst c))"
    "p_recorded_debt (f (fst c)) = p_recorded_debt (q (fst c))" if "c \<in> set cs" for c
    using cur [of c] that by (auto simp: f_def)
  then have lim: "redeem_limit mid (f (fst c)) = redeem_limit mid (q (fst c))"
    "redeemed_from mid n (f (fst c)) p' = redeemed_from mid n (q (fst c)) p'" if "c \<in> set cs" for c n p'
    using that by (simp_all add: redeem_limit_def redeemed_from_def)
  have keys: "mset (map fst cs) = mset (map fst order)" by (simp add: assms(3) mset_sort_by)
  have "filter (redeemable mint lowest accts) cands =
      filter (redeemable mint lowest accts) (filter (\<lambda>k. accts k \<noteq> ForeignAccount) cands)"
    by (auto simp: redeemable_def positions_of_def intro: filter_cong)
  then have dist: "distinct (map fst cs)"
    using once unfolding mset_eq_imp_distinct_iff [OF keys] ord by (metis distinct_filter)
  note sec = second_pass [OF assms(2) dist, of f]
  have rng: "fst (snd c) < 2 ^ 64 \<and> 0 < snd (snd c) \<and> snd (snd c) < 2 ^ 128" if "c \<in> set order" for c
    using cur [of c] that realize_range assms(5) unfolding set_cs by (metis fst_conv order_less_le_trans snd_conv)
  have "sorted_wrt ratio_le cs" unfolding assms(3) by (rule sort_by_ratio [OF assms(4)]) (rule rng)
  then have "sorted_wrt (\<lambda>a b. (of_nat (p_ink (q (fst a))) / of_nat (p_recorded_debt (q (fst a))) :: rat)
        \<le> of_nat (p_ink (q (fst b))) / of_nat (p_recorded_debt (q (fst b)))) cs"
  proof (rule sorted_wrt_mono_rel [rotated])
    fix a b assume ab: "a \<in> set cs" "b \<in> set cs" "ratio_le a b"
    then have e: "snd a = (p_ink (q (fst a)), p_recorded_debt (q (fst a)))" "snd b = (p_ink (q (fst b)), p_recorded_debt (q (fst b)))"
      using cur by metis+
    then show "(of_nat (p_ink (q (fst a))) / of_nat (p_recorded_debt (q (fst a))) :: rat)
        \<le> of_nat (p_ink (q (fst b))) / of_nat (p_recorded_debt (q (fst b)))"
      using ratio_le_rat [OF ab(3)] rng [of a] rng [of b] ab(1,2) unfolding set_cs by simp
  qed
  then have srt: "sorted_wrt (\<lambda>j k. (of_nat (p_ink (q j)) / of_nat (p_recorded_debt (q j)) :: rat)
        \<le> of_nat (p_ink (q k)) / of_nat (p_recorded_debt (q k))) (map fst cs)"
    unfolding sorted_wrt_map .
  have sum: "(\<Sum>c \<leftarrow> take i cs. redeem_limit mid (f (fst c))) = (\<Sum>k \<leftarrow> take i (map fst cs). redeem_limit mid (q k))" for i
    unfolding take_map map_map comp_def using lim(1) in_set_takeD [of _ i cs] by (metis (no_types, lifting) map_eq_conv)
  show thesis
  proof (rule that [OF dist _ _ srt])
    show "set (map fst cs) = {k \<in> set cands. redeemable mint lowest accts k}"
      using arg_cong [OF keys, of set_mset] arg_cong [OF ord, of set] by auto
    show "\<forall>k \<in> set (map fst cs). \<exists>p. accts k = PositionAccount p \<and> realize m1 p now = Inr (q k)" using cur by fastforce
    show "\<forall>k. k \<notin> set (map fst cs) \<longrightarrow> accts' k = accts k" using sec f(1) out by (auto simp: set_cs)
    show "\<forall>i < length (map fst cs). \<exists>p'. accts' (map fst cs ! i) = PositionAccount p' \<and>
        redeemed_from mid (min (redeem_limit mid (q (map fst cs ! i))) (amount - (\<Sum>k \<leftarrow> take i (map fst cs). redeem_limit mid (q k))))
          (q (map fst cs ! i)) p'"
      using sec f(1) nth_mem [of _ cs] by (auto simp: sum lim)
  qed
qed

text \<open>
  C30. A redemption takes from the submitted candidates in the order of their exact collateral ratio,
  lowest first. If it succeeds, no account of the program was submitted twice, and there is a list of
  exactly the redeemable candidates (positions of the market that owe debt and are in the lowest
  non-empty bucket or in the pen), each once, sorted by the collateral ratio of the positions brought
  current, such that each is drawn to its limit or to what the ones before it have left of the amount,
  for collateral at the mid price; so none is touched while one of a lower ratio is below its limit.
  No other account changes.
\<close>

theorem redeem_order:
  assumes "redeem_handler U T clk A cands amount l m bm accts = Inr (l', m', bm', accts')" "u256_laws U"
    and "\<forall>k p. accts k = PositionAccount p \<longrightarrow> p_ink p < 2 ^ 64"
  shows "distinct (filter (\<lambda>k. accts k \<noteq> ForeignAccount) cands) \<and>
    (\<exists>m1 mid q ks. accrue m (unix_timestamp clk) = Inr m1 \<and> mid = (m_spot m + m_debt_spot m) div 2 \<and>
      distinct ks \<and> set ks = {k \<in> set cands. redeemable (re_collateral_mint A) (first_set (bm_words bm)) accts k} \<and>
      (\<forall>k \<in> set ks. \<exists>p. accts k = PositionAccount p \<and> realize m1 p (unix_timestamp clk) = Inr (q k)) \<and>
      sorted_wrt (\<lambda>j k. (of_nat (p_ink (q j)) / of_nat (p_recorded_debt (q j)) :: rat)
        \<le> of_nat (p_ink (q k)) / of_nat (p_recorded_debt (q k))) ks \<and>
      (\<forall>i < length ks. \<exists>p'. accts' (ks ! i) = PositionAccount p' \<and>
        redeemed_from mid (min (redeem_limit mid (q (ks ! i))) (amount - (\<Sum>k \<leftarrow> take i ks. redeem_limit mid (q k))))
          (q (ks ! i)) p') \<and>
      (\<forall>k. k \<notin> set ks \<longrightarrow> accts' k = accts k))"
  using assms(1)
proof (cases rule: redeem_Inr)
  case h: (1 m1 mid m2 accts2 seen order m3 remaining drawn m4 rate paid)
  let ?now = "unix_timestamp clk" and ?lowest = "first_set (bm_words bm)" and ?mint = "re_collateral_mint A"
  have "first_pass ?now ?mint ?lowest m1 accts [] (m1, accts, [], [])"
    unfolding first_pass_def prod.case
    by (intro conjI exI [of _ "m_agg_weighted_debt_sum m1"] exI [of _ "m_total_stakes m1"]) simp_all
  then have fp: "first_pass ?now ?mint ?lowest m1 accts cands (m2, accts2, seen, order)"
    using first_pass_all [OF h(8)] by fastforce
  have once: "distinct (filter (\<lambda>k. accts k \<noteq> ForeignAccount) cands)" using fp by (auto simp: first_pass_def)
  have "m_spot m1 = m_spot m \<and> m_debt_spot m1 = m_debt_spot m" by (rule accrue_Inr [OF h(5)]) simp
  then have mid: "mid = (m_spot m + m_debt_spot m) div 2" using h(6) unfolding mid_price_def handler_Inr by auto
  show ?thesis
    by (rule redeem_passes [OF fp h(9) refl assms(2,3)])
      (intro conjI once exI [of _ m1] exI [of _ mid] exI h(5) mid; assumption)
qed

subsection \<open>A closed candidate cannot block a redemption\<close>

lemma foldR_filter:
  assumes "I s" "\<And>s x s'. I s \<Longrightarrow> f s x = Inr s' \<Longrightarrow> I s'" "\<And>s x. I s \<Longrightarrow> \<not> Q x \<Longrightarrow> f s x = Inr s"
  shows "foldR f s (filter Q xs) = foldR f s xs"
  using assms(1)
proof (induction xs arbitrary: s)
  case (Cons x xs)
  show ?case
  proof (cases "Q x")
    case True
    then show ?thesis using Cons assms(2) by (cases "f s x") auto
  next
    case False
    then show ?thesis using Cons assms(3) by simp
  qed
qed simp

lemma admit_foreign:
  assumes "redeem_admit now mint lowest st key = Inr st'"
  shows "fst (snd st') k = ForeignAccount \<longleftrightarrow> fst (snd st) k = ForeignAccount"
proof -
  obtain m accts seen order where st: "st = (m, accts, seen, order)" by (cases st)
  from assms show ?thesis unfolding st by (cases rule: redeem_admit_Inr) (auto simp: positions_of_Some)
qed

text \<open>
  C31. A candidate that is no longer an account of the program (repaid and closed before the transaction
  ran) neither fails a redemption nor changes it: the handler returns exactly what it returns with
  those candidates left out.
\<close>

theorem redeem_ignores_closed:
  assumes "length cands \<le> MAX_REDEMPTION_CANDIDATES"
  shows "redeem_handler U T clk A cands amount l m bm accts =
    redeem_handler U T clk A (filter (\<lambda>k. accts k \<noteq> ForeignAccount) cands) amount l m bm accts"
proof -
  have "foldR (redeem_admit now mint lowest) (m, accts, [], []) (filter (\<lambda>k. accts k \<noteq> ForeignAccount) cands) =
      foldR (redeem_admit now mint lowest) (m, accts, [], []) cands" for now mint lowest m
  proof (rule foldR_filter [where I = "\<lambda>st. \<forall>k. fst (snd st) k = ForeignAccount \<longleftrightarrow> accts k = ForeignAccount"])
    show "\<forall>k. fst (snd (m, accts, [], [])) k = ForeignAccount \<longleftrightarrow> accts k = ForeignAccount" by simp
    show "\<forall>k. fst (snd st') k = ForeignAccount \<longleftrightarrow> accts k = ForeignAccount"
      if "\<forall>k. fst (snd st) k = ForeignAccount \<longleftrightarrow> accts k = ForeignAccount" "redeem_admit now mint lowest st x = Inr st'" for st x st'
      using that admit_foreign [OF that(2)] by simp
    show "redeem_admit now mint lowest st x = Inr st"
      if "\<forall>k. fst (snd st) k = ForeignAccount \<longleftrightarrow> accts k = ForeignAccount" "\<not> accts x \<noteq> ForeignAccount" for st x
    proof -
      have "fst (snd st) x = ForeignAccount" using that by simp
      then show ?thesis by (cases st) (simp add: redeem_admit_def)
    qed
  qed
  moreover have "length (filter (\<lambda>k. accts k \<noteq> ForeignAccount) cands) \<le> MAX_REDEMPTION_CANDIDATES"
    using assms length_filter_le [of _ cands] by (rule order_trans [rotated])
  ultimately show ?thesis using assms unfolding redeem_handler_def by simp
qed

subsection \<open>Soundness\<close>


subsection \<open>A concrete run\<close>

text \<open>The position of 1000 units that owes 700 at price two: 200 tokens are redeemed for 100 units.\<close>

definition redeem_market0 :: market where
  "redeem_market0 = (market1 700)\<lparr> m_debt_spot := 2 * RAY \<rparr>"

definition redeem_market1 :: market where
  "redeem_market1 = redeem_market0\<lparr> m_agg_recorded_debt := 500, m_total_collateral := 900, m_agg_weighted_debt_sum := 250000,
     m_total_stakes := 900 \<rparr>"

definition redeem_position1 :: position where
  "redeem_position1 = (set_ink ((position1 700)\<lparr> p_recorded_debt := 500 \<rparr>) 900)\<lparr> p_stake := 900 \<rparr>"

definition redeem_store :: "position \<Rightarrow> store" where
  "redeem_store p = (\<lambda>_. ForeignAccount)(4 := PositionAccount p)"

definition redeem_accounts0 :: redeem_accounts where
  "redeem_accounts0 = \<lparr> re_redeemer = 6, re_collateral_mint = 1, re_market = 3, re_fusd_mint = 8, re_market_coll_vault = 2,
     re_redeemer_fusd_ata = 26, re_redeemer_collateral_ata = 27 \<rparr>"

definition redeem_ledger0 :: "nat \<Rightarrow> nat \<Rightarrow> nat \<Rightarrow> ledger" where
  "redeem_ledger0 vault fusd coll = \<lparr> lg_amount = (\<lambda>_. 0)(2 := vault, 26 := fusd, 27 := coll),
     lg_mint = (\<lambda>_. 0)(2 := 1, 26 := 8, 27 := 1), lg_owner = (\<lambda>_. 0)(2 := 3, 26 := 6, 27 := 6),
     lg_supply = (\<lambda>_. 0)(8 := fusd), lg_lamports = (\<lambda>_. 0) \<rparr>"

lemma redeem_market0_sel:
  "m_agg_recorded_debt redeem_market0 = 700" "m_total_collateral redeem_market0 = 1000" "\<not> m_shutdown redeem_market0"
  "m_collateral_vault redeem_market0 = 2" "m_redemption_base_rate_max_bps redeem_market0 = 0" "m_spot_updated_slot redeem_market0 = 0"
  by (simp_all add: redeem_market0_def market1_def market0_def)

lemma redeem_market0_open:
  "accrue redeem_market0 0 = Inr redeem_market0" "mid_price redeem_market0 = Inr (2 * RAY)"
  "realize redeem_market0 (position1 700) 0 = Inr (position1 700)"
  "reweight redeem_market0 (position1 700) 350000 = Inr redeem_market0"
  "set_stake redeem_market0 (position1 700) = Inr (redeem_market0, position1 700)"
proof -
  show "accrue redeem_market0 0 = Inr redeem_market0"
    by (simp add: accrue_def redeem_market0_def market1_def market0_def i64_sat_def)
  show "mid_price redeem_market0 = Inr (2 * RAY)"
    by (simp add: mid_price_def redeem_market0_def market1_def RAY_def checked_add_def)
  have "realize redeem_market0 (position1 700) 0 = realize (market1 700) (position1 700) 0"
    by (simp add: realize_def redeem_market0_def pending_of_position_def redist_of_market_def roll_snapshot_def)
  then show "realize redeem_market0 (position1 700) 0 = Inr (position1 700)" using open0(3) [of 700] by simp
  show "reweight redeem_market0 (position1 700) 350000 = Inr redeem_market0"
    by (simp add: reweight_Inr redeem_market0_def scenario_defs)
  show "set_stake redeem_market0 (position1 700) = Inr (redeem_market0, position1 700)"
    by (simp add: set_stake_def compute_stake_def redeem_market0_def scenario_defs checked_sub_def checked_add_def)
qed

lemma redeem_admit0:
  "redeem_admit 0 1 (Some 50) (redeem_market0, redeem_store (position1 700), [], []) 4 =
     Inr (redeem_market0, redeem_store (position1 700), [4], [(4, 1000, 700)])"
proof -
  have "redeem_store (position1 700) 4 = PositionAccount (position1 700)"
    "(redeem_store (position1 700))(4 := PositionAccount (position1 700)) = redeem_store (position1 700)"
    by (simp_all add: redeem_store_def)
  then show ?thesis
    using open0(1) [of 700] by (simp add: redeem_admit_def redeem_market0_open position1_sel) (simp add: position1_def)
qed

lemma redeem_draw0:
  "redeem_draw (2 * RAY) (redeem_market0, redeem_store (position1 700), bitmap50, 200, 0) (4, 1000, 700) =
     Inr (redeem_market1, redeem_store redeem_position1, bitmap50, 0, 100)"
proof -
  let ?q = "set_ink ((position1 700)\<lparr> p_recorded_debt := 500 \<rparr>) 900"
  have s: "redeem_store (position1 700) 4 = PositionAccount (position1 700)"
    "(redeem_store (position1 700))(4 := PositionAccount p) = redeem_store p" for p
    by (simp_all add: redeem_store_def)
  have a: "redeem_amount (2 * RAY) 200 (position1 700) = Inr 200" "redeem_collateral (2 * RAY) 200 (position1 700) = Inr 100"
    by (simp_all add: redeem_amount_def redeem_collateral_def position1_sel ray_mul_def mul_div_floor_def wide_mul_div_eq is_u128_def RAY_def)
  have r: "reweight (redeem_market0\<lparr> m_agg_recorded_debt := 500, m_total_collateral := 900 \<rparr>) ?q 350000 =
      Inr (redeem_market0\<lparr> m_agg_recorded_debt := 500, m_total_collateral := 900, m_agg_weighted_debt_sum := 250000 \<rparr>)"
    by (simp add: reweight_Inr redeem_market0_def scenario_defs)
  have k: "set_stake (redeem_market0\<lparr> m_agg_recorded_debt := 500, m_total_collateral := 900, m_agg_weighted_debt_sum := 250000 \<rparr>) ?q =
      Inr (redeem_market1, redeem_position1)"
    by (simp add: set_stake_def compute_stake_def redeem_market1_def redeem_position1_def redeem_market0_def scenario_defs
        checked_sub_def checked_add_def)
  have c: "reconcile bitmap50 redeem_market1 redeem_position1 700 = Inr (bitmap50, redeem_position1)"
    by (rule reconcile_bitmap50) (simp_all add: redeem_market1_def redeem_position1_def redeem_market0_def scenario_defs)
  have p: "redeem_apply 200 100 350000 700 redeem_market0 (position1 700) bitmap50 = Inr (redeem_market1, redeem_position1, bitmap50, 200)"
    unfolding redeem_apply_def
    by (simp add: st_redeem_step_def u128_num_def checked_sub_def sub_or_panic_def position1_sel redeem_market0_sel r k c Let_def)
  show ?thesis
    using open0(1) [of 700] by (simp add: redeem_draw_def s a p position1_sel checked_add_def sub_or_panic_def checked_sub_def)
qed

lemma redeem_first: "first_set (bm_words bitmap50) = Some 50"
proof -
  have "first_set [2 ^ 50, 0, 0, 0 :: 64 word] = Some 50" by code_simp
  then show ?thesis by (simp add: bitmap50_def)
qed

lemma redeem0:
  "redeem_handler word256 ledger_runtime clock0 redeem_accounts0 [4] 200 (redeem_ledger0 1000 700 0) redeem_market0 bitmap50
     (redeem_store (position1 700)) = Inr (redeem_ledger0 900 500 100, redeem_market1, bitmap50, redeem_store redeem_position1)"
proof -
  have c: "redeem_constraints ledger_runtime redeem_accounts0 (redeem_ledger0 1000 700 0) redeem_market0 = Inr ()"
    by (simp add: redeem_constraints_def redeem_accounts0_def redeem_ledger0_def ledger_runtime_def redeem_market0_sel)
  note f = redeem_first
  have s: "sort_by (cmp_candidate word256) [(4, 1000, 700)] = [(4, 1000, 700)]" by (simp add: sort_by_def)
  have b: "redeem_base_rate 0 0 200 700 redeem_market1 = (redeem_market1, 0)"
    by (simp add: redeem_base_rate_def redeem_market1_def redeem_market0_sel)
  have e: "redeem_fee 0 100 redeem_market1 = Inr (redeem_market1, 100)"
    by (simp add: redeem_fee_def effective_fee_bps_def redeem_market1_def redeem_market0_def market1_def market0_def
        MAX_REDEMPTION_FEE_BPS_def checked_mul_def checked_add_def sub_or_panic_def checked_sub_def)
  have "tk_burn ledger_runtime (redeem_ledger0 1000 700 0) 8 26 6 200 = Some (redeem_ledger0 1000 500 0)"
    "tk_transfer ledger_runtime (redeem_ledger0 1000 500 0) 2 27 3 100 = Some (redeem_ledger0 900 500 100)"
    by (simp_all add: redeem_ledger0_def ledger_runtime_def fun_eq_iff)
  moreover have "assert_collateral_vault_sufficiency ledger_runtime (redeem_ledger0 900 500 100) 2 redeem_market1 = Inr ()"
    by (simp add: assert_sufficiency_Inr tracked_collateral_def redeem_market1_def redeem_market0_def market1_def market0_def
        ledger_runtime_def redeem_ledger0_def)
  ultimately have p: "redeem_pay ledger_runtime redeem_accounts0 200 100 (redeem_ledger0 1000 700 0) redeem_market1 =
      Inr (redeem_ledger0 900 500 100)"
    by (simp add: redeem_pay_def redeem_accounts0_def)
  have m: "re_collateral_mint redeem_accounts0 = 1" by (simp add: redeem_accounts0_def)
  show ?thesis
    unfolding redeem_handler_def
    by (simp add: c clock0_def MAX_REDEMPTION_CANDIDATES_def redeem_market0_sel redeem_market0_open f m redeem_admit0 [unfolded One_nat_def] s redeem_draw0
        b e p sub_or_panic_def checked_sub_def Let_def)
qed

lemma redeem_books0: "books_ok redeem_market0 (positions_of 1 (redeem_store (position1 700))) bitmap50"
proof -
  have ps: "positions_of 1 (redeem_store (position1 700)) = [4 \<mapsto> position1 700]"
    by (simp add: positions_of_def redeem_store_def fun_eq_iff position1_sel)
  have sum: "sum_map g [4 \<mapsto> position1 700] = g (position1 700)" for g :: "position \<Rightarrow> 'a :: comm_monoid_add"
    by (simp add: sum_map_def)
  have "tally bitmap50 b = (if b = 50 then 1 else 0)" if "b \<le> ZOMBIE_BUCKET" for b
    using that by (simp add: tally_def bitmap50_def ZOMBIE_BUCKET_eq nth_list_update)
  then show ?thesis
    unfolding books_ok_def ps sum using bitmap50_ok
    by (simp add: weight_def redeem_market0_def scenario_defs checkpointed_def debt_claim_def coll_claim_def member_of_def)
qed


text \<open>The order on that run: the one redeemable candidate is drawn for the 200 tokens, below its limit of 700.\<close>

theorem redeem_order_witness:
  "\<exists>p'. redeem_store redeem_position1 4 = PositionAccount p' \<and> p_recorded_debt p' + 200 = 700 \<and> p_ink p' + 100 = 1000"
proof -
  let ?s = "redeem_store (position1 700)"
  have r: "\<forall>k p. ?s k = PositionAccount p \<longrightarrow> p_ink p < 2 ^ 64" by (auto simp: redeem_store_def position1_sel)
  obtain m1 mid q ks where e: "accrue redeem_market0 (unix_timestamp clock0) = Inr m1"
    "mid = (m_spot redeem_market0 + m_debt_spot redeem_market0) div 2" "distinct ks"
    "set ks = {k \<in> set [4]. redeemable (re_collateral_mint redeem_accounts0) (first_set (bm_words bitmap50)) ?s k}"
    "\<forall>k \<in> set ks. \<exists>p. ?s k = PositionAccount p \<and> realize m1 p (unix_timestamp clock0) = Inr (q k)"
    "\<forall>i < length ks. \<exists>p'. redeem_store redeem_position1 (ks ! i) = PositionAccount p' \<and>
        redeemed_from mid (min (redeem_limit mid (q (ks ! i))) (200 - (\<Sum>k \<leftarrow> take i ks. redeem_limit mid (q k))))
          (q (ks ! i)) p'"
    using redeem_order [OF redeem0 word256_laws r] by (elim exE conjE)
  have "redeemable 1 (first_set (bm_words bitmap50)) ?s 4"
    by (simp add: redeemable_def positions_of_def redeem_store_def position1_sel redeem_first) (simp add: position1_def)
  then have "set ks = {4}" using e(4) by (auto simp: redeem_accounts0_def)
  moreover have "length ks = 1" using distinct_card [OF e(3)] calculation by simp
  ultimately have ks: "ks = [4]" by (cases ks) auto
  have "m1 = redeem_market0" "mid = 2 * RAY"
    using e(1,2) redeem_market0_open(1) by (simp_all add: clock0_def redeem_market0_def market1_def)
  then have "q 4 = position1 700" using e(5) redeem_market0_open(3) by (simp add: ks redeem_store_def clock0_def)
  then show ?thesis
    using e(6) \<open>mid = 2 * RAY\<close> by (simp add: ks redeemed_from_def redeem_limit_def position1_sel RAY_def)
qed

theorem redeem_ignores_closed_witness:
  "redeem_handler word256 ledger_runtime clock0 redeem_accounts0 [30, 4, 31] 200 (redeem_ledger0 1000 700 0) redeem_market0 bitmap50
     (redeem_store (position1 700)) = Inr (redeem_ledger0 900 500 100, redeem_market1, bitmap50, redeem_store redeem_position1)"
proof -
  have "length [30, 4, 31 :: pubkey] \<le> MAX_REDEMPTION_CANDIDATES" by (simp add: MAX_REDEMPTION_CANDIDATES_def)
  moreover have "filter (\<lambda>k. redeem_store (position1 700) k \<noteq> ForeignAccount) [30, 4, 31] = [4]" by (simp add: redeem_store_def)
  ultimately show ?thesis
    using redeem_ignores_closed [of "[30, 4, 31]" word256 ledger_runtime clock0 redeem_accounts0 200 "redeem_ledger0 1000 700 0"
        redeem_market0 bitmap50 "redeem_store (position1 700)"] redeem0 by simp
qed

end
