(* ===== verification/Governance.thy ===== *)
theory Governance
  imports Accrual Runtime
begin

text \<open>
  The governance gate and the timelocked parameters
  (\<^verbatim>\<open>programs/fusd-core/src/instructions/governance.rs\<close> and the parameter half of
  \<^verbatim>\<open>instructions/global_backstop.rs\<close>): clamps, relational checks, readers and setters of the
  market and of the backstop parameters, and the queue / execute / cancel handlers of both. The
  locale \<open>tunables\<close> is the contract of a clamped parameter store; it is interpreted for the
  market with its oracle and for the backstop. The timelock is a step relation over the gate, the
  queued operations and a log, with the invariant that nothing is applied before its delay.
\<close>

subsection \<open>Casts\<close>

definition as_u16 :: "nat \<Rightarrow> nat" where "as_u16 v = v mod 2 ^ 16"

definition as_i64 :: "nat \<Rightarrow> int" where
  "as_i64 v = (let r = v mod 2 ^ 64 in if r < 2 ^ 63 then int r else int r - 2 ^ 64)"

definition i64_as_u64 :: "int \<Rightarrow> nat" where "i64_as_u64 x = nat (x mod 2 ^ 64)"

lemma as_u16_small [simp]: "v < 65536 \<Longrightarrow> as_u16 v = v"
  by (simp add: as_u16_def)

lemma as_i64_small [simp]: "v < 2 ^ 63 \<Longrightarrow> as_i64 v = int v"
  by (simp add: as_i64_def Let_def)

lemma i64_as_u64_int [simp]: "v < 2 ^ 64 \<Longrightarrow> i64_as_u64 (int v) = v"
  by (simp add: i64_as_u64_def nat_eq_iff of_nat_less_numeral_power_cancel_iff)

subsection \<open>Market parameters\<close>

fun validate_param :: "market_param \<Rightarrow> nat \<Rightarrow> unit res" where
  "validate_param PMcr v = require (v \<ge> MIN_MCR_BPS \<and> v \<le> MAX_MCR_BPS) ParamOutOfBounds"
| "validate_param PDebtCeiling v = Inr ()"
| "validate_param PRedemptionFee v = require (v \<le> MAX_REDEMPTION_FEE_BPS) ParamOutOfBounds"
| "validate_param PLiqGasComp v = require (v \<le> MAX_LIQ_GAS_COMP_BPS) ParamOutOfBounds"
| "validate_param PRateLimitCap v = Inr ()"
| "validate_param PCcr v = require (v = 0 \<or> v \<ge> MIN_CCR_BPS \<and> v \<le> MAX_CCR_BPS) ParamOutOfBounds"
| "validate_param PLiqBonus v = require (v \<le> MAX_LIQ_BONUS_BPS) ParamOutOfBounds"
| "validate_param PMinDebt v = require (v \<le> MAX_MIN_DEBT) ParamOutOfBounds"
| "validate_param PRateAdjustCooldown v = require (v \<le> nat MAX_RATE_ADJUST_COOLDOWN_SECS) ParamOutOfBounds"
| "validate_param PKeeperReward v = require (v \<le> MAX_KEEPER_REWARD_BPS) ParamOutOfBounds"
| "validate_param PBorrowFee v = require (v \<le> MAX_BORROW_FEE_BPS) ParamOutOfBounds"
| "validate_param PBadDebtPaydown v = require (v \<le> MAX_BAD_DEBT_PAYDOWN_BPS) ParamOutOfBounds"
| "validate_param PRedemptionBaseRateMax v = require (v \<le> MAX_REDEMPTION_BASE_RATE_BPS) ParamOutOfBounds"
| "validate_param POracleMaxConf v = require (v > 0 \<and> v \<le> MAX_ORACLE_CONF_BPS) ParamOutOfBounds"
| "validate_param POracleMaxDeviation v = require (v > 0 \<and> v \<le> MAX_ORACLE_DEVIATION_BPS) ParamOutOfBounds"
| "validate_param POracleTwapDivergence v = require (v > 0 \<and> v \<le> MAX_TWAP_DIVERGENCE_BPS) ParamOutOfBounds"
| "validate_param POracleLiqDivergence v = require (v \<le> MAX_LIQ_DIVERGENCE_BPS) ParamOutOfBounds"
| "validate_param POracleMaxAge v = require (v > 0 \<and> v \<le> nat MAX_ORACLE_MAX_AGE_SECS) ParamOutOfBounds"
| "validate_param POracleK v = require (v \<ge> MIN_ORACLE_K_BPS \<and> v \<le> MAX_ORACLE_K_BPS) ParamOutOfBounds"
| "validate_param POracleTwapStaleness v = require (v > 0 \<and> v \<le> nat MAX_TWAP_STALENESS_SECS) ParamOutOfBounds"
| "validate_param PScr v = require (v \<ge> MIN_SCR_BPS \<and> v \<le> MAX_SCR_BPS) ParamOutOfBounds"

definition param_targets_oracle :: "market_param \<Rightarrow> bool" where
  "param_targets_oracle param \<longleftrightarrow>
     param \<in> {POracleMaxConf, POracleMaxDeviation, POracleTwapDivergence, POracleLiqDivergence,
              POracleMaxAge, POracleK, POracleTwapStaleness}"

definition validate_market_config :: "nat \<Rightarrow> nat \<Rightarrow> nat \<Rightarrow> nat \<Rightarrow> unit res" where
  "validate_market_config mcr_bps scr_bps liq_bonus_bps liq_gas_comp_bps =
     bindR (require (liq_bonus_bps = 0 \<or> 10000 + liq_bonus_bps \<le> mcr_bps) CollarExceedsMcr) (\<lambda>_.
     let seizable_bps = (if liq_bonus_bps = 0 then mcr_bps else min (10000 + liq_bonus_bps) mcr_bps) in
     bindR (require (seizable_bps * (10000 - liq_gas_comp_bps) \<ge> 100000000) ParamCombinationInvalid) (\<lambda>_.
     require (mcr_bps \<ge> scr_bps) ParamCombinationInvalid))"

fun current_param :: "market \<Rightarrow> market_oracle option \<Rightarrow> market_param \<Rightarrow> nat" where
  "current_param m oracle PMcr = m_mcr_bps m"
| "current_param m oracle PDebtCeiling = m_debt_ceiling m"
| "current_param m oracle PRedemptionFee = m_redemption_fee_bps m"
| "current_param m oracle PLiqGasComp = m_liq_gas_comp_bps m"
| "current_param m oracle PRateLimitCap = m_rl_cap m"
| "current_param m oracle PCcr = m_ccr_bps m"
| "current_param m oracle PLiqBonus = m_liq_bonus_bps m"
| "current_param m oracle PMinDebt = m_min_debt m"
| "current_param m oracle PRateAdjustCooldown = i64_as_u64 (m_rate_adjust_cooldown_secs m)"
| "current_param m oracle PKeeperReward = m_keeper_reward_bps m"
| "current_param m oracle PBorrowFee = m_borrow_fee_bps m"
| "current_param m oracle PBadDebtPaydown = m_bad_debt_paydown_bps m"
| "current_param m oracle PRedemptionBaseRateMax = m_redemption_base_rate_max_bps m"
| "current_param m oracle PScr = m_scr_bps m"
| "current_param m oracle POracleMaxConf = (case oracle of None \<Rightarrow> 0 | Some o1 \<Rightarrow> mo_max_conf_bps o1)"
| "current_param m oracle POracleMaxDeviation = (case oracle of None \<Rightarrow> 0 | Some o1 \<Rightarrow> mo_max_deviation_bps o1)"
| "current_param m oracle POracleTwapDivergence = (case oracle of None \<Rightarrow> 0 | Some o1 \<Rightarrow> mo_twap_max_divergence_bps o1)"
| "current_param m oracle POracleLiqDivergence = (case oracle of None \<Rightarrow> 0 | Some o1 \<Rightarrow> mo_liq_max_divergence_bps o1)"
| "current_param m oracle POracleMaxAge = (case oracle of None \<Rightarrow> 0 | Some o1 \<Rightarrow> i64_as_u64 (mo_max_age_secs o1))"
| "current_param m oracle POracleK = (case oracle of None \<Rightarrow> 0 | Some o1 \<Rightarrow> mo_k_bps o1)"
| "current_param m oracle POracleTwapStaleness =
     (case oracle of None \<Rightarrow> 0 | Some o1 \<Rightarrow> i64_as_u64 (mo_twap_max_staleness_secs o1))"

definition validate_param_for_market :: "market \<Rightarrow> market_oracle option \<Rightarrow> market_param \<Rightarrow> nat \<Rightarrow> unit res" where
  "validate_param_for_market m oracle param value =
     bindR (validate_param param value) (\<lambda>_.
     bindR (if param_targets_oracle param then require (oracle \<noteq> None) ParamCombinationInvalid else Inr ()) (\<lambda>_.
     case param of
       PMcr \<Rightarrow> validate_market_config value (m_scr_bps m) (m_liq_bonus_bps m) (m_liq_gas_comp_bps m)
     | PScr \<Rightarrow> validate_market_config (m_mcr_bps m) value (m_liq_bonus_bps m) (m_liq_gas_comp_bps m)
     | PLiqBonus \<Rightarrow> validate_market_config (m_mcr_bps m) (m_scr_bps m) value (m_liq_gas_comp_bps m)
     | PLiqGasComp \<Rightarrow> validate_market_config (m_mcr_bps m) (m_scr_bps m) (m_liq_bonus_bps m) value
     | POracleTwapDivergence \<Rightarrow>
         let liq = (case oracle of None \<Rightarrow> 2 ^ 64 - 1 | Some o1 \<Rightarrow> mo_liq_max_divergence_bps o1) in
         require (liq = 0 \<or> liq \<ge> value) ParamCombinationInvalid
     | POracleMaxDeviation \<Rightarrow>
         let liq = (case oracle of None \<Rightarrow> 2 ^ 64 - 1 | Some o1 \<Rightarrow> mo_liq_max_divergence_bps o1) in
         require (liq = 0 \<or> liq \<ge> value) ParamCombinationInvalid
     | POracleLiqDivergence \<Rightarrow>
         let twap = (case oracle of None \<Rightarrow> 0 | Some o1 \<Rightarrow> mo_twap_max_divergence_bps o1);
             dev = (case oracle of None \<Rightarrow> 0 | Some o1 \<Rightarrow> mo_max_deviation_bps o1) in
         require (value = 0 \<or> value \<ge> twap \<and> value \<ge> dev) ParamCombinationInvalid
     | _ \<Rightarrow> Inr ()))"

fun apply_param :: "market \<Rightarrow> market_oracle option \<Rightarrow> market_param \<Rightarrow> nat \<Rightarrow> market \<times> market_oracle option" where
  "apply_param m oracle PMcr v = (m\<lparr> m_mcr_bps := as_u16 v \<rparr>, oracle)"
| "apply_param m oracle PDebtCeiling v = (m\<lparr> m_debt_ceiling := v \<rparr>, oracle)"
| "apply_param m oracle PRedemptionFee v = (m\<lparr> m_redemption_fee_bps := as_u16 v \<rparr>, oracle)"
| "apply_param m oracle PLiqGasComp v = (m\<lparr> m_liq_gas_comp_bps := as_u16 v \<rparr>, oracle)"
| "apply_param m oracle PRateLimitCap v = (m\<lparr> m_rl_cap := v, m_rl_accrued := min (m_rl_accrued m) v \<rparr>, oracle)"
| "apply_param m oracle PCcr v = (m\<lparr> m_ccr_bps := as_u16 v \<rparr>, oracle)"
| "apply_param m oracle PLiqBonus v = (m\<lparr> m_liq_bonus_bps := as_u16 v \<rparr>, oracle)"
| "apply_param m oracle PMinDebt v = (m\<lparr> m_min_debt := v \<rparr>, oracle)"
| "apply_param m oracle PRateAdjustCooldown v = (m\<lparr> m_rate_adjust_cooldown_secs := as_i64 v \<rparr>, oracle)"
| "apply_param m oracle PKeeperReward v = (m\<lparr> m_keeper_reward_bps := as_u16 v \<rparr>, oracle)"
| "apply_param m oracle PBorrowFee v = (m\<lparr> m_borrow_fee_bps := as_u16 v \<rparr>, oracle)"
| "apply_param m oracle PBadDebtPaydown v = (m\<lparr> m_bad_debt_paydown_bps := as_u16 v \<rparr>, oracle)"
| "apply_param m oracle PRedemptionBaseRateMax v = (m\<lparr> m_redemption_base_rate_max_bps := as_u16 v \<rparr>, oracle)"
| "apply_param m oracle PScr v = (m\<lparr> m_scr_bps := as_u16 v \<rparr>, oracle)"
| "apply_param m oracle POracleMaxConf v = (m, map_option (\<lambda>o1. o1\<lparr> mo_max_conf_bps := as_u16 v \<rparr>) oracle)"
| "apply_param m oracle POracleMaxDeviation v = (m, map_option (\<lambda>o1. o1\<lparr> mo_max_deviation_bps := as_u16 v \<rparr>) oracle)"
| "apply_param m oracle POracleTwapDivergence v = (m, map_option (\<lambda>o1. o1\<lparr> mo_twap_max_divergence_bps := as_u16 v \<rparr>) oracle)"
| "apply_param m oracle POracleLiqDivergence v = (m, map_option (\<lambda>o1. o1\<lparr> mo_liq_max_divergence_bps := as_u16 v \<rparr>) oracle)"
| "apply_param m oracle POracleMaxAge v = (m, map_option (\<lambda>o1. o1\<lparr> mo_max_age_secs := as_i64 v \<rparr>) oracle)"
| "apply_param m oracle POracleK v = (m, map_option (\<lambda>o1. o1\<lparr> mo_k_bps := as_u16 v \<rparr>) oracle)"
| "apply_param m oracle POracleTwapStaleness v = (m, map_option (\<lambda>o1. o1\<lparr> mo_twap_max_staleness_secs := as_i64 v \<rparr>) oracle)"

subsection \<open>Backstop parameters\<close>

fun validate_global_param :: "global_param \<Rightarrow> nat \<Rightarrow> unit res" where
  "validate_global_param GCut v = require (v \<le> MAX_BACKSTOP_CUT_BPS) ParamOutOfBounds"
| "validate_global_param GReserveCap v = Inr ()"
| "validate_global_param GDrawBase v = Inr ()"
| "validate_global_param GDrawK v = require (v \<le> MAX_BACKSTOP_DRAW_K_BPS) ParamOutOfBounds"
| "validate_global_param GDrawCeilingShare v = require (v \<le> MAX_BACKSTOP_DRAW_CEILING_SHARE_BPS) ParamOutOfBounds"
| "validate_global_param GDrawDebtShare v = require (v \<le> MAX_BACKSTOP_DRAW_DEBT_SHARE_BPS) ParamOutOfBounds"

fun current_global_param :: "global_backstop_reserve \<Rightarrow> global_param \<Rightarrow> nat" where
  "current_global_param b GCut = gb_cut_bps b"
| "current_global_param b GReserveCap = gb_reserve_cap b"
| "current_global_param b GDrawBase = gb_draw_base_allowance b"
| "current_global_param b GDrawK = gb_draw_k_bps b"
| "current_global_param b GDrawCeilingShare = gb_draw_ceiling_share_bps b"
| "current_global_param b GDrawDebtShare = gb_draw_debt_share_bps b"

fun apply_global_param :: "global_backstop_reserve \<Rightarrow> global_param \<Rightarrow> nat \<Rightarrow> global_backstop_reserve" where
  "apply_global_param b GCut v = b\<lparr> gb_cut_bps := as_u16 v \<rparr>"
| "apply_global_param b GReserveCap v = b\<lparr> gb_reserve_cap := v \<rparr>"
| "apply_global_param b GDrawBase v = b\<lparr> gb_draw_base_allowance := v \<rparr>"
| "apply_global_param b GDrawK v = b\<lparr> gb_draw_k_bps := v \<rparr>"
| "apply_global_param b GDrawCeilingShare v = b\<lparr> gb_draw_ceiling_share_bps := as_u16 v \<rparr>"
| "apply_global_param b GDrawDebtShare v = b\<lparr> gb_draw_debt_share_bps := as_u16 v \<rparr>"

subsection \<open>Handlers\<close>

text \<open>The accounts of the governance instructions; \<open>ga_market\<close> is the address of the market passed in,
  \<open>ga_op\<close> the address of the queued operation.\<close>

record gov_accounts =
  ga_signer :: pubkey
  ga_market :: pubkey
  ga_gate :: pubkey
  ga_op :: pubkey

text \<open>\<open>Pubkey::default()\<close>.\<close>

abbreviation (input) default_key :: pubkey where "default_key \<equiv> 0"

definition init_gate_handler :: "'l runtime \<Rightarrow> gov_accounts \<Rightarrow> pubkey \<Rightarrow> int \<Rightarrow> 'l \<Rightarrow> protocol_config \<Rightarrow> ('l \<times> governance_gate) res" where
  "init_gate_handler T A inbound_authority timelock_secs l cfg =
     bindR (cpi (sys_create T l (ga_signer A) (ga_gate A))) (\<lambda>l.
     bindR (require (ga_signer A = cfg_gov_authority cfg) Unauthorized) (\<lambda>_.
     bindR (require (inbound_authority \<noteq> default_key) ParamOutOfBounds) (\<lambda>_.
     bindR (require (timelock_secs \<ge> MIN_GOV_TIMELOCK_SECS \<and> timelock_secs \<le> MAX_GOV_TIMELOCK_SECS) ParamOutOfBounds) (\<lambda>_.
     Inr (l, \<lparr> gg_inbound_authority = inbound_authority, gg_pending_inbound_authority = default_key,
               gg_timelock_secs = timelock_secs, gg_queue_nonce = 0 \<rparr>)))))"

definition migrate_authority_handler :: "gov_accounts \<Rightarrow> pubkey \<Rightarrow> governance_gate \<Rightarrow> governance_gate res" where
  "migrate_authority_handler A new_authority g =
     bindR (require (ga_signer A = gg_inbound_authority g) Unauthorized) (\<lambda>_.
     Inr (g\<lparr> gg_pending_inbound_authority := new_authority \<rparr>))"

definition accept_authority_handler :: "gov_accounts \<Rightarrow> governance_gate \<Rightarrow> governance_gate res" where
  "accept_authority_handler A g =
     bindR (require (gg_pending_inbound_authority g \<noteq> default_key) NoPendingAuthority) (\<lambda>_.
     bindR (require (ga_signer A = gg_pending_inbound_authority g) Unauthorized) (\<lambda>_.
     Inr (g\<lparr> gg_inbound_authority := gg_pending_inbound_authority g, gg_pending_inbound_authority := default_key \<rparr>)))"

definition queue_param_handler ::
    "'l runtime \<Rightarrow> clock \<Rightarrow> gov_accounts \<Rightarrow> market_param \<Rightarrow> nat \<Rightarrow> 'l \<Rightarrow> governance_gate \<Rightarrow> market \<Rightarrow> market_oracle option \<Rightarrow>
     ('l \<times> governance_gate \<times> timelocked_param) res" where
  "queue_param_handler T clk A param value l g m oracle =
     bindR (cpi (sys_create T l (ga_signer A) (ga_op A))) (\<lambda>l.
     bindR (require (ga_signer A = gg_inbound_authority g) Unauthorized) (\<lambda>_.
     bindR (validate_param_for_market m oracle param value) (\<lambda>_.
     let now = unix_timestamp clk;
         op = \<lparr> tp_nonce = gg_queue_nonce g, tp_eta = i64_sat (now + gg_timelock_secs g), tp_market = ga_market A,
                tp_param = param, tp_value = value \<rparr> in
     bindR (math (checked_add 64 (gg_queue_nonce g) 1)) (\<lambda>nonce.
     Inr (l, g\<lparr> gg_queue_nonce := nonce \<rparr>, op)))))"

definition execute_param_handler ::
    "'l runtime \<Rightarrow> clock \<Rightarrow> gov_accounts \<Rightarrow> 'l \<Rightarrow> timelocked_param \<Rightarrow> market \<Rightarrow> market_oracle option \<Rightarrow>
     ('l \<times> market \<times> market_oracle option) res" where
  "execute_param_handler T clk A l op m oracle =
     bindR (require (ga_market A = tp_market op) TimelockMarketMismatch) (\<lambda>_.
     bindR (require (unix_timestamp clk \<ge> tp_eta op) TimelockNotElapsed) (\<lambda>_.
     bindR (validate_param_for_market m oracle (tp_param op) (tp_value op)) (\<lambda>_.
     let m = (if tp_param op = PMcr \<and> as_u16 (tp_value op) > m_mcr_bps m
              then m\<lparr> m_liq_grace_until :=
                       max (m_liq_grace_until m) (saturating_add 64 (clock_slot clk) MCR_RAISE_GRACE_SLOTS) \<rparr>
              else m);
         (m, oracle) = apply_param m oracle (tp_param op) (tp_value op) in
     Inr (sys_close T l (ga_op A) (ga_signer A), m, oracle))))"

definition cancel_param_handler :: "'l runtime \<Rightarrow> gov_accounts \<Rightarrow> 'l \<Rightarrow> governance_gate \<Rightarrow> 'l res" where
  "cancel_param_handler T A l g =
     bindR (require (ga_signer A = gg_inbound_authority g) Unauthorized) (\<lambda>_.
     Inr (sys_close T l (ga_op A) (ga_signer A)))"

definition queue_global_handler ::
    "'l runtime \<Rightarrow> clock \<Rightarrow> gov_accounts \<Rightarrow> global_param \<Rightarrow> nat \<Rightarrow> 'l \<Rightarrow> governance_gate \<Rightarrow>
     ('l \<times> governance_gate \<times> timelocked_global_param) res" where
  "queue_global_handler T clk A param value l g =
     bindR (cpi (sys_create T l (ga_signer A) (ga_op A))) (\<lambda>l.
     bindR (require (ga_signer A = gg_inbound_authority g) Unauthorized) (\<lambda>_.
     bindR (validate_global_param param value) (\<lambda>_.
     let now = unix_timestamp clk;
         op = \<lparr> tg_nonce = gg_queue_nonce g, tg_eta = i64_sat (now + gg_timelock_secs g), tg_param = param, tg_value = value \<rparr> in
     bindR (math (checked_add 64 (gg_queue_nonce g) 1)) (\<lambda>nonce.
     Inr (l, g\<lparr> gg_queue_nonce := nonce \<rparr>, op)))))"

definition execute_global_handler ::
    "'l runtime \<Rightarrow> clock \<Rightarrow> gov_accounts \<Rightarrow> 'l \<Rightarrow> timelocked_global_param \<Rightarrow> global_backstop_reserve \<Rightarrow>
     ('l \<times> global_backstop_reserve) res" where
  "execute_global_handler T clk A l op bs =
     bindR (require (unix_timestamp clk \<ge> tg_eta op) TimelockNotElapsed) (\<lambda>_.
     bindR (validate_global_param (tg_param op) (tg_value op)) (\<lambda>_.
     Inr (sys_close T l (ga_op A) (ga_signer A), apply_global_param bs (tg_param op) (tg_value op))))"

definition cancel_global_handler :: "'l runtime \<Rightarrow> gov_accounts \<Rightarrow> 'l \<Rightarrow> governance_gate \<Rightarrow> 'l res" where
  "cancel_global_handler T A l g =
     bindR (require (ga_signer A = gg_inbound_authority g) Unauthorized) (\<lambda>_.
     Inr (sys_close T l (ga_op A) (ga_signer A)))"

subsection \<open>Well-formed configurations\<close>

definition config_ok :: "market \<Rightarrow> bool" where
  "config_ok m \<longleftrightarrow> m_mcr_bps m \<in> {MIN_MCR_BPS..MAX_MCR_BPS} \<and> m_scr_bps m \<in> {MIN_SCR_BPS..MAX_SCR_BPS} \<and>
     m_scr_bps m \<le> m_mcr_bps m \<and> m_liq_bonus_bps m \<le> MAX_LIQ_BONUS_BPS \<and> m_liq_gas_comp_bps m \<le> MAX_LIQ_GAS_COMP_BPS \<and>
     (m_liq_bonus_bps m = 0 \<or> 10000 + m_liq_bonus_bps m \<le> m_mcr_bps m) \<and>
     100000000 \<le> (if m_liq_bonus_bps m = 0 then m_mcr_bps m else 10000 + m_liq_bonus_bps m) * (10000 - m_liq_gas_comp_bps m) \<and>
     m_redemption_fee_bps m \<le> MAX_REDEMPTION_FEE_BPS \<and> m_redemption_base_rate_max_bps m \<le> MAX_REDEMPTION_BASE_RATE_BPS \<and>
     (m_ccr_bps m = 0 \<or> m_ccr_bps m \<in> {MIN_CCR_BPS..MAX_CCR_BPS}) \<and> m_min_debt m \<le> MAX_MIN_DEBT \<and>
     m_rate_adjust_cooldown_secs m \<in> {0..MAX_RATE_ADJUST_COOLDOWN_SECS} \<and> m_keeper_reward_bps m \<le> MAX_KEEPER_REWARD_BPS \<and>
     m_borrow_fee_bps m \<le> MAX_BORROW_FEE_BPS \<and> m_bad_debt_paydown_bps m \<le> MAX_BAD_DEBT_PAYDOWN_BPS \<and>
     m_rl_accrued m \<le> m_rl_cap m"

definition oracle_cfg_ok :: "market_oracle \<Rightarrow> bool" where
  "oracle_cfg_ok o1 \<longleftrightarrow> mo_max_conf_bps o1 \<in> {1..MAX_ORACLE_CONF_BPS} \<and> mo_max_deviation_bps o1 \<in> {1..MAX_ORACLE_DEVIATION_BPS} \<and>
     mo_twap_max_divergence_bps o1 \<in> {1..MAX_TWAP_DIVERGENCE_BPS} \<and> mo_liq_max_divergence_bps o1 \<le> MAX_LIQ_DIVERGENCE_BPS \<and>
     mo_max_age_secs o1 \<in> {1..MAX_ORACLE_MAX_AGE_SECS} \<and> mo_k_bps o1 \<in> {MIN_ORACLE_K_BPS..MAX_ORACLE_K_BPS} \<and>
     mo_twap_max_staleness_secs o1 \<in> {1..MAX_TWAP_STALENESS_SECS} \<and>
     (mo_liq_max_divergence_bps o1 = 0 \<or>
      mo_twap_max_divergence_bps o1 \<le> mo_liq_max_divergence_bps o1 \<and> mo_max_deviation_bps o1 \<le> mo_liq_max_divergence_bps o1)"

definition market_cfg_ok :: "market \<times> market_oracle option \<Rightarrow> bool" where
  "market_cfg_ok s \<longleftrightarrow> config_ok (fst s) \<and> (case snd s of None \<Rightarrow> True | Some o1 \<Rightarrow> oracle_cfg_ok o1)"

definition global_cfg_ok :: "global_backstop_reserve \<Rightarrow> bool" where
  "global_cfg_ok b \<longleftrightarrow> gb_cut_bps b \<le> MAX_BACKSTOP_CUT_BPS \<and> gb_draw_k_bps b \<le> MAX_BACKSTOP_DRAW_K_BPS \<and>
     gb_draw_ceiling_share_bps b \<le> MAX_BACKSTOP_DRAW_CEILING_SHARE_BPS \<and>
     gb_draw_debt_share_bps b \<le> MAX_BACKSTOP_DRAW_DEBT_SHARE_BPS"

lemmas param_clamps = MIN_MCR_BPS_def MAX_MCR_BPS_def MIN_SCR_BPS_def MAX_SCR_BPS_def MAX_LIQ_BONUS_BPS_def
  MAX_LIQ_GAS_COMP_BPS_def MAX_REDEMPTION_FEE_BPS_def MAX_REDEMPTION_BASE_RATE_BPS_def MIN_CCR_BPS_def MAX_CCR_BPS_def
  MAX_MIN_DEBT_def MAX_RATE_ADJUST_COOLDOWN_SECS_def MAX_KEEPER_REWARD_BPS_def MAX_BORROW_FEE_BPS_def
  MAX_BAD_DEBT_PAYDOWN_BPS_def MAX_ORACLE_CONF_BPS_def MAX_ORACLE_DEVIATION_BPS_def MAX_TWAP_DIVERGENCE_BPS_def
  MAX_LIQ_DIVERGENCE_BPS_def MAX_ORACLE_MAX_AGE_SECS_def MIN_ORACLE_K_BPS_def MAX_ORACLE_K_BPS_def MAX_TWAP_STALENESS_SECS_def
  MAX_BACKSTOP_CUT_BPS_def MAX_BACKSTOP_DRAW_K_BPS_def MAX_BACKSTOP_DRAW_CEILING_SHARE_BPS_def MAX_BACKSTOP_DRAW_DEBT_SHARE_BPS_def

subsection \<open>The contract of a clamped parameter store\<close>

text \<open>The outcome of a list of proposed changes, where a change the store does not admit is dropped.\<close>

fun run_changes :: "('s \<Rightarrow> 'p \<Rightarrow> nat \<Rightarrow> bool) \<Rightarrow> ('s \<Rightarrow> 'p \<Rightarrow> nat \<Rightarrow> 's) \<Rightarrow> 's \<Rightarrow> ('p \<times> nat) list \<Rightarrow> 's" where
  "run_changes admits put s [] = s"
| "run_changes admits put s ((p, v) # cs) = run_changes admits put (if admits s p v then put s p v else s) cs"

locale tunables =
  fixes ok :: "'s \<Rightarrow> bool" and admits :: "'s \<Rightarrow> 'p \<Rightarrow> nat \<Rightarrow> bool" and put :: "'s \<Rightarrow> 'p \<Rightarrow> nat \<Rightarrow> 's" and get :: "'s \<Rightarrow> 'p \<Rightarrow> nat"
  assumes get_put: "admits s p v \<Longrightarrow> get (put s p v) p = v"
    and get_other: "q \<noteq> p \<Longrightarrow> get (put s p v) q = get s q"
    and ok_put: "ok s \<Longrightarrow> admits s p v \<Longrightarrow> ok (put s p v)"
begin

lemma run_ok: "ok s \<Longrightarrow> ok (run_changes admits put s cs)"
  by (induction cs arbitrary: s) (auto simp: ok_put)

lemma run_unchanged: "p \<notin> fst ` set cs \<Longrightarrow> get (run_changes admits put s cs) p = get s p"
  by (induction cs arbitrary: s) (auto simp: get_other)

lemma run_last:
  assumes "admits (run_changes admits put s cs) p v"
  shows "get (run_changes admits put s (cs @ [(p, v)])) p = v"
  using assms by (induction cs arbitrary: s) (auto simp: get_put)

lemma run_values: "get (run_changes admits put s cs) p = get s p \<or> (p, get (run_changes admits put s cs) p) \<in> set cs"
proof (induction cs arbitrary: s)
  case (Cons c cs)
  obtain q v where c: "c = (q, v)" by (cases c)
  show ?case using Cons.IH [of "if admits s q v then put s q v else s"] get_put [of s p v] get_other [of p q s v]
    by (cases "p = q") (auto simp: c)
qed simp

end

definition market_admits :: "market \<times> market_oracle option \<Rightarrow> market_param \<Rightarrow> nat \<Rightarrow> bool" where
  "market_admits s p v \<longleftrightarrow> v < 2 ^ 64 \<and> validate_param_for_market (fst s) (snd s) p v = Inr ()"

definition market_put :: "market \<times> market_oracle option \<Rightarrow> market_param \<Rightarrow> nat \<Rightarrow> market \<times> market_oracle option" where
  "market_put s p v = apply_param (fst s) (snd s) p v"

definition market_get :: "market \<times> market_oracle option \<Rightarrow> market_param \<Rightarrow> nat" where
  "market_get s p = current_param (fst s) (snd s) p"

definition global_admits :: "global_backstop_reserve \<Rightarrow> global_param \<Rightarrow> nat \<Rightarrow> bool" where
  "global_admits b p v \<longleftrightarrow> validate_global_param p v = Inr ()"

lemma validate_param_Inr:
  assumes "validate_param_for_market m oracle p v = Inr ()"
  shows "validate_param p v = Inr ()" "param_targets_oracle p \<Longrightarrow> \<exists>o1. oracle = Some o1"
  using assms unfolding validate_param_for_market_def by (auto simp: bindR_Inr ensure_Inr split: if_splits)

lemma market_get_put:
  assumes "market_admits s p v"
  shows "market_get (market_put s p v) p = v"
  using assms validate_param_Inr [of "fst s" "snd s" p v]
  by (cases p) (auto simp: market_admits_def market_get_def market_put_def ensure_Inr param_targets_oracle_def param_clamps)

lemma market_get_other: "q \<noteq> p \<Longrightarrow> market_get (market_put s p v) q = market_get s q"
  by (cases p; cases q) (simp_all add: market_get_def market_put_def split: option.splits)

lemma validate_config_Inr:
  "validate_market_config mcr scr bonus gas = Inr () \<longleftrightarrow>
     (bonus = 0 \<or> 10000 + bonus \<le> mcr) \<and> 100000000 \<le> (if bonus = 0 then mcr else 10000 + bonus) * (10000 - gas) \<and> scr \<le> mcr"
  by (auto simp: validate_market_config_def Let_def bindR_Inr ensure_Inr)

lemma market_ok_put:
  assumes "market_cfg_ok s" "market_admits s p v"
  shows "market_cfg_ok (market_put s p v)"
proof (cases "param_targets_oracle p")
  case True
  then obtain o1 where o1: "snd s = Some o1" using assms(2) validate_param_Inr(2) [of "fst s" "snd s" p v] by (auto simp: market_admits_def)
  with True assms show ?thesis
    by (cases p) (auto simp: market_admits_def market_put_def market_cfg_ok_def oracle_cfg_ok_def validate_param_for_market_def
      param_targets_oracle_def bindR_Inr ensure_Inr Let_def param_clamps)
next
  case False
  with assms show ?thesis
    by (cases p) (auto simp: market_admits_def market_put_def market_cfg_ok_def config_ok_def validate_param_for_market_def
      param_targets_oracle_def bindR_Inr ensure_Inr Let_def param_clamps validate_config_Inr split: if_splits)
qed

interpretation mkt: tunables market_cfg_ok market_admits market_put market_get
  by unfold_locales (simp_all add: market_get_put market_get_other market_ok_put)

interpretation glb: tunables global_cfg_ok global_admits apply_global_param current_global_param
proof (unfold_locales, goal_cases)
  case (1 s p v) then show ?case by (cases p) (auto simp: global_admits_def ensure_Inr param_clamps)
next
  case (2 q p s v) then show ?case by (cases p; cases q) auto
next
  case (3 s p v) then show ?case by (cases p) (auto simp: global_admits_def global_cfg_ok_def ensure_Inr param_clamps)
qed

subsection \<open>The timelock as a state machine\<close>

text \<open>The governance state of a deployment with one market: the gate, the queued operations by the address of
  their account, the market with its oracle, the backstop, the clock, and a log of what has happened.\<close>

datatype change = MarketChange market_param nat | GlobalChange global_param nat

datatype gov_event =
    Queued pubkey int nat change
  | Applied int nat change
  | Cancelled pubkey nat
  | Proposed pubkey pubkey
  | Accepted pubkey

record 'l gov_state =
  gs_clock :: clock
  gs_ledger :: 'l
  gs_gate :: governance_gate
  gs_ops :: "pubkey \<rightharpoonup> timelocked_param"
  gs_global_ops :: "pubkey \<rightharpoonup> timelocked_global_param"
  gs_market :: market
  gs_oracle :: "market_oracle option"
  gs_backstop :: global_backstop_reserve
  gs_log :: "gov_event list"

definition gov_log :: "gov_event \<Rightarrow> 'l gov_state \<Rightarrow> 'l gov_state" where
  "gov_log e s = s\<lparr> gs_log := e # gs_log s \<rparr>"

text \<open>An operation account is created at an unused address, and every stored value is a \<open>u64\<close>.\<close>

inductive gov_step :: "'l runtime \<Rightarrow> 'l gov_state \<Rightarrow> 'l gov_state \<Rightarrow> bool" for T where
  queue_param: "queue_param_handler T (gs_clock s) A p v (gs_ledger s) (gs_gate s) (gs_market s) (gs_oracle s) = Inr (l, g, op) \<Longrightarrow>
    v < 2 ^ 64 \<Longrightarrow> ga_op A \<notin> dom (gs_ops s) \<union> dom (gs_global_ops s) \<Longrightarrow>
    gov_step T s (gov_log (Queued (ga_signer A) (unix_timestamp (gs_clock s)) (tp_nonce op) (MarketChange p v))
      (s\<lparr> gs_ledger := l, gs_gate := g, gs_ops := (gs_ops s)(ga_op A \<mapsto> op) \<rparr>))"
| execute_param: "gs_ops s (ga_op A) = Some op \<Longrightarrow>
    execute_param_handler T (gs_clock s) A (gs_ledger s) op (gs_market s) (gs_oracle s) = Inr (l, m, oracle) \<Longrightarrow>
    gov_step T s (gov_log (Applied (unix_timestamp (gs_clock s)) (tp_nonce op) (MarketChange (tp_param op) (tp_value op)))
      (s\<lparr> gs_ledger := l, gs_market := m, gs_oracle := oracle, gs_ops := (gs_ops s)(ga_op A := None) \<rparr>))"
| cancel_param: "gs_ops s (ga_op A) = Some op \<Longrightarrow> cancel_param_handler T A (gs_ledger s) (gs_gate s) = Inr l \<Longrightarrow>
    gov_step T s (gov_log (Cancelled (ga_signer A) (tp_nonce op))
      (s\<lparr> gs_ledger := l, gs_ops := (gs_ops s)(ga_op A := None) \<rparr>))"
| queue_global: "queue_global_handler T (gs_clock s) A q v (gs_ledger s) (gs_gate s) = Inr (l, g, gop) \<Longrightarrow>
    v < 2 ^ 64 \<Longrightarrow> ga_op A \<notin> dom (gs_ops s) \<union> dom (gs_global_ops s) \<Longrightarrow>
    gov_step T s (gov_log (Queued (ga_signer A) (unix_timestamp (gs_clock s)) (tg_nonce gop) (GlobalChange q v))
      (s\<lparr> gs_ledger := l, gs_gate := g, gs_global_ops := (gs_global_ops s)(ga_op A \<mapsto> gop) \<rparr>))"
| execute_global: "gs_global_ops s (ga_op A) = Some gop \<Longrightarrow>
    execute_global_handler T (gs_clock s) A (gs_ledger s) gop (gs_backstop s) = Inr (l, b) \<Longrightarrow>
    gov_step T s (gov_log (Applied (unix_timestamp (gs_clock s)) (tg_nonce gop) (GlobalChange (tg_param gop) (tg_value gop)))
      (s\<lparr> gs_ledger := l, gs_backstop := b, gs_global_ops := (gs_global_ops s)(ga_op A := None) \<rparr>))"
| cancel_global: "gs_global_ops s (ga_op A) = Some gop \<Longrightarrow> cancel_global_handler T A (gs_ledger s) (gs_gate s) = Inr l \<Longrightarrow>
    gov_step T s (gov_log (Cancelled (ga_signer A) (tg_nonce gop))
      (s\<lparr> gs_ledger := l, gs_global_ops := (gs_global_ops s)(ga_op A := None) \<rparr>))"
| migrate: "migrate_authority_handler A k (gs_gate s) = Inr g \<Longrightarrow>
    gov_step T s (gov_log (Proposed (ga_signer A) k) (s\<lparr> gs_gate := g \<rparr>))"
| accept: "accept_authority_handler A (gs_gate s) = Inr g \<Longrightarrow>
    gov_step T s (gov_log (Accepted (ga_signer A)) (s\<lparr> gs_gate := g \<rparr>))"
| tick: "unix_timestamp (gs_clock s) \<le> unix_timestamp clk \<Longrightarrow> unix_timestamp clk < 2 ^ 62 \<Longrightarrow>
    gov_step T s (s\<lparr> gs_clock := clk \<rparr>)"

inductive_cases gov_stepE: "gov_step T s s'"

text \<open>The state in which the gate has just been created by the handler that creates it.\<close>

definition gov_start :: "pubkey \<Rightarrow> int \<Rightarrow> 'l gov_state \<Rightarrow> bool" where
  "gov_start a d s \<longleftrightarrow> gs_gate s = \<lparr> gg_inbound_authority = a, gg_pending_inbound_authority = default_key, gg_timelock_secs = d, gg_queue_nonce = 0 \<rparr> \<and>
     d \<in> {MIN_GOV_TIMELOCK_SECS..MAX_GOV_TIMELOCK_SECS} \<and> gs_ops s = Map.empty \<and> gs_global_ops s = Map.empty \<and> gs_log s = [] \<and>
     unix_timestamp (gs_clock s) \<in> {0..<2 ^ 62} \<and> market_cfg_ok (gs_market s, gs_oracle s) \<and> global_cfg_ok (gs_backstop s)"

fun queued_nonce :: "gov_event \<Rightarrow> nat list" where
  "queued_nonce (Queued a t n c) = [n]" | "queued_nonce _ = []"

fun spent_nonce :: "gov_event \<Rightarrow> nat list" where
  "spent_nonce (Applied t n c) = [n]" | "spent_nonce (Cancelled a n) = [n]" | "spent_nonce _ = []"

definition nonces :: "(gov_event \<Rightarrow> nat list) \<Rightarrow> gov_event list \<Rightarrow> nat list" where
  "nonces f es = concat (map f es)"

lemma nonces_Cons [simp]: "nonces f (e # es) = f e @ nonces f es"
  by (simp add: nonces_def)

lemma queued_nonces: "Queued a t n c \<in> set es \<Longrightarrow> n \<in> set (nonces queued_nonce es)"
  unfolding nonces_def by force

lemma spent_nonces: "Applied t n c \<in> set es \<Longrightarrow> n \<in> set (nonces spent_nonce es)"
  unfolding nonces_def by force

text \<open>The queued operations of both kinds, by address: nonce, earliest time and change.\<close>

definition pending :: "'l gov_state \<Rightarrow> pubkey \<rightharpoonup> nat \<times> int \<times> change" where
  "pending s k = (case gs_ops s k of
       Some op \<Rightarrow> Some (tp_nonce op, tp_eta op, MarketChange (tp_param op) (tp_value op))
     | None \<Rightarrow> map_option (\<lambda>op. (tg_nonce op, tg_eta op, GlobalChange (tg_param op) (tg_value op))) (gs_global_ops s k))"

definition waiting :: "int \<Rightarrow> gov_event list \<Rightarrow> nat \<Rightarrow> int \<Rightarrow> change \<Rightarrow> bool" where
  "waiting d es n eta c \<longleftrightarrow> (\<exists>a t. Queued a t n c \<in> set es \<and> t + d \<le> eta) \<and> n \<notin> set (nonces spent_nonce es)"

text \<open>What log, queue and nonce counter agree on.\<close>

definition queue_ok :: "int \<Rightarrow> nat \<Rightarrow> gov_event list \<Rightarrow> (pubkey \<rightharpoonup> nat \<times> int \<times> change) \<Rightarrow> bool" where
  "queue_ok d N es P \<longleftrightarrow> (\<forall>n \<in> set (nonces queued_nonce es). n < N) \<and>
     set (nonces spent_nonce es) \<subseteq> set (nonces queued_nonce es) \<and>
     distinct (nonces queued_nonce es) \<and> distinct (nonces spent_nonce es) \<and>
     (\<forall>k n eta c. P k = Some (n, eta, c) \<longrightarrow> waiting d es n eta c) \<and>
     (\<forall>k k' x y. P k = Some x \<longrightarrow> P k' = Some y \<longrightarrow> fst x = fst y \<longrightarrow> k = k') \<and>
     (\<forall>t n c. Applied t n c \<in> set es \<longrightarrow> (\<exists>a t0. Queued a t0 n c \<in> set es \<and> t0 + d \<le> t))"

lemma queue_okD:
  assumes "queue_ok d N es P"
  shows "n \<in> set (nonces queued_nonce es) \<Longrightarrow> n < N" "n \<in> set (nonces spent_nonce es) \<Longrightarrow> n \<in> set (nonces queued_nonce es)"
    "distinct (nonces queued_nonce es)" "distinct (nonces spent_nonce es)"
    "P k = Some (n, eta, c) \<Longrightarrow> waiting d es n eta c" "P k = Some x \<Longrightarrow> P k' = Some y \<Longrightarrow> fst x = fst y \<Longrightarrow> k = k'"
    "Applied t n c \<in> set es \<Longrightarrow> \<exists>a t0. Queued a t0 n c \<in> set es \<and> t0 + d \<le> t"
  using assms unfolding queue_ok_def by blast+

lemma queue_okI:
  assumes "\<And>n. n \<in> set (nonces queued_nonce es) \<Longrightarrow> n < N" "\<And>n. n \<in> set (nonces spent_nonce es) \<Longrightarrow> n \<in> set (nonces queued_nonce es)"
    "distinct (nonces queued_nonce es)" "distinct (nonces spent_nonce es)"
    "\<And>k n eta c. P k = Some (n, eta, c) \<Longrightarrow> waiting d es n eta c"
    "\<And>k k' x y. P k = Some x \<Longrightarrow> P k' = Some y \<Longrightarrow> fst x = fst y \<Longrightarrow> k = k'"
    "\<And>t n c. Applied t n c \<in> set es \<Longrightarrow> \<exists>a t0. Queued a t0 n c \<in> set es \<and> t0 + d \<le> t"
  shows "queue_ok d N es P"
  using assms unfolding queue_ok_def by blast

lemma waiting_Cons: "waiting d es n eta c \<Longrightarrow> n \<notin> set (spent_nonce e) \<Longrightarrow> waiting d (e # es) n eta c"
  by (auto simp: waiting_def)

lemma pending_old: "queue_ok d N es P \<Longrightarrow> P k = Some x \<Longrightarrow> fst x < N"
  using queued_nonces by (cases x) (fastforce dest: queue_okD(5) intro: queue_okD(1) simp: waiting_def)

lemma queue_ok_queue:
  assumes q: "queue_ok d N es P" and "P k = None" "t + d \<le> eta"
  shows "queue_ok d (N + 1) (Queued a t N c # es) (P(k \<mapsto> (N, eta, c)))"
proof (rule queue_okI)
  have new: "N \<notin> set (nonces queued_nonce es)" using queue_okD(1) [OF q] by blast
  then have old: "N \<notin> set (nonces spent_nonce es)" using queue_okD(2) [OF q] by blast
  show "distinct (nonces queued_nonce (Queued a t N c # es))" using new queue_okD(3) [OF q] by simp
  show "distinct (nonces spent_nonce (Queued a t N c # es))" using queue_okD(4) [OF q] by simp
  fix n show "n \<in> set (nonces queued_nonce (Queued a t N c # es)) \<Longrightarrow> n < N + 1"
    using queue_okD(1) [OF q, of n] by auto
  show "n \<in> set (nonces spent_nonce (Queued a t N c # es)) \<Longrightarrow> n \<in> set (nonces queued_nonce (Queued a t N c # es))"
    using queue_okD(2) [OF q] by auto
  show "waiting d (Queued a t N c # es) n eta' c'" if "(P(k \<mapsto> (N, eta, c))) k' = Some (n, eta', c')" for k' eta' c'
    using that old assms(3) queue_okD(5) [OF q, of k' n eta' c']
    by (auto simp: waiting_Cons split: if_splits) (auto simp: waiting_def)
  show "k1 = k2" if "(P(k \<mapsto> (N, eta, c))) k1 = Some x" "(P(k \<mapsto> (N, eta, c))) k2 = Some y" "fst x = fst y" for k1 k2 x y
    using that pending_old [OF q] queue_okD(6) [OF q, of k1 x k2 y] by (fastforce split: if_splits)
  show "\<exists>a' t0. Queued a' t0 n c' \<in> set (Queued a t N c # es) \<and> t0 + d \<le> t'" if "Applied t' n c' \<in> set (Queued a t N c # es)" for t' c'
    using that queue_okD(7) [OF q, of t' n c'] by auto
qed

lemma queue_ok_spend:
  assumes q: "queue_ok d N es P" and k: "P k = Some (n, eta, c)" and e: "spent_nonce e = [n]" "queued_nonce e = []"
    and ap: "\<And>t n' c'. e = Applied t n' c' \<Longrightarrow> n' = n \<and> c' = c \<and> eta \<le> t"
  shows "queue_ok d N (e # es) (P(k := None))"
proof (rule queue_okI)
  have w: "waiting d es n eta c" using queue_okD(5) [OF q k] .
  then have n: "n \<in> set (nonces queued_nonce es)" "n \<notin> set (nonces spent_nonce es)" using queued_nonces by (auto simp: waiting_def)
  show "distinct (nonces queued_nonce (e # es))" using e queue_okD(3) [OF q] by simp
  show "distinct (nonces spent_nonce (e # es))" using e n queue_okD(4) [OF q] by simp
  fix n' show "n' \<in> set (nonces queued_nonce (e # es)) \<Longrightarrow> n' < N" using e queue_okD(1) [OF q, of n'] by simp
  show "n' \<in> set (nonces spent_nonce (e # es)) \<Longrightarrow> n' \<in> set (nonces queued_nonce (e # es))"
    using e n queue_okD(2) [OF q, of n'] by auto
  show "waiting d (e # es) n' eta' c'" if "(P(k := None)) k' = Some (n', eta', c')" for k' eta' c'
  proof (rule waiting_Cons)
    have "k' \<noteq> k" "P k' = Some (n', eta', c')" using that by (auto split: if_splits)
    then show "waiting d es n' eta' c'" "n' \<notin> set (spent_nonce e)"
      using queue_okD(5) [OF q] queue_okD(6) [OF q _ k, of k' "(n', eta', c')"] e by auto
  qed
  show "k1 = k2" if "(P(k := None)) k1 = Some x" "(P(k := None)) k2 = Some y" "fst x = fst y" for k1 k2 x y
    using that queue_okD(6) [OF q, of k1 x k2 y] by (auto split: if_splits)
  show "\<exists>a t0. Queued a t0 n' c' \<in> set (e # es) \<and> t0 + d \<le> t" if "Applied t n' c' \<in> set (e # es)" for t c'
  proof (cases "e = Applied t n' c'")
    case True
    then have "n' = n" "c' = c" "eta \<le> t" using ap by blast+
    then show ?thesis using w by (force simp: waiting_def)
  qed (use that queue_okD(7) [OF q, of t n' c'] in auto)
qed

lemma queue_ok_skip:
  assumes q: "queue_ok d N es P" and e: "spent_nonce e = []" "queued_nonce e = []" "\<And>t n c. e \<noteq> Applied t n c"
  shows "queue_ok d N (e # es) P"
proof (rule queue_okI)
  show "waiting d (e # es) n eta c" if "P k = Some (n, eta, c)" for k n eta c
    using queue_okD(5) [OF q that] e by (simp add: waiting_Cons)
  show "\<exists>a t0. Queued a t0 n c \<in> set (e # es) \<and> t0 + d \<le> t" if "Applied t n c \<in> set (e # es)" for t n c
    using that queue_okD(7) [OF q, of t n c] e by fastforce
qed (use e queue_okD(1-4,6) [OF q] in auto)

text \<open>Who may queue: the first authority, or one that accepted after being proposed by an authority.\<close>

definition seat_ok :: "pubkey \<Rightarrow> governance_gate \<Rightarrow> gov_event list \<Rightarrow> bool" where
  "seat_ok a0 g es \<longleftrightarrow>
     (let seated = (\<lambda>a. a = a0 \<or> Accepted a \<in> set es) in
      seated (gg_inbound_authority g) \<and>
      (gg_pending_inbound_authority g \<noteq> default_key \<longrightarrow> (\<exists>a. Proposed a (gg_pending_inbound_authority g) \<in> set es)) \<and>
      (\<forall>a t n c. Queued a t n c \<in> set es \<longrightarrow> seated a) \<and> (\<forall>a b. Proposed a b \<in> set es \<longrightarrow> seated a) \<and>
      (\<forall>a. Accepted a \<in> set es \<longrightarrow> (\<exists>b. Proposed b a \<in> set es)))"

definition gov_inv :: "pubkey \<Rightarrow> int \<Rightarrow> 'l gov_state \<Rightarrow> bool" where
  "gov_inv a0 d s \<longleftrightarrow> gg_timelock_secs (gs_gate s) = d \<and> d \<in> {MIN_GOV_TIMELOCK_SECS..MAX_GOV_TIMELOCK_SECS} \<and>
     unix_timestamp (gs_clock s) \<in> {0..<2 ^ 62} \<and> market_cfg_ok (gs_market s, gs_oracle s) \<and> global_cfg_ok (gs_backstop s) \<and>
     (\<forall>k op. gs_ops s k = Some op \<longrightarrow> tp_value op < 2 ^ 64) \<and> dom (gs_ops s) \<inter> dom (gs_global_ops s) = {} \<and>
     queue_ok d (gg_queue_nonce (gs_gate s)) (gs_log s) (pending s) \<and> seat_ok a0 (gs_gate s) (gs_log s)"

lemma gov_start_inv: "gov_start a d s \<Longrightarrow> gov_inv a d s"
  by (auto simp: gov_start_def gov_inv_def queue_ok_def seat_ok_def pending_def nonces_def)

lemma eta_waits:
  assumes "t \<in> {0..<2 ^ 62}" "d \<in> {MIN_GOV_TIMELOCK_SECS..MAX_GOV_TIMELOCK_SECS}"
  shows "i64_sat (t + d) = t + d"
  using assms by (simp add: i64_sat_def MAX_GOV_TIMELOCK_SECS_def MIN_GOV_TIMELOCK_SECS_def)

lemma execute_param_Inr:
  assumes "execute_param_handler T clk A l op m oracle = Inr (l', m', oracle')"
  obtains u where "(m', oracle') = apply_param (m\<lparr> m_liq_grace_until := u \<rparr>) oracle (tp_param op) (tp_value op)"
    "m_liq_grace_until m \<le> u" "tp_eta op \<le> unix_timestamp clk"
    "validate_param_for_market m oracle (tp_param op) (tp_value op) = Inr ()"
    "tp_param op = PMcr \<and> m_mcr_bps m < as_u16 (tp_value op) \<longrightarrow> saturating_add 64 (clock_slot clk) MCR_RAISE_GRACE_SLOTS \<le> u"
proof -
  let ?c = "tp_param op = PMcr \<and> m_mcr_bps m < as_u16 (tp_value op)"
  let ?u = "if ?c then max (m_liq_grace_until m) (saturating_add 64 (clock_slot clk) MCR_RAISE_GRACE_SLOTS) else m_liq_grace_until m"
  have e: "(if ?c then m\<lparr> m_liq_grace_until := max (m_liq_grace_until m) (saturating_add 64 (clock_slot clk) MCR_RAISE_GRACE_SLOTS) \<rparr> else m) =
    m\<lparr> m_liq_grace_until := ?u \<rparr>" by simp
  show ?thesis using assms that [of ?u]
    unfolding execute_param_handler_def Let_def bindR_Inr ensure_Inr e by (auto split: prod.splits)
qed

lemma pending_ops:
  "pending (s\<lparr> gs_ledger := l, gs_gate := g, gs_ops := (gs_ops s)(k \<mapsto> op) \<rparr>) =
     (pending s)(k \<mapsto> (tp_nonce op, tp_eta op, MarketChange (tp_param op) (tp_value op)))"
  "k \<notin> dom (gs_global_ops s) \<Longrightarrow> pending (s\<lparr> gs_ledger := l, gs_market := m, gs_oracle := oracle, gs_ops := (gs_ops s)(k := None) \<rparr>) = (pending s)(k := None)"
  "k \<notin> dom (gs_global_ops s) \<Longrightarrow> pending (s\<lparr> gs_ledger := l, gs_ops := (gs_ops s)(k := None) \<rparr>) = (pending s)(k := None)"
  "k \<notin> dom (gs_ops s) \<Longrightarrow> pending (s\<lparr> gs_ledger := l, gs_gate := g, gs_global_ops := (gs_global_ops s)(k \<mapsto> gop) \<rparr>) =
     (pending s)(k \<mapsto> (tg_nonce gop, tg_eta gop, GlobalChange (tg_param gop) (tg_value gop)))"
  "k \<notin> dom (gs_ops s) \<Longrightarrow> pending (s\<lparr> gs_ledger := l, gs_backstop := b, gs_global_ops := (gs_global_ops s)(k := None) \<rparr>) = (pending s)(k := None)"
  "k \<notin> dom (gs_ops s) \<Longrightarrow> pending (s\<lparr> gs_ledger := l, gs_global_ops := (gs_global_ops s)(k := None) \<rparr>) = (pending s)(k := None)"
  "pending (s\<lparr> gs_gate := g \<rparr>) = pending s" "pending (s\<lparr> gs_clock := clk \<rparr>) = pending s"
  "pending (gov_log e s) = pending s"
  by (auto simp: pending_def gov_log_def fun_eq_iff domIff split: option.splits)

lemma gov_log_simps [simp]:
  "gs_clock (gov_log e s) = gs_clock s" "gs_gate (gov_log e s) = gs_gate s" "gs_ops (gov_log e s) = gs_ops s"
  "gs_global_ops (gov_log e s) = gs_global_ops s" "gs_market (gov_log e s) = gs_market s" "gs_oracle (gov_log e s) = gs_oracle s"
  "gs_backstop (gov_log e s) = gs_backstop s" "gs_log (gov_log e s) = e # gs_log s"
  by (simp_all add: gov_log_def)

lemma pending_Some:
  "gs_ops s k = Some op \<Longrightarrow> pending s k = Some (tp_nonce op, tp_eta op, MarketChange (tp_param op) (tp_value op))"
  "gs_ops s k = None \<Longrightarrow> gs_global_ops s k = Some gop \<Longrightarrow> pending s k = Some (tg_nonce gop, tg_eta gop, GlobalChange (tg_param gop) (tg_value gop))"
  "gs_ops s k = None \<Longrightarrow> gs_global_ops s k = None \<Longrightarrow> pending s k = None"
  by (simp_all add: pending_def)

lemma seat_ok_Cons:
  assumes "seat_ok a0 g es" "gg_inbound_authority g' = gg_inbound_authority g" "gg_pending_inbound_authority g' = gg_pending_inbound_authority g"
    and "\<And>a t n c. e = Queued a t n c \<Longrightarrow> a = gg_inbound_authority g" "\<And>a b. e \<noteq> Proposed a b" "\<And>a. e \<noteq> Accepted a"
  shows "seat_ok a0 g' (e # es)"
proof -
  have s: "gg_inbound_authority g = a0 \<or> Accepted (gg_inbound_authority g) \<in> set es" using assms(1) by (simp add: seat_ok_def Let_def)
  have "Accepted a \<in> set (e # es) \<longleftrightarrow> Accepted a \<in> set es" for a using assms(6) by fastforce
  moreover have "Proposed a b \<in> set (e # es) \<longleftrightarrow> Proposed a b \<in> set es" for a b using assms(5) by fastforce
  moreover have "Queued a t n c \<in> set (e # es) \<Longrightarrow> a = gg_inbound_authority g \<or> Queued a t n c \<in> set es" for a t n c
    using assms(4) by fastforce
  ultimately show ?thesis using assms(1) s unfolding seat_ok_def Let_def assms(2,3) by metis
qed

lemma seat_ok_accept:
  assumes "seat_ok a0 g es" "gg_pending_inbound_authority g \<noteq> default_key"
  shows "seat_ok a0 (g\<lparr> gg_inbound_authority := gg_pending_inbound_authority g, gg_pending_inbound_authority := default_key \<rparr>)
    (Accepted (gg_pending_inbound_authority g) # es)"
  using assms unfolding seat_ok_def Let_def by (simp, blast)

lemma seat_ok_propose:
  assumes "seat_ok a0 g es"
  shows "seat_ok a0 (g\<lparr> gg_pending_inbound_authority := k \<rparr>) (Proposed (gg_inbound_authority g) k # es)"
  using assms unfolding seat_ok_def Let_def by (simp, blast)

lemma validate_param_grace:
  "validate_param_for_market (m\<lparr> m_liq_grace_until := u \<rparr>) orc p v = validate_param_for_market m orc p v"
  by (cases p) (simp_all add: validate_param_for_market_def)

lemma gov_inv_queue_param:
  assumes "gov_inv a0 d s"
    and h: "queue_param_handler T (gs_clock s) A p v (gs_ledger s) (gs_gate s) (gs_market s) (gs_oracle s) = Inr (l, g, op)"
    and "v < 2 ^ 64" and k: "ga_op A \<notin> dom (gs_ops s) \<union> dom (gs_global_ops s)"
  shows "gov_inv a0 d (gov_log (Queued (ga_signer A) (unix_timestamp (gs_clock s)) (tp_nonce op) (MarketChange p v))
      (s\<lparr> gs_ledger := l, gs_gate := g, gs_ops := (gs_ops s)(ga_op A \<mapsto> op) \<rparr>))"
proof -
  have g: "g = (gs_gate s)\<lparr> gg_queue_nonce := gg_queue_nonce (gs_gate s) + 1 \<rparr>" and a: "ga_signer A = gg_inbound_authority (gs_gate s)"
    and op: "tp_nonce op = gg_queue_nonce (gs_gate s)" "tp_eta op = i64_sat (unix_timestamp (gs_clock s) + gg_timelock_secs (gs_gate s))"
      "tp_param op = p" "tp_value op = v"
    using h unfolding queue_param_handler_def Let_def by (auto simp: bindR_Inr ensure_Inr ok_or_Inr checked_add_Some)
  have eta: "tp_eta op = unix_timestamp (gs_clock s) + d" using assms(1) eta_waits op(2) by (simp add: gov_inv_def)
  have "queue_ok d (gg_queue_nonce (gs_gate s) + 1)
     (Queued (ga_signer A) (unix_timestamp (gs_clock s)) (gg_queue_nonce (gs_gate s)) (MarketChange p v) # gs_log s)
     ((pending s)(ga_op A \<mapsto> (gg_queue_nonce (gs_gate s), tp_eta op, MarketChange p v)))"
    using assms(1) k by (intro queue_ok_queue) (auto simp: gov_inv_def eta pending_def domIff)
  moreover have "seat_ok a0 g (Queued (ga_signer A) (unix_timestamp (gs_clock s)) (gg_queue_nonce (gs_gate s)) (MarketChange p v) # gs_log s)"
    using assms(1) a g by (intro seat_ok_Cons [of a0 "gs_gate s"]) (auto simp: gov_inv_def)
  ultimately show ?thesis using assms op g unfolding gov_inv_def by (auto simp: pending_ops)
qed

lemma gov_inv_queue_global:
  assumes "gov_inv a0 d s"
    and h: "queue_global_handler T (gs_clock s) A p v (gs_ledger s) (gs_gate s) = Inr (l, g, op)"
    and k: "ga_op A \<notin> dom (gs_ops s) \<union> dom (gs_global_ops s)"
  shows "gov_inv a0 d (gov_log (Queued (ga_signer A) (unix_timestamp (gs_clock s)) (tg_nonce op) (GlobalChange p v))
      (s\<lparr> gs_ledger := l, gs_gate := g, gs_global_ops := (gs_global_ops s)(ga_op A \<mapsto> op) \<rparr>))"
proof -
  have g: "g = (gs_gate s)\<lparr> gg_queue_nonce := gg_queue_nonce (gs_gate s) + 1 \<rparr>" and a: "ga_signer A = gg_inbound_authority (gs_gate s)"
    and op: "tg_nonce op = gg_queue_nonce (gs_gate s)" "tg_eta op = i64_sat (unix_timestamp (gs_clock s) + gg_timelock_secs (gs_gate s))"
      "tg_param op = p" "tg_value op = v"
    using h unfolding queue_global_handler_def Let_def by (auto simp: bindR_Inr ensure_Inr ok_or_Inr checked_add_Some)
  have eta: "tg_eta op = unix_timestamp (gs_clock s) + d" using assms(1) eta_waits op(2) by (simp add: gov_inv_def)
  have "queue_ok d (gg_queue_nonce (gs_gate s) + 1)
     (Queued (ga_signer A) (unix_timestamp (gs_clock s)) (gg_queue_nonce (gs_gate s)) (GlobalChange p v) # gs_log s)
     ((pending s)(ga_op A \<mapsto> (gg_queue_nonce (gs_gate s), tg_eta op, GlobalChange p v)))"
    using assms(1) k by (intro queue_ok_queue) (auto simp: gov_inv_def eta pending_def domIff)
  moreover have "seat_ok a0 g (Queued (ga_signer A) (unix_timestamp (gs_clock s)) (gg_queue_nonce (gs_gate s)) (GlobalChange p v) # gs_log s)"
    using assms(1) a g by (intro seat_ok_Cons [of a0 "gs_gate s"]) (auto simp: gov_inv_def)
  ultimately show ?thesis using assms op g unfolding gov_inv_def by (auto simp: pending_ops)
qed

lemma gov_inv_spend:
  assumes "gov_inv a0 d s" "pending s k = Some (n, eta, c)" "spent_nonce e = [n]"
    and "\<And>t n' c'. e = Applied t n' c' \<Longrightarrow> n' = n \<and> c' = c \<and> eta \<le> t"
  shows "queue_ok d (gg_queue_nonce (gs_gate s)) (e # gs_log s) ((pending s)(k := None)) \<and> seat_ok a0 (gs_gate s) (e # gs_log s)"
proof -
  have q: "queued_nonce e = []" and n: "\<And>a t n c. e \<noteq> Queued a t n c" "\<And>a b. e \<noteq> Proposed a b" "\<And>a. e \<noteq> Accepted a"
    using assms(3) by (cases e; simp)+
  have "queue_ok d (gg_queue_nonce (gs_gate s)) (e # gs_log s) ((pending s)(k := None))"
  proof (rule queue_ok_spend)
    show "queue_ok d (gg_queue_nonce (gs_gate s)) (gs_log s) (pending s)" using assms(1) by (simp add: gov_inv_def)
    show "\<And>t n' c'. e = Applied t n' c' \<Longrightarrow> n' = n \<and> c' = c \<and> eta \<le> t" by (rule assms(4))
  qed (fact assms(2,3) q)+
  moreover have "seat_ok a0 (gs_gate s) (e # gs_log s)"
    using assms(1) by (intro seat_ok_Cons [of a0 "gs_gate s"]) (simp_all add: gov_inv_def n)
  ultimately show ?thesis ..
qed

lemma gov_inv_execute_param:
  assumes "gov_inv a0 d s" and op: "gs_ops s (ga_op A) = Some op"
    and h: "execute_param_handler T (gs_clock s) A (gs_ledger s) op (gs_market s) (gs_oracle s) = Inr (l, m, oracle)"
  shows "gov_inv a0 d (gov_log (Applied (unix_timestamp (gs_clock s)) (tp_nonce op) (MarketChange (tp_param op) (tp_value op)))
      (s\<lparr> gs_ledger := l, gs_market := m, gs_oracle := oracle, gs_ops := (gs_ops s)(ga_op A := None) \<rparr>))"
proof -
  obtain u where m: "(m, oracle) = apply_param ((gs_market s)\<lparr> m_liq_grace_until := u \<rparr>) (gs_oracle s) (tp_param op) (tp_value op)"
    and eta: "tp_eta op \<le> unix_timestamp (gs_clock s)"
    and v: "validate_param_for_market (gs_market s) (gs_oracle s) (tp_param op) (tp_value op) = Inr ()"
    using h by (rule execute_param_Inr)
  let ?s = "((gs_market s)\<lparr> m_liq_grace_until := u \<rparr>, gs_oracle s)"
  have "market_admits ?s (tp_param op) (tp_value op)" "market_cfg_ok ?s"
    using v assms op by (auto simp: market_admits_def gov_inv_def validate_param_grace market_cfg_ok_def config_ok_def)
  then have ok: "market_cfg_ok (m, oracle)" using mkt.ok_put [of ?s "tp_param op" "tp_value op"] by (simp add: market_put_def m)
  have g: "ga_op A \<notin> dom (gs_global_ops s)" using assms(1) op by (auto simp: gov_inv_def)
  show ?thesis
    using assms(1) ok g gov_inv_spend [OF assms(1) pending_Some(1) [OF op], of "Applied (unix_timestamp (gs_clock s)) (tp_nonce op) (MarketChange (tp_param op) (tp_value op))"] eta
    unfolding gov_inv_def by (auto simp: pending_ops)
qed

lemma gov_inv_step:
  assumes "gov_step T s s'" "gov_inv a0 d s"
  shows "gov_inv a0 d s'"
  using assms(1)
proof (cases rule: gov_step.cases)
  case (queue_param A p v l g op)
  then show ?thesis using gov_inv_queue_param [OF assms(2) queue_param(2)] by simp
next
  case (execute_param A op l m orc)
  then show ?thesis using gov_inv_execute_param [OF assms(2)] by simp
next
  case (cancel_param A op l)
  then have g: "ga_op A \<notin> dom (gs_global_ops s)" using assms(2) by (auto simp: gov_inv_def)
  show ?thesis using assms(2) g gov_inv_spend [OF assms(2) pending_Some(1) [OF cancel_param(2)], of "Cancelled (ga_signer A) (tp_nonce op)"]
    unfolding cancel_param gov_inv_def by (auto simp: pending_ops)
next
  case (queue_global A q v l g gop)
  then show ?thesis using gov_inv_queue_global [OF assms(2) queue_global(2)] by simp
next
  case (execute_global A gop l b)
  then have k: "gs_ops s (ga_op A) = None" using assms(2) by (auto simp: gov_inv_def)
  have b: "b = apply_global_param (gs_backstop s) (tg_param gop) (tg_value gop)" "tg_eta gop \<le> unix_timestamp (gs_clock s)"
    "global_admits (gs_backstop s) (tg_param gop) (tg_value gop)"
    using execute_global(3) unfolding execute_global_handler_def by (auto simp: bindR_Inr ensure_Inr global_admits_def)
  then have ok: "global_cfg_ok b" using glb.ok_put assms(2) by (simp add: gov_inv_def)
  show ?thesis using assms(2) ok k b(2) gov_inv_spend [OF assms(2) pending_Some(2) [OF k execute_global(2)],
      of "Applied (unix_timestamp (gs_clock s)) (tg_nonce gop) (GlobalChange (tg_param gop) (tg_value gop))"]
    unfolding execute_global gov_inv_def by (auto simp: pending_ops domIff)
next
  case (cancel_global A gop l)
  then have k: "gs_ops s (ga_op A) = None" using assms(2) by (auto simp: gov_inv_def)
  show ?thesis using assms(2) k gov_inv_spend [OF assms(2) pending_Some(2) [OF k cancel_global(2)], of "Cancelled (ga_signer A) (tg_nonce gop)"]
    unfolding cancel_global gov_inv_def by (auto simp: pending_ops domIff)
next
  case (migrate A k g)
  then have g: "g = (gs_gate s)\<lparr> gg_pending_inbound_authority := k \<rparr>" "ga_signer A = gg_inbound_authority (gs_gate s)"
    by (auto simp: migrate_authority_handler_def bindR_Inr ensure_Inr)
  have "seat_ok a0 g (Proposed (ga_signer A) k # gs_log s)" using seat_ok_propose assms(2) g by (simp add: gov_inv_def)
  then show ?thesis using assms(2) queue_ok_skip [of d "gg_queue_nonce (gs_gate s)" "gs_log s" "pending s" "Proposed (ga_signer A) k"]
    unfolding migrate gov_inv_def by (auto simp: pending_ops g)
next
  case (accept A g)
  then have g: "g = (gs_gate s)\<lparr> gg_inbound_authority := ga_signer A, gg_pending_inbound_authority := default_key \<rparr>"
    "ga_signer A = gg_pending_inbound_authority (gs_gate s)" "gg_pending_inbound_authority (gs_gate s) \<noteq> default_key"
    by (auto simp: accept_authority_handler_def bindR_Inr ensure_Inr)
  have "seat_ok a0 g (Accepted (ga_signer A) # gs_log s)" using seat_ok_accept assms(2) g by (simp add: gov_inv_def)
  then show ?thesis using assms(2) queue_ok_skip [where e = "Accepted (ga_signer A)"]
    unfolding accept gov_inv_def by (auto simp: pending_ops g(1))
next
  case (tick clk)
  then show ?thesis using assms(2) unfolding gov_inv_def by (auto simp: pending_ops)
qed

lemma gov_reach_inv: "(gov_step T)\<^sup>*\<^sup>* s s' \<Longrightarrow> gov_inv a0 d s \<Longrightarrow> gov_inv a0 d s'"
  by (induction rule: rtranclp_induct) (auto intro: gov_inv_step)

end
