(* ===== verification/Protocol_Admin.thy ===== *)
theory Protocol_Admin
  imports Governance Buckets
begin

text \<open>
  The set-up and administration instructions of the core program: \<^verbatim>\<open>init_protocol.rs\<close>, \<^verbatim>\<open>init_market.rs\<close>,
  \<^verbatim>\<open>init_reactor_pool.rs\<close>, \<^verbatim>\<open>init_insurance_buffer.rs\<close>, \<^verbatim>\<open>debt_ceiling_line.rs\<close>, \<^verbatim>\<open>guardian_derisk.rs\<close>,
  \<^verbatim>\<open>set_guardian.rs\<close>, \<^verbatim>\<open>migrate_gov_authority.rs\<close>, \<^verbatim>\<open>oracle_admin.rs\<close> and \<^verbatim>\<open>supply_reconciliation.rs\<close>.
  An address is the big-endian number of its 32 bytes.
\<close>

definition PYTH_RECEIVER_PROGRAM_ID :: pubkey where
  "PYTH_RECEIVER_PROGRAM_ID = 5752817682687850422407040622477569466496897992695320872709617896839248894081"
definition PYTH_RECEIVER_PROGRAM_ID_UPGRADED :: pubkey where
  "PYTH_RECEIVER_PROGRAM_ID_UPGRADED = 109026906787612147252038257421308011831123306865355261807553966706965860469639"
definition SWITCHBOARD_ON_DEMAND_PROGRAM_ID :: pubkey where
  "SWITCHBOARD_ON_DEMAND_PROGRAM_ID = 2918370846784493494016269115316351842256402507831220791117320217718181094771"
definition FUSD_DECIMALS :: nat where "FUSD_DECIMALS = 6"
definition REACTOR_GRID_LEN :: nat where "REACTOR_GRID_LEN = REACTOR_MAX_EPOCHS * REACTOR_MAX_SCALES"
definition BITMAP_WORDS :: nat where "BITMAP_WORDS = NUM_RATE_BUCKETS div 64"

record admin_accounts =
  aa_signer :: pubkey
  aa_config :: pubkey
  aa_mint_authority :: pubkey
  aa_fusd_mint :: pubkey
  aa_collateral_mint :: pubkey
  aa_market :: pubkey
  aa_collateral_vault :: pubkey
  aa_redemption_bitmap :: pubkey
  aa_reactor_pool :: pubkey
  aa_epoch_to_scale_to_sum :: pubkey
  aa_reactor_fusd_vault :: pubkey
  aa_reactor_coll_vault :: pubkey
  aa_insurance_buffer :: pubkey
  aa_buffer_fusd_vault :: pubkey
  aa_debt_ceiling_line :: pubkey
  aa_supply_recon :: pubkey

subsection \<open>Creating the protocol and a market\<close>

text \<open>\<open>upgrade_authority\<close> is the field of the program-data account the loader keeps.\<close>

definition init_protocol_handler ::
    "'l runtime \<Rightarrow> admin_accounts \<Rightarrow> pubkey option \<Rightarrow> pubkey \<Rightarrow> pubkey \<Rightarrow> 'l \<Rightarrow> ('l \<times> protocol_config) res" where
  "init_protocol_handler T A upgrade_authority gov_authority guardian l =
     bindR (require (upgrade_authority = Some (aa_signer A)) Unauthorized) (\<lambda>_.
     bindR (cpi (sys_create T l (aa_signer A) (aa_config A))) (\<lambda>l.
     bindR (cpi (tk_init_mint T l (aa_signer A) (aa_fusd_mint A) (aa_mint_authority A) FUSD_DECIMALS)) (\<lambda>l.
     bindR (require (gov_authority \<noteq> default_key) ParamOutOfBounds) (\<lambda>_.
     Inr (l, \<lparr> cfg_gov_authority = gov_authority, cfg_guardian = guardian, cfg_deployer = aa_signer A,
               cfg_fusd_mint = aa_fusd_mint A, cfg_pending_gov_authority = default_key,
               cfg_pyth_receiver_program_id = PYTH_RECEIVER_PROGRAM_ID,
               cfg_pyth_receiver_program_id_alt = PYTH_RECEIVER_PROGRAM_ID_UPGRADED,
               cfg_switchboard_program_id = SWITCHBOARD_ON_DEMAND_PROGRAM_ID \<rparr>)))))"

record init_market_args =
  ia_mcr_bps :: nat
  ia_debt_ceiling :: nat
  ia_reserve_lamports :: nat
  ia_liq_gas_comp_bps :: nat
  ia_liq_bonus_bps :: nat
  ia_bucket_width_bps :: nat
  ia_redemption_fee_bps :: nat

text \<open>\<open>load_init\<close> hands out the zeroed account.\<close>

definition new_bitmap :: redemption_bitmap where
  "new_bitmap = \<lparr> bm_words = replicate BITMAP_WORDS 0, bm_counts = replicate NUM_RATE_BUCKETS 0, bm_zombie_count = 0 \<rparr>"

definition init_market_handler ::
    "'l runtime \<Rightarrow> clock \<Rightarrow> admin_accounts \<Rightarrow> init_market_args \<Rightarrow> 'l \<Rightarrow> protocol_config \<Rightarrow> ('l \<times> market \<times> redemption_bitmap) res" where
  "init_market_handler T clk A args l cfg =
     bindR (cpi (sys_create T l (aa_signer A) (aa_market A))) (\<lambda>l.
     bindR (cpi (tk_init_account T l (aa_signer A) (aa_collateral_vault A) (aa_collateral_mint A) (aa_market A))) (\<lambda>l.
     bindR (cpi (sys_create T l (aa_signer A) (aa_redemption_bitmap A))) (\<lambda>l.
     bindR (require (aa_signer A = cfg_gov_authority cfg) Unauthorized) (\<lambda>_.
     bindR (require (tk_freeze_authority T l (aa_collateral_mint A) = None) CollateralHasFreezeAuthority) (\<lambda>_.
     bindR (require (ia_mcr_bps args \<ge> MIN_MCR_BPS \<and> ia_mcr_bps args \<le> MAX_MCR_BPS) ParamOutOfBounds) (\<lambda>_.
     bindR (require (ia_reserve_lamports args \<le> MAX_RESERVE_LAMPORTS) ParamOutOfBounds) (\<lambda>_.
     bindR (require (ia_liq_gas_comp_bps args \<le> MAX_LIQ_GAS_COMP_BPS) ParamOutOfBounds) (\<lambda>_.
     bindR (require (ia_liq_bonus_bps args \<le> MAX_LIQ_BONUS_BPS) ParamOutOfBounds) (\<lambda>_.
     bindR (validate_market_config (ia_mcr_bps args) DEFAULT_SCR_BPS (ia_liq_bonus_bps args) (ia_liq_gas_comp_bps args)) (\<lambda>_.
     bindR (require (ia_bucket_width_bps args \<ge> MIN_BUCKET_WIDTH_BPS \<and> ia_bucket_width_bps args \<le> MAX_BUCKET_WIDTH_BPS) ParamOutOfBounds) (\<lambda>_.
     bindR (require (case checked_mul 64 (ia_bucket_width_bps args) NUM_RATE_BUCKETS of None \<Rightarrow> False | Some width \<Rightarrow> width \<ge> MAX_USER_RATE_BPS)
              ParamOutOfBounds) (\<lambda>_.
     bindR (require (ia_redemption_fee_bps args \<le> MAX_REDEMPTION_FEE_BPS) ParamOutOfBounds) (\<lambda>_.
     Inr (l,
       \<lparr> m_collateral_mint = aa_collateral_mint A, m_collateral_vault = aa_collateral_vault A, m_agg_recorded_debt = 0,
         m_agg_weighted_debt_sum = 0, m_unminted_interest = 0, m_last_update_ts = unix_timestamp clk, m_spot = 0,
         m_spot_updated_slot = 0, m_debt_spot = 0, m_mcr_bps = ia_mcr_bps args, m_debt_ceiling = ia_debt_ceiling args,
         m_collateral_decimals = tk_decimals T l (aa_collateral_mint A), m_l_coll = 0, m_l_art = 0,
         m_last_coll_redist_error = 0, m_last_art_redist_error = 0, m_total_stakes = 0, m_total_collateral = 0,
         m_total_stakes_snapshot = 0, m_total_collateral_snapshot = 0, m_reserve_lamports = ia_reserve_lamports args,
         m_liq_gas_comp_bps = ia_liq_gas_comp_bps args, m_liq_bonus_bps = ia_liq_bonus_bps args, m_total_coll_surplus = 0,
         m_bucket_width_bps = ia_bucket_width_bps args, m_redemption_fee_bps = ia_redemption_fee_bps args,
         m_surplus_collateral = 0, m_mint_frozen = True, m_guardian_paused_until = 0, m_shutdown = False,
         m_scr_bps = DEFAULT_SCR_BPS, m_rl_cap = 0, m_rl_accrued = 0, m_rl_last_update = 0, m_ccr_bps = 0,
         m_liq_grace_until = 0, m_liq_divergence_until = 0, m_bad_debt = 0, m_shutdown_reason = SHUTDOWN_REASON_NONE,
         m_min_debt = 0, m_rate_adjust_cooldown_secs = 0, m_keeper_reward_bps = 0, m_borrow_fee_bps = 0,
         m_bad_debt_paydown_bps = 0, m_redemption_base_rate = 0, m_redemption_base_rate_ts = unix_timestamp clk,
         m_redemption_base_rate_max_bps = 0, m_protocol_collateral = 0, m_global_contributed = 0, m_global_drawn = 0,
         m_liq_infra_flags = LIQ_INFRA_GATED \<rparr>,
       new_bitmap))))))))))))))"

definition init_reactor_pool_handler ::
    "'l runtime \<Rightarrow> admin_accounts \<Rightarrow> 'l \<Rightarrow> protocol_config \<Rightarrow> market \<Rightarrow> ('l \<times> market \<times> reactor_pool \<times> nat list) res" where
  "init_reactor_pool_handler T A l cfg m =
     bindR (cpi (sys_create T l (aa_signer A) (aa_reactor_pool A))) (\<lambda>l.
     bindR (cpi (sys_create T l (aa_signer A) (aa_epoch_to_scale_to_sum A))) (\<lambda>l.
     bindR (cpi (tk_init_account T l (aa_signer A) (aa_reactor_fusd_vault A) (aa_fusd_mint A) (aa_reactor_pool A))) (\<lambda>l.
     bindR (cpi (tk_init_account T l (aa_signer A) (aa_reactor_coll_vault A) (aa_collateral_mint A) (aa_reactor_pool A))) (\<lambda>l.
     bindR (require (aa_signer A = cfg_gov_authority cfg) Unauthorized) (\<lambda>_.
     Inr (l, m\<lparr> m_liq_infra_flags := m_liq_infra_flags m OR LIQ_INFRA_REACTOR_POOL \<rparr>,
       \<lparr> rp_collateral_mint = aa_collateral_mint A, rp_fusd_vault = aa_reactor_fusd_vault A, rp_coll_vault = aa_reactor_coll_vault A,
         rp_epoch_to_scale_to_sum = aa_epoch_to_scale_to_sum A, rp_p = DECIMAL_PRECISION, rp_epoch = 0, rp_scale = 0,
         rp_total_deposits = 0, rp_last_coll_error = 0, rp_last_loss_error = 0 \<rparr>,
       replicate REACTOR_GRID_LEN 0))))))"

definition init_insurance_buffer_handler ::
    "'l runtime \<Rightarrow> admin_accounts \<Rightarrow> 'l \<Rightarrow> protocol_config \<Rightarrow> market \<Rightarrow> ('l \<times> market \<times> insurance_buffer) res" where
  "init_insurance_buffer_handler T A l cfg m =
     bindR (cpi (sys_create T l (aa_signer A) (aa_insurance_buffer A))) (\<lambda>l.
     bindR (cpi (tk_init_account T l (aa_signer A) (aa_buffer_fusd_vault A) (aa_fusd_mint A) (aa_insurance_buffer A))) (\<lambda>l.
     bindR (require (aa_signer A = cfg_gov_authority cfg) Unauthorized) (\<lambda>_.
     Inr (l, m\<lparr> m_liq_infra_flags := m_liq_infra_flags m OR LIQ_INFRA_INSURANCE_BUFFER \<rparr>,
       \<lparr> ib_collateral_mint = aa_collateral_mint A, ib_fusd_vault = aa_buffer_fusd_vault A, ib_total_funded = 0,
         ib_total_absorbed = 0 \<rparr>))))"

subsection \<open>The debt-ceiling line\<close>

definition apply_line :: "nat \<Rightarrow> nat \<Rightarrow> market \<Rightarrow> market" where
  "apply_line line gap m =
     m\<lparr> m_debt_ceiling := min line (saturating_add 64
          (case try_from 64 (m_agg_recorded_debt m) of Some d \<Rightarrow> d | None \<Rightarrow> 2 ^ 64 - 1) gap) \<rparr>"

definition init_debt_ceiling_line_handler ::
    "'l runtime \<Rightarrow> clock \<Rightarrow> admin_accounts \<Rightarrow> nat \<Rightarrow> nat \<Rightarrow> int \<Rightarrow> 'l \<Rightarrow> protocol_config \<Rightarrow> market \<Rightarrow> ('l \<times> market \<times> debt_ceiling_line) res" where
  "init_debt_ceiling_line_handler T clk A line gap ttl l cfg m =
     bindR (cpi (sys_create T l (aa_signer A) (aa_debt_ceiling_line A))) (\<lambda>l.
     bindR (require (aa_signer A = cfg_gov_authority cfg) Unauthorized) (\<lambda>_.
     bindR (require (ttl \<ge> 0) ParamOutOfBounds) (\<lambda>_.
     let now = unix_timestamp clk in
     bindR (accrue m now) (\<lambda>m.
     Inr (l, apply_line line gap m,
          \<lparr> dl_collateral_mint = aa_collateral_mint A, dl_line = line, dl_gap = gap, dl_ttl = ttl, dl_last_bump_ts = now \<rparr>)))))"

definition set_debt_ceiling_line_handler ::
    "clock \<Rightarrow> admin_accounts \<Rightarrow> nat \<Rightarrow> nat \<Rightarrow> int \<Rightarrow> protocol_config \<Rightarrow> market \<Rightarrow> debt_ceiling_line \<Rightarrow> (market \<times> debt_ceiling_line) res" where
  "set_debt_ceiling_line_handler clk A line gap ttl cfg m dcl =
     bindR (require (aa_signer A = cfg_gov_authority cfg) Unauthorized) (\<lambda>_.
     bindR (require (ttl \<ge> 0) ParamOutOfBounds) (\<lambda>_.
     let now = unix_timestamp clk in
     bindR (accrue m now) (\<lambda>m.
     Inr (apply_line line gap m, dcl\<lparr> dl_line := line, dl_gap := gap, dl_ttl := ttl, dl_last_bump_ts := now \<rparr>))))"

definition bump_debt_ceiling_handler :: "clock \<Rightarrow> market \<Rightarrow> debt_ceiling_line \<Rightarrow> (market \<times> debt_ceiling_line) res" where
  "bump_debt_ceiling_handler clk m dcl =
     (let now = unix_timestamp clk in
     bindR (require (now \<ge> i64_sat (dl_last_bump_ts dcl + dl_ttl dcl)) RateLimitExceeded) (\<lambda>_.
     bindR (accrue m now) (\<lambda>m.
     let dcl = dcl\<lparr> dl_last_bump_ts := now \<rparr> in
     Inr (apply_line (dl_line dcl) (dl_gap dcl) m, dcl))))"

subsection \<open>Guardian and governance authority\<close>

definition guardian_derisk_handler :: "clock \<Rightarrow> admin_accounts \<Rightarrow> int \<Rightarrow> protocol_config \<Rightarrow> market \<Rightarrow> market res" where
  "guardian_derisk_handler clk A pause_secs cfg m =
     bindR (require (aa_signer A = cfg_guardian cfg) Unauthorized) (\<lambda>_.
     bindR (require (0 \<le> pause_secs \<and> pause_secs \<le> GUARDIAN_MAX_PAUSE_SECS) ParamOutOfBounds) (\<lambda>_.
     Inr (m\<lparr> m_guardian_paused_until := i64_sat (unix_timestamp clk + pause_secs) \<rparr>)))"

definition set_guardian_handler :: "admin_accounts \<Rightarrow> pubkey \<Rightarrow> protocol_config \<Rightarrow> protocol_config res" where
  "set_guardian_handler A new_guardian cfg =
     bindR (require (aa_signer A = cfg_gov_authority cfg) Unauthorized) (\<lambda>_.
     Inr (cfg\<lparr> cfg_guardian := new_guardian \<rparr>))"

definition migrate_gov_handler :: "admin_accounts \<Rightarrow> pubkey \<Rightarrow> protocol_config \<Rightarrow> protocol_config res" where
  "migrate_gov_handler A new_authority cfg =
     bindR (require (aa_signer A = cfg_gov_authority cfg) Unauthorized) (\<lambda>_.
     Inr (cfg\<lparr> cfg_pending_gov_authority := new_authority \<rparr>))"

definition accept_gov_handler :: "admin_accounts \<Rightarrow> protocol_config \<Rightarrow> protocol_config res" where
  "accept_gov_handler A cfg =
     bindR (require (cfg_pending_gov_authority cfg \<noteq> default_key) NoPendingAuthority) (\<lambda>_.
     bindR (require (aa_signer A = cfg_pending_gov_authority cfg) Unauthorized) (\<lambda>_.
     Inr (cfg\<lparr> cfg_gov_authority := cfg_pending_gov_authority cfg, cfg_pending_gov_authority := default_key \<rparr>)))"

subsection \<open>Oracle bindings\<close>

definition set_program_ids_handler ::
    "admin_accounts \<Rightarrow> pubkey option \<Rightarrow> pubkey option \<Rightarrow> pubkey option \<Rightarrow> protocol_config \<Rightarrow> protocol_config res" where
  "set_program_ids_handler A new_pyth new_pyth_alt new_switchboard cfg =
     bindR (require (aa_signer A = cfg_gov_authority cfg) Unauthorized) (\<lambda>_.
     bindR (case new_pyth of
              Some p \<Rightarrow> bindR (require (p \<noteq> default_key) ParamOutOfBounds) (\<lambda>_. Inr (cfg\<lparr> cfg_pyth_receiver_program_id := p \<rparr>))
            | None \<Rightarrow> Inr cfg) (\<lambda>cfg.
     let cfg = (case new_pyth_alt of Some a \<Rightarrow> cfg\<lparr> cfg_pyth_receiver_program_id_alt := a \<rparr> | None \<Rightarrow> cfg) in
     case new_switchboard of
       Some s \<Rightarrow> bindR (require (s \<noteq> default_key) ParamOutOfBounds) (\<lambda>_. Inr (cfg\<lparr> cfg_switchboard_program_id := s \<rparr>))
     | None \<Rightarrow> Inr cfg))"

record rebind_args =
  rb_pyth_feed_id :: "nat list"
  rb_switchboard_feed :: pubkey
  rb_orca_pool :: pubkey
  rb_raydium_pool :: pubkey

definition rebind_feeds_handler ::
    "clock \<Rightarrow> admin_accounts \<Rightarrow> rebind_args \<Rightarrow> protocol_config \<Rightarrow> market \<Rightarrow> market_oracle \<Rightarrow> (market \<times> market_oracle) res" where
  "rebind_feeds_handler clk A args cfg m o1 =
     bindR (require (aa_signer A = cfg_gov_authority cfg) Unauthorized) (\<lambda>_.
     bindR (require (rb_pyth_feed_id args \<noteq> replicate 32 0) ParamOutOfBounds) (\<lambda>_.
     bindR (require (rb_switchboard_feed args \<noteq> default_key) ParamOutOfBounds) (\<lambda>_.
     bindR (require (rb_orca_pool args \<noteq> default_key \<or> rb_raydium_pool args \<noteq> default_key) ParamOutOfBounds) (\<lambda>_.
     bindR (require (rb_orca_pool args = default_key \<or> rb_raydium_pool args = default_key \<or> rb_orca_pool args \<noteq> rb_raydium_pool args)
              ParamOutOfBounds) (\<lambda>_.
     Inr (m\<lparr> m_spot_updated_slot := clock_slot clk - (MAX_PRICE_STALENESS_SLOTS + 1) \<rparr>,
          o1\<lparr> mo_pyth_feed_id := rb_pyth_feed_id args, mo_switchboard_feed := rb_switchboard_feed args,
              mo_orca_pool := rb_orca_pool args, mo_raydium_pool := rb_raydium_pool args \<rparr>))))))"

subsection \<open>Supply reconciliation\<close>

record supply_reconciliation =
  sr_last_ts :: int
  sr_last_market_count :: nat
  sr_last_mint_supply :: nat
  sr_last_backing :: nat
  sr_last_residual :: int

definition init_supply_recon_handler :: "'l runtime \<Rightarrow> admin_accounts \<Rightarrow> 'l \<Rightarrow> protocol_config \<Rightarrow> ('l \<times> supply_reconciliation) res" where
  "init_supply_recon_handler T A l cfg =
     bindR (cpi (sys_create T l (aa_signer A) (aa_supply_recon A))) (\<lambda>l.
     bindR (require (aa_signer A = cfg_gov_authority cfg) Unauthorized) (\<lambda>_.
     Inr (l, \<lparr> sr_last_ts = 0, sr_last_market_count = 0, sr_last_mint_supply = 0, sr_last_backing = 0, sr_last_residual = 0 \<rparr>)))"

text \<open>An account handed to the crank: not the program's, the program's but no market, or a market.\<close>

datatype submitted = NotOurs | NotMarket | MarketAccount market

fun recon_step :: "(pubkey \<Rightarrow> submitted) \<Rightarrow> nat \<times> nat \<times> pubkey list \<Rightarrow> pubkey \<Rightarrow> (nat \<times> nat \<times> pubkey list) res" where
  "recon_step accts (sum_agg_plus_bad, sum_unminted, seen) key =
     bindR (require (accts key \<noteq> NotOurs) InvalidRecipient) (\<lambda>_.
     bindR (require (key \<notin> set seen) DuplicateRedemptionTarget) (\<lambda>_.
     case accts key of
       MarketAccount m \<Rightarrow>
         bindR (math (checked_add 128 sum_agg_plus_bad (m_agg_recorded_debt m))) (\<lambda>s.
         bindR (math (checked_add 128 s (m_bad_debt m))) (\<lambda>sum_agg_plus_bad.
         bindR (math (checked_add 128 sum_unminted (m_unminted_interest m))) (\<lambda>sum_unminted.
         Inr (sum_agg_plus_bad, sum_unminted, seen @ [key]))))
     | _ \<Rightarrow> Inl Constraint))"

text \<open>\<open>as i128\<close> and \<open>i128::saturating_sub\<close>.\<close>

definition as_i128 :: "nat \<Rightarrow> int" where
  "as_i128 v = (let r = v mod 2 ^ 128 in if r < 2 ^ 127 then int r else int r - 2 ^ 128)"

definition i128_sat :: "int \<Rightarrow> int" where
  "i128_sat x = max (- (2 ^ 127)) (min x (2 ^ 127 - 1))"

definition reconcile_supply_handler ::
    "'l runtime \<Rightarrow> clock \<Rightarrow> admin_accounts \<Rightarrow> pubkey list \<Rightarrow> 'l \<Rightarrow> (pubkey \<Rightarrow> submitted) \<Rightarrow> supply_reconciliation \<Rightarrow> supply_reconciliation res" where
  "reconcile_supply_handler T clk A keys l accts r =
     bindR (require (length keys \<le> MAX_RECONCILE_MARKETS) TooManyRedemptionCandidates) (\<lambda>_.
     bindR (foldR (recon_step accts) (0, 0, []) keys) (\<lambda>(sum_agg_plus_bad, sum_unminted, _).
     let backing = sum_agg_plus_bad - sum_unminted;
         mint_supply = tk_supply T l (aa_fusd_mint A);
         residual = i128_sat (as_i128 backing - as_i128 mint_supply) in
     Inr (r\<lparr> sr_last_ts := unix_timestamp clk, sr_last_market_count := length keys mod 2 ^ 32,
             sr_last_mint_supply := mint_supply, sr_last_backing := backing, sr_last_residual := residual \<rparr>)))"

subsection \<open>What the instructions leave behind\<close>

lemma init_market_Inr:
  assumes "init_market_handler T clk A args l cfg = Inr (l', m, bm)"
  shows "config_ok m" "bm = new_bitmap" "m_bucket_width_bps m \<in> {MIN_BUCKET_WIDTH_BPS..MAX_BUCKET_WIDTH_BPS}"
    "MAX_USER_RATE_BPS \<le> m_bucket_width_bps m * NUM_RATE_BUCKETS" "m_mint_frozen m" "\<not> m_shutdown m" "m_collateral_vault m = aa_collateral_vault A"
    "m_agg_recorded_debt m = 0" "m_agg_weighted_debt_sum m = 0" "m_unminted_interest m = 0" "m_bad_debt m = 0"
    "m_total_stakes m = 0" "m_total_collateral m = 0" "m_total_coll_surplus m = 0" "m_surplus_collateral m = 0" "m_protocol_collateral m = 0"
    "m_l_coll m = 0" "m_l_art m = 0" "m_last_coll_redist_error m = 0" "m_last_art_redist_error m = 0"
    "m_last_update_ts m = unix_timestamp clk" "aa_signer A = cfg_gov_authority cfg" "m_collateral_mint m = aa_collateral_mint A"
    "m_liq_infra_flags m = LIQ_INFRA_GATED" "m_spot m = 0"
  using assms unfolding init_market_handler_def
  by (auto simp: bindR_Inr ensure_Inr ok_or_Inr checked_mul_Some config_ok_def validate_config_Inr param_clamps DEFAULT_SCR_BPS_def
      split: option.splits)

lemma init_market_ledger:
  assumes "init_market_handler T clk A args l cfg = Inr (l', m, bm)" "token_laws T"
  shows "tk_amount T l' = (tk_amount T l)(aa_collateral_vault A := 0)" "tk_supply T l' = tk_supply T l"
    "tk_mint T l' = (tk_mint T l)(aa_collateral_vault A := aa_collateral_mint A)"
    "tk_owner T l' = (tk_owner T l)(aa_collateral_vault A := aa_market A)"
proof -
  obtain l1 l2 where l1: "sys_create T l (aa_signer A) (aa_market A) = Some l1"
    and l2: "tk_init_account T l1 (aa_signer A) (aa_collateral_vault A) (aa_collateral_mint A) (aa_market A) = Some l2"
    and l': "sys_create T l2 (aa_signer A) (aa_redemption_bitmap A) = Some l'"
    using assms(1) unfolding init_market_handler_def by (auto simp: bindR_Inr ensure_Inr ok_or_Inr)
  note same = sys_same(2) [OF assms(2) l1] sys_same(2) [OF assms(2) l']
  show "tk_amount T l' = (tk_amount T l)(aa_collateral_vault A := 0)" "tk_supply T l' = tk_supply T l"
    "tk_mint T l' = (tk_mint T l)(aa_collateral_vault A := aa_collateral_mint A)"
    "tk_owner T l' = (tk_owner T l)(aa_collateral_vault A := aa_market A)"
    using same init_accountD [OF assms(2) l2] by (simp_all add: same_tokens_def)
qed

lemma new_bitmap_ok: "bitmap_ok new_bitmap" "b \<le> ZOMBIE_BUCKET \<Longrightarrow> tally new_bitmap b = 0"
proof -
  have e: "new_bitmap = bitmap0" by (simp add: new_bitmap_def bitmap0_def BITMAP_WORDS_def NUM_RATE_BUCKETS_def)
  show "bitmap_ok new_bitmap" unfolding e by (rule bitmap0_ok)
  show "tally new_bitmap b = 0" if "b \<le> ZOMBIE_BUCKET" using that unfolding e by (simp add: tally_def bitmap0_def ZOMBIE_BUCKET_eq)
qed

lemma apply_line_ceiling:
  "m_debt_ceiling (apply_line line gap m) \<le> line"
  "m_agg_recorded_debt m \<le> line \<Longrightarrow> line < 2 ^ 64 \<Longrightarrow> m_agg_recorded_debt m \<le> m_debt_ceiling (apply_line line gap m)"
  "m_debt_ceiling (apply_line line gap m) \<le> m_agg_recorded_debt m + gap"
  "line < m_agg_recorded_debt m \<Longrightarrow> line < 2 ^ 64 \<Longrightarrow> m_debt_ceiling (apply_line line gap m) = line"
  by (auto simp: apply_line_def saturating_add_def try_from_def)

end
