(* ===== verification/Governance_Safety.thy ===== *)
theory Governance_Safety
  imports Protocol_Admin Liquidate
begin

text \<open>
  What governance can and cannot do: the timelock, the validity of every reachable configuration,
  reading back an executed change, and the debt-ceiling line. Each property is followed by its instance on a small deployment.
\<close>

text \<open>C32. From a freshly created gate, whatever is queued, executed, cancelled or handed over in whatever order:
  every change that was applied had been queued with the same nonce and value at least the timelock
  earlier, by the first authority or by one that accepted the seat; no operation is spent twice;
  the delay itself never changes; and the configuration of market, oracle and backstop stays valid.\<close>

theorem timelock_enforced:
  assumes "gov_start a0 d s" "(gov_step T)\<^sup>*\<^sup>* s s'"
  shows "(\<forall>t n c. Applied t n c \<in> set (gs_log s') \<longrightarrow>
      (\<exists>a t0. Queued a t0 n c \<in> set (gs_log s') \<and> t0 + d \<le> t \<and> (a = a0 \<or> Accepted a \<in> set (gs_log s')))) \<and>
    distinct (nonces spent_nonce (gs_log s')) \<and> gg_timelock_secs (gs_gate s') = d \<and>
    market_cfg_ok (gs_market s', gs_oracle s') \<and> global_cfg_ok (gs_backstop s')"
proof -
  have i: "gov_inv a0 d s'" by (rule gov_reach_inv [OF assms(2) gov_start_inv [OF assms(1)]])
  then have q: "queue_ok d (gg_queue_nonce (gs_gate s')) (gs_log s') (pending s')" and s: "seat_ok a0 (gs_gate s') (gs_log s')"
    by (auto simp: gov_inv_def)
  have "\<exists>a t0. Queued a t0 n c \<in> set (gs_log s') \<and> t0 + d \<le> t \<and> (a = a0 \<or> Accepted a \<in> set (gs_log s'))"
    if "Applied t n c \<in> set (gs_log s')" for t n c
    using queue_okD(7) [OF q that] s unfolding seat_ok_def Let_def by blast
  then show ?thesis using i queue_okD(4) [OF q] by (auto simp: gov_inv_def)
qed

definition gov_gate0 :: governance_gate where
  "gov_gate0 = \<lparr> gg_inbound_authority = 30, gg_pending_inbound_authority = 0, gg_timelock_secs = 172800, gg_queue_nonce = 0 \<rparr>"

definition backstop0 :: global_backstop_reserve where
  "backstop0 = \<lparr> gb_fusd_vault = 25, gb_cut_bps = 0, gb_reserve_cap = 0, gb_draw_base_allowance = 0, gb_draw_k_bps = 0,
     gb_draw_ceiling_share_bps = 0, gb_draw_debt_share_bps = 0, gb_total_contributed = 0, gb_total_absorbed = 0, gb_total_withdrawn = 0 \<rparr>"

definition gov_state0 :: "ledger gov_state" where
  "gov_state0 = \<lparr> gs_clock = clock0, gs_ledger = ledger0 0, gs_gate = gov_gate0, gs_ops = Map.empty, gs_global_ops = Map.empty,
     gs_market = market0, gs_oracle = None, gs_backstop = backstop0, gs_log = [] \<rparr>"

definition gov_accounts0 :: gov_accounts where
  "gov_accounts0 = \<lparr> ga_signer = 30, ga_market = 3, ga_gate = 31, ga_op = 32 \<rparr>"

definition gov_op0 :: timelocked_param where
  "gov_op0 = \<lparr> tp_nonce = 0, tp_eta = 172800, tp_market = 3, tp_param = PMcr, tp_value = 12000 \<rparr>"

lemma market0_config: "config_ok market0"
  by (simp add: config_ok_def market0_def param_clamps)

lemma gov_start0: "gov_start 30 172800 gov_state0"
  by (simp add: gov_start_def gov_state0_def gov_gate0_def market_cfg_ok_def market0_config global_cfg_ok_def backstop0_def
      MIN_GOV_TIMELOCK_SECS_def MAX_GOV_TIMELOCK_SECS_def clock0_def)

lemma validate0: "validate_param_for_market (market0\<lparr> m_liq_grace_until := u \<rparr>) None PMcr 12000 = Inr ()"
  by (simp add: validate_param_for_market_def param_targets_oracle_def validate_config_Inr market0_def param_clamps ensure_def)

lemma gov_queue0:
  "queue_param_handler ledger_runtime clock0 gov_accounts0 PMcr 12000 (ledger0 0) gov_gate0 market0 None =
     Inr (ledger0 0, gov_gate0\<lparr> gg_queue_nonce := 1 \<rparr>, gov_op0)"
  using validate0 [of 0]
  by (simp add: queue_param_handler_def gov_accounts0_def gov_gate0_def gov_op0_def ledger_runtime_def clock0_def ensure_def
      i64_sat_def checked_add_def market0_def)

lemma gov_execute0:
  "execute_param_handler ledger_runtime (clock0\<lparr> unix_timestamp := 172800 \<rparr>) gov_accounts0 (ledger0 0) gov_op0 market0 None =
     Inr (ledger0 0, market0\<lparr> m_liq_grace_until := 9000, m_mcr_bps := 12000 \<rparr>, None)"
  using validate0 [of 0]
  by (simp add: execute_param_handler_def gov_accounts0_def gov_op0_def ledger_runtime_def clock0_def ensure_def
      saturating_add_def market0_def MCR_RAISE_GRACE_SLOTS_def)

lemma gov_run0:
  "\<exists>s. (gov_step ledger_runtime)\<^sup>*\<^sup>* gov_state0 s \<and> m_mcr_bps (gs_market s) = 12000 \<and>
     gs_log s = [Applied 172800 0 (MarketChange PMcr 12000), Queued 30 0 0 (MarketChange PMcr 12000)]"
proof -
  let ?s1 = "gov_log (Queued 30 0 0 (MarketChange PMcr 12000)) (gov_state0\<lparr> gs_ledger := ledger0 0,
    gs_gate := gov_gate0\<lparr> gg_queue_nonce := 1 \<rparr>, gs_ops := Map.empty(32 \<mapsto> gov_op0) \<rparr>)"
  let ?s2 = "?s1\<lparr> gs_clock := clock0\<lparr> unix_timestamp := 172800 \<rparr> \<rparr>"
  let ?s3 = "gov_log (Applied 172800 0 (MarketChange PMcr 12000)) (?s2\<lparr> gs_ledger := ledger0 0,
    gs_market := market0\<lparr> m_liq_grace_until := 9000, m_mcr_bps := 12000 \<rparr>, gs_oracle := None, gs_ops := (gs_ops ?s2)(32 := None) \<rparr>)"
  have 1: "gov_step ledger_runtime gov_state0 ?s1"
    using gov_step.queue_param [where s = gov_state0 and A = gov_accounts0 and p = PMcr and v = 12000 and T = ledger_runtime] gov_queue0
    by (simp add: gov_state0_def gov_accounts0_def gov_op0_def clock0_def)
  have 2: "gov_step ledger_runtime ?s1 ?s2"
    by (rule gov_step.tick) (simp_all add: gov_state0_def clock0_def)
  have 3: "gov_step ledger_runtime ?s2 ?s3"
    using gov_step.execute_param [where s = ?s2 and A = gov_accounts0 and op = gov_op0 and T = ledger_runtime] gov_execute0
    by (simp add: gov_state0_def gov_accounts0_def gov_op0_def clock0_def gov_log_def)
  have "(gov_step ledger_runtime)\<^sup>*\<^sup>* gov_state0 ?s3"
    using 1 2 3 by (meson rtranclp.rtrancl_into_rtrancl rtranclp.rtrancl_refl)
  moreover have "m_mcr_bps (gs_market ?s3) = 12000"
    "gs_log ?s3 = [Applied 172800 0 (MarketChange PMcr 12000), Queued 30 0 0 (MarketChange PMcr 12000)]"
    by (simp_all add: gov_state0_def)
  ultimately show ?thesis by blast
qed

theorem timelock_enforced_witness:
  "\<exists>s. (gov_step ledger_runtime)\<^sup>*\<^sup>* gov_state0 s \<and> Applied 172800 0 (MarketChange PMcr 12000) \<in> set (gs_log s) \<and>
     (\<exists>a t0. Queued a t0 0 (MarketChange PMcr 12000) \<in> set (gs_log s) \<and> t0 + 172800 \<le> 172800) \<and>
     market_cfg_ok (gs_market s, gs_oracle s)"
proof -
  obtain s where r: "(gov_step ledger_runtime)\<^sup>*\<^sup>* gov_state0 s"
    and l: "gs_log s = [Applied 172800 0 (MarketChange PMcr 12000), Queued 30 0 0 (MarketChange PMcr 12000)]"
    using gov_run0 by blast
  have "Applied 172800 0 (MarketChange PMcr 12000) \<in> set (gs_log s)" by (simp add: l)
  with r timelock_enforced [OF gov_start0 r] show ?thesis by blast
qed

text \<open>C33. A market created by \<open>init_market\<close> has a valid configuration, and keeps one under every sequence of parameter
  changes, whatever values are proposed: those that are not admitted change nothing. In particular the
  shutdown ratio never exceeds the minimum ratio, a liquidation at the minimum ratio can pay the
  advertised bonus and covers the debt after the liquidator's share.\<close>

theorem config_stays_valid:
  assumes "init_market_handler T clk A args l cfg = Inr (l', m, bm)"
  shows "market_cfg_ok (run_changes market_admits market_put (m, None) cs)"
  by (rule mkt.run_ok) (simp add: market_cfg_ok_def init_market_Inr(1) [OF assms])

definition admin_accounts0 :: admin_accounts where
  "admin_accounts0 = \<lparr> aa_signer = 40, aa_config = 41, aa_mint_authority = 9, aa_fusd_mint = 8, aa_collateral_mint = 1, aa_market = 3,
     aa_collateral_vault = 2, aa_redemption_bitmap = 6, aa_reactor_pool = 11, aa_epoch_to_scale_to_sum = 14,
     aa_reactor_fusd_vault = 12, aa_reactor_coll_vault = 13, aa_insurance_buffer = 22, aa_buffer_fusd_vault = 23,
     aa_debt_ceiling_line = 42, aa_supply_recon = 43 \<rparr>"

definition config0 :: protocol_config where
  "config0 = \<lparr> cfg_gov_authority = 40, cfg_guardian = 44, cfg_deployer = 45, cfg_fusd_mint = 8, cfg_pending_gov_authority = 0,
     cfg_pyth_receiver_program_id = PYTH_RECEIVER_PROGRAM_ID, cfg_pyth_receiver_program_id_alt = PYTH_RECEIVER_PROGRAM_ID_UPGRADED,
     cfg_switchboard_program_id = SWITCHBOARD_ON_DEMAND_PROGRAM_ID \<rparr>"

definition init_args0 :: init_market_args where
  "init_args0 = \<lparr> ia_mcr_bps = 11000, ia_debt_ceiling = 1000000000000, ia_reserve_lamports = 20000000, ia_liq_gas_comp_bps = 50,
     ia_liq_bonus_bps = 1000, ia_bucket_width_bps = 10, ia_redemption_fee_bps = 50 \<rparr>"

lemma init_market0:
  "\<exists>l m. init_market_handler ledger_runtime clock0 admin_accounts0 init_args0 (ledger0 0) config0 = Inr (l, m, new_bitmap) \<and>
     m_mcr_bps m = 11000"
  by (simp add: init_market_handler_def admin_accounts0_def init_args0_def config0_def ledger_runtime_def ensure_def
      validate_market_config_def checked_mul_def NUM_RATE_BUCKETS_def MAX_USER_RATE_BPS_def MIN_BUCKET_WIDTH_BPS_def
      MAX_BUCKET_WIDTH_BPS_def MAX_RESERVE_LAMPORTS_def DEFAULT_SCR_BPS_def param_clamps)

theorem config_stays_valid_witness:
  "\<exists>l m. init_market_handler ledger_runtime clock0 admin_accounts0 init_args0 (ledger0 0) config0 = Inr (l, m, new_bitmap) \<and>
     market_cfg_ok (run_changes market_admits market_put (m, None) [(PMcr, 9000), (PMcr, 12000)])"
proof -
  obtain l m where h: "init_market_handler ledger_runtime clock0 admin_accounts0 init_args0 (ledger0 0) config0 = Inr (l, m, new_bitmap)"
    using init_market0 by blast
  show ?thesis by (intro exI conjI) (rule h, rule config_stays_valid [OF h])
qed

text \<open>C34. Reading back: after an admitted change of a market or oracle parameter the parameter has exactly the
  proposed value and every other parameter the value it had; the same holds for the backstop.\<close>

theorem param_roundtrip:
  assumes "v < 2 ^ 64" "validate_param_for_market m orc p v = Inr ()" "apply_param m orc p v = (m', orc')"
    and "validate_global_param g w = Inr ()"
  shows "current_param m' orc' p = v \<and> (q \<noteq> p \<longrightarrow> current_param m' orc' q = current_param m orc q) \<and>
    current_global_param (apply_global_param b g w) g = w \<and>
    (h \<noteq> g \<longrightarrow> current_global_param (apply_global_param b g w) h = current_global_param b h)"
  using assms mkt.get_put [of "(m, orc)" p v] mkt.get_other [of q p "(m, orc)" v] glb.get_put [of b g w] glb.get_other [of h g b w]
  by (simp add: market_admits_def market_put_def market_get_def global_admits_def)

theorem param_roundtrip_witness:
  "current_param (market0\<lparr> m_mcr_bps := 12000 \<rparr>) None PMcr = 12000 \<and>
   current_global_param (apply_global_param backstop0 GCut 3000) GCut = 3000"
  using param_roundtrip [of 12000 market0 None PMcr "market0\<lparr> m_mcr_bps := 12000 \<rparr>" None GCut 3000 PScr backstop0 GDrawK] validate0 [of 0]
  by (simp add: market0_def ensure_def param_clamps)

text \<open>C36. On a market with a debt-ceiling line, after anyone has bumped the ceiling no loan brings the market's debt above
  the line governance set, nor more than one gap above the debt at the bump, and until the interval
  has passed nobody can bump again.\<close>

theorem ceiling_line_bounds_debt:
  assumes "bump_debt_ceiling_handler clk m dcl = Inr (m1, dcl1)"
    and "borrow_handler T clk' A amount l m1 p bm = Inr (l', m', p', bm')" "token_laws T" "bitmap_ok bm"
    and "unix_timestamp clk + dl_ttl dcl < 2 ^ 63" "unix_timestamp clk2 < unix_timestamp clk + dl_ttl dcl"
  shows "m_agg_recorded_debt m' \<le> dl_line dcl \<and> m_agg_recorded_debt m' \<le> m_agg_recorded_debt m1 + dl_gap dcl \<and>
    bump_debt_ceiling_handler clk2 m2 dcl1 = Inl (Raised RateLimitExceeded)"
proof -
  obtain m0 where m0: "accrue m (unix_timestamp clk) = Inr m0"
    and m1: "m1 = apply_line (dl_line dcl) (dl_gap dcl) m0" and d1: "dcl1 = dcl\<lparr> dl_last_bump_ts := unix_timestamp clk \<rparr>"
    using assms(1) unfolding bump_debt_ceiling_handler_def Let_def by (auto simp: bindR_Inr ensure_Inr)
  have "m_agg_recorded_debt m' \<le> m_debt_ceiling m1" using borrow_effect [OF assms(2,3,4)] by blast
  moreover have "m_agg_recorded_debt m1 = m_agg_recorded_debt m0" by (simp add: m1 apply_line_def)
  moreover have "\<not> i64_sat (dl_last_bump_ts dcl1 + dl_ttl dcl1) \<le> unix_timestamp clk2"
    using assms(5,6) by (simp add: d1 i64_sat_def)
  ultimately show ?thesis
    using apply_line_ceiling(1,3) [of "dl_line dcl" "dl_gap dcl" m0] unfolding m1
    by (auto simp: bump_debt_ceiling_handler_def ensure_def intro: order_trans)
qed

definition line0 :: debt_ceiling_line where
  "line0 = \<lparr> dl_collateral_mint = 1, dl_line = 1000000000000, dl_gap = 1000000000000, dl_ttl = 60, dl_last_bump_ts = - 60 \<rparr>"

theorem ceiling_line_bounds_debt_witness:
  "bump_debt_ceiling_handler clock0 (market1 0) line0 = Inr (market1 0, line0\<lparr> dl_last_bump_ts := 0 \<rparr>) \<and>
   m_agg_recorded_debt (market1 700) \<le> 1000000000000 \<and>
   bump_debt_ceiling_handler clock0 (market1 700) (line0\<lparr> dl_last_bump_ts := 0 \<rparr>) = Inl (Raised RateLimitExceeded)"
proof -
  have "apply_line 1000000000000 1000000000000 (market1 0) = market1 0"
    by (simp add: apply_line_def market1_def market0_def try_from_def saturating_add_def)
  then have b: "bump_debt_ceiling_handler clock0 (market1 0) line0 = Inr (market1 0, line0\<lparr> dl_last_bump_ts := 0 \<rparr>)"
    using open0(2) [of 0] by (simp add: bump_debt_ceiling_handler_def line0_def clock0_def ensure_def i64_sat_def)
  show ?thesis
    using b ceiling_line_bounds_debt [OF b borrow0 ledger_runtime_laws bitmap0_ok, of clock0 "market1 700"] by (simp add: line0_def clock0_def)
qed

end
