(* ===== verification/Oracle.thy ===== *)
theory Oracle
  imports Fixed_Point
begin

text \<open>
  Price scaling (\<^verbatim>\<open>crates/fusd-math/src/oracle_scale.rs\<close>), the time-weighted observation ring
  (\<^verbatim>\<open>crates/fusd-oracle/src/twap.rs\<close>) and the aggregation of the price feeds
  (\<^verbatim>\<open>crates/fusd-oracle/src/lib.rs\<close>). The ring is related to the list of its observations in the
  order they were made, and the average it computes to the price in effect in every second of the window.
\<close>

subsection \<open>Price scaling\<close>

text \<open>The further operations of the 256-bit type the scaling uses.\<close>

record 'u u256x = "'u u256" +
  u_pow :: "'u \<Rightarrow> nat \<Rightarrow> 'u"
  u_shr :: "'u \<Rightarrow> nat \<Rightarrow> 'u"

definition u256x_laws :: "'u u256x \<Rightarrow> bool" where
  "u256x_laws U \<longleftrightarrow> u256_laws (u256.truncate U) \<and>
     (\<forall>x e. u_val U x ^ e < 2 ^ 256 \<longrightarrow> u_val U (u_pow U x e) = u_val U x ^ e) \<and>
     (\<forall>x k. k < 256 \<longrightarrow> u_val U (u_shr U x k) = u_val U x div 2 ^ k)"

definition word256x :: "256 word u256x" where
  "word256x = u256.extend word256 (u256x.fields (\<lambda>x e. x ^ e) (\<lambda>x k. drop_bit k x))"

definition ten_pow :: "'u u256x \<Rightarrow> nat \<Rightarrow> 'u option" where
  "ten_pow U e = (if e > 60 then None else Some (u_pow U (u_from U 10) e))"

definition px_to_ray :: "'u u256x \<Rightarrow> nat \<Rightarrow> int \<Rightarrow> nat option" where
  "px_to_ray U price expo =
     (case u_checked_mul U (u_from U price) (u_from U RAY) of
        None \<Rightarrow> None
      | Some base \<Rightarrow>
         (case (if expo < 0
                then (case ten_pow U (nat \<bar>expo\<bar>) of None \<Rightarrow> None | Some t \<Rightarrow> Some (u_div U base t))
                else (case ten_pow U (nat expo) of None \<Rightarrow> None | Some t \<Rightarrow> u_checked_mul U base t)) of
            None \<Rightarrow> None
          | Some scaled \<Rightarrow> u_try_u128 U scaled))"

definition usd_ray_to_spot :: "'u u256x \<Rightarrow> nat \<Rightarrow> nat \<Rightarrow> nat \<Rightarrow> nat option" where
  "usd_ray_to_spot U usd_ray coll_decimals fusd_decimals =
     (case ten_pow U fusd_decimals of
        None \<Rightarrow> None
      | Some f \<Rightarrow>
         (case u_checked_mul U (u_from U usd_ray) f of
            None \<Rightarrow> None
          | Some num \<Rightarrow>
             (case ten_pow U coll_decimals of
                None \<Rightarrow> None
              | Some c \<Rightarrow> u_try_u128 U (u_div U num c))))"

definition sqrt_price_q64_to_ray :: "'u u256x \<Rightarrow> nat \<Rightarrow> nat \<Rightarrow> nat \<Rightarrow> nat option" where
  "sqrt_price_q64_to_ray U sqrt_price base_decimals quote_decimals =
     (if sqrt_price = 0 then None
      else
      (let sp = u_from U sqrt_price in
       case u_checked_mul U sp sp of
         None \<Rightarrow> None
       | Some sq \<Rightarrow>
          (let q = u_shr U sq 64 in
           case u_checked_mul U q (u_from U RAY) of
             None \<Rightarrow> None
           | Some pr \<Rightarrow>
              (let price_raw_ray = u_shr U pr 64 in
               case ten_pow U base_decimals of
                 None \<Rightarrow> None
               | Some b \<Rightarrow>
                  (case u_checked_mul U price_raw_ray b of
                     None \<Rightarrow> None
                   | Some num \<Rightarrow>
                      (case ten_pow U quote_decimals of
                         None \<Rightarrow> None
                       | Some t \<Rightarrow> u_try_u128 U (u_div U num t)))))))"

subsection \<open>The observation ring\<close>

record observation =
  ob_price :: nat
  ob_ts :: int

record twap_config =
  tc_min_samples :: nat
  tc_max_staleness :: int

text \<open>The ring; its capacity \<open>N\<close> is the length of both arrays. In the program it is overlaid on the account \<open>DexTwap\<close>.\<close>

record observation_ring =
  rg_prices :: "nat list"
  rg_ts :: "int list"
  rg_next :: nat
  rg_count :: nat

definition ring_new :: "nat \<Rightarrow> observation_ring" where
  "ring_new N = \<lparr> rg_prices = replicate N 0, rg_ts = replicate N 0, rg_next = 0, rg_count = 0 \<rparr>"

definition ring_at :: "observation_ring \<Rightarrow> nat \<Rightarrow> observation" where
  "ring_at r idx = \<lparr> ob_price = rg_prices r ! idx, ob_ts = rg_ts r ! idx \<rparr>"

definition ring_last :: "nat \<Rightarrow> observation_ring \<Rightarrow> observation option" where
  "ring_last N r = (if rg_count r = 0 then None else Some (ring_at r ((rg_next r + N - 1) mod N)))"

definition ring_nth :: "nat \<Rightarrow> observation_ring \<Rightarrow> nat \<Rightarrow> observation" where
  "ring_nth N r k = (let oldest = (rg_next r + N - rg_count r) mod N in ring_at r ((oldest + k) mod N))"

text \<open>\<open>None\<close> is \<open>TwapError::NonMonotonicTs\<close>.\<close>

definition ring_push :: "nat \<Rightarrow> observation_ring \<Rightarrow> nat \<Rightarrow> int \<Rightarrow> observation_ring option" where
  "ring_push N r price ts =
     (if (case ring_last N r of Some o1 \<Rightarrow> ts \<le> ob_ts o1 | None \<Rightarrow> False) then None
      else Some (r\<lparr> rg_prices := (rg_prices r)[rg_next r := price], rg_ts := (rg_ts r)[rg_next r := ts],
                    rg_next := (rg_next r + 1) mod N,
                    rg_count := (if rg_count r < N then rg_count r + 1 else rg_count r) \<rparr>))"

function twap_loop :: "nat \<Rightarrow> observation_ring \<Rightarrow> int \<Rightarrow> int \<Rightarrow> nat \<Rightarrow> nat \<Rightarrow> nat \<Rightarrow> nat option" where
  "twap_loop N r start now n k acc =
     (if k < n
      then let o1 = ring_nth N r k;
               seg_start = max (ob_ts o1) start;
               seg_end = min (if k + 1 < n then ob_ts (ring_nth N r (k + 1)) else now) now in
           if seg_end \<le> seg_start then twap_loop N r start now n (k + 1) acc
           else (case checked_mul 128 (ob_price o1) (nat (seg_end - seg_start)) of
                   None \<Rightarrow> None
                 | Some x \<Rightarrow> (case checked_add 128 acc x of None \<Rightarrow> None | Some acc \<Rightarrow> twap_loop N r start now n (k + 1) acc))
      else Some acc)"
  by pat_completeness auto
termination by (relation "measure (\<lambda>(N, r, start, now, n, k, acc). n - k)") auto

declare twap_loop.simps [simp del]

text \<open>The only subtraction of timestamps that could leave 64 bits panics there.\<close>

definition ring_twap :: "nat \<Rightarrow> observation_ring \<Rightarrow> int \<Rightarrow> int \<Rightarrow> twap_config \<Rightarrow> 'e failure + nat option" where
  "ring_twap N r now window cfg =
     (if window \<le> 0 \<or> rg_count r < tc_min_samples cfg \<or> rg_count r = 0 then Inr None
      else case ring_last N r of
        None \<Rightarrow> Inr None
      | Some newest \<Rightarrow>
          if now < ob_ts newest then Inr None
          else if now - ob_ts newest \<ge> 2 ^ 63 then Inl Panic
          else if now - ob_ts newest > tc_max_staleness cfg then Inr None
          else if now - window < - (2 ^ 63) then Inr None
          else let start = now - window in
          if ob_ts (ring_nth N r 0) > start then Inr None
          else case twap_loop N r start now (rg_count r) 0 0 of
            None \<Rightarrow> Inr None
          | Some acc \<Rightarrow> Inr (Some (acc div nat window)))"

subsection \<open>Aggregation\<close>

datatype oracle_mode = ModeOk | ModeMintFrozen

record price_view =
  pv_price :: nat
  pv_conf :: nat
  pv_expo :: int
  pv_publish_ts :: int

definition BPS :: nat where "BPS = 10000"

definition conf_ratio_bps :: "price_view \<Rightarrow> nat" where
  "conf_ratio_bps v = (if pv_price v = 0 then 2 ^ 128 - 1 else saturating_mul 128 (pv_conf v) BPS div pv_price v)"

definition is_stale :: "price_view \<Rightarrow> int \<Rightarrow> int \<Rightarrow> bool" where
  "is_stale v now max_age_secs \<longleftrightarrow> i64_sat (now - pv_publish_ts v) > max_age_secs"

definition collateral_price :: "price_view \<Rightarrow> nat \<Rightarrow> nat" where
  "collateral_price p k_bps = (let haircut = saturating_mul 128 (pv_conf p) k_bps div BPS in pv_price p - haircut)"

definition debt_price :: "price_view \<Rightarrow> nat \<Rightarrow> nat" where
  "debt_price p k_bps = (let markup = saturating_mul 128 (pv_conf p) k_bps div BPS in saturating_add 128 (pv_price p) markup)"

record oracle_config =
  oc_max_conf_bps :: nat
  oc_max_deviation_bps :: nat
  oc_twap_max_divergence_bps :: nat
  oc_max_age_secs :: int
  oc_k_bps :: nat
  oc_band_lower_ray :: nat
  oc_band_upper_ray :: nat
  oc_liq_max_divergence_bps :: nat
  oc_canonical_required :: bool
  oc_twap_corridor_optional :: bool

record oracle_result =
  or_collateral_price :: nat
  or_debt_price :: nat
  or_mode :: oracle_mode
  or_fresh :: bool
  or_plausible :: bool
  or_liq_divergent :: bool

definition deviation_bps :: "nat \<Rightarrow> nat \<Rightarrow> nat" where
  "deviation_bps a b =
     (let (lo, hi) = (if a < b then (a, b) else (b, a)) in
      if lo = 0 then 2 ^ 128 - 1 else saturating_mul 128 (hi - lo) BPS div lo)"

definition pv_fresh :: "price_view \<Rightarrow> int \<Rightarrow> oracle_config \<Rightarrow> bool" where
  "pv_fresh v now cfg \<longleftrightarrow> \<not> is_stale v now (oc_max_age_secs cfg) \<and> pv_price v > 0"

definition choose_view :: "price_view \<Rightarrow> price_view option \<Rightarrow> int \<Rightarrow> oracle_config \<Rightarrow> price_view" where
  "choose_view pyth switchboard now cfg =
     (if pv_fresh pyth now cfg then pyth
      else case switchboard of
        Some s \<Rightarrow>
          if pv_fresh s now cfg then s
          else if pv_price s > 0 \<and> (pv_price pyth = 0 \<or> pv_publish_ts s > pv_publish_ts pyth) then s else pyth
      | None \<Rightarrow> pyth)"

definition aggregate :: "price_view \<Rightarrow> price_view option \<Rightarrow> nat option \<Rightarrow> nat option \<Rightarrow> int \<Rightarrow> oracle_config \<Rightarrow> oracle_result" where
  "aggregate pyth switchboard dex_twap canonical now cfg =
     (let pyth_fresh = pv_fresh pyth now cfg;
          sb_fresh = (case switchboard of Some s \<Rightarrow> pv_fresh s now cfg | None \<Rightarrow> False);
          chosen = choose_view pyth switchboard now cfg;
          plausible = ((oc_band_lower_ray cfg = 0 \<or> pv_price chosen \<ge> oc_band_lower_ray cfg) \<and>
                       (oc_band_upper_ray cfg = 0 \<or> pv_price chosen \<le> oc_band_upper_ray cfg));
          liq_divergent = (oc_liq_max_divergence_bps cfg > 0 \<and> pyth_fresh \<and>
            ((case switchboard of
                Some s \<Rightarrow> sb_fresh \<and> pv_expo s = pv_expo pyth \<and>
                          deviation_bps (pv_price pyth) (pv_price s) > oc_liq_max_divergence_bps cfg
              | None \<Rightarrow> False) \<or>
             (case dex_twap of
                Some t \<Rightarrow> deviation_bps (pv_price pyth) t > oc_liq_max_divergence_bps cfg | None \<Rightarrow> False)));
          coll_mid = (case canonical of Some c \<Rightarrow> min (pv_price chosen) c | None \<Rightarrow> pv_price chosen);
          coll_haircut = saturating_mul 128 (pv_conf chosen) (oc_k_bps cfg) div BPS;
          collateral = coll_mid - coll_haircut;
          mint_allowed = (pyth_fresh \<and> conf_ratio_bps pyth \<le> oc_max_conf_bps cfg \<and>
            (case switchboard of
               Some s \<Rightarrow> sb_fresh \<and> pv_expo s = pv_expo pyth \<and>
                         deviation_bps (pv_price pyth) (pv_price s) \<le> oc_max_deviation_bps cfg
             | None \<Rightarrow> False) \<and>
            (if oc_twap_corridor_optional cfg
             then (case dex_twap of Some t \<Rightarrow> deviation_bps (pv_price pyth) t \<le> oc_twap_max_divergence_bps cfg | None \<Rightarrow> True)
             else (case dex_twap of Some t \<Rightarrow> deviation_bps (pv_price pyth) t \<le> oc_twap_max_divergence_bps cfg | None \<Rightarrow> False)) \<and>
            plausible \<and> (\<not> oc_canonical_required cfg \<or> canonical \<noteq> None))
      in \<lparr> or_collateral_price = collateral, or_debt_price = debt_price chosen (oc_k_bps cfg),
           or_mode = (if mint_allowed then ModeOk else ModeMintFrozen), or_fresh = (pyth_fresh \<or> sb_fresh),
           or_plausible = plausible, or_liq_divergent = liq_divergent \<rparr>)"

subsection \<open>Scaling is exact\<close>

lemma word256x_laws: "u256x_laws word256x"
proof -
  have t: "u256.truncate word256x = word256" by (simp add: word256x_def word256_def u256.defs u256x.defs)
  have p: "unat (x ^ e) = unat x ^ e" if "unat x ^ e < 2 ^ 256" for x :: "256 word" and e
  proof -
    have "unat (x ^ e) = unat (word_of_nat (unat x ^ e) :: 256 word)" by simp
    also have "\<dots> = unat x ^ e" using that by (simp only: unat_of_nat) simp
    finally show ?thesis .
  qed
  have f: "u_val word256x = unat" "u_pow word256x = (^)" "u_shr word256x = (\<lambda>x k. drop_bit k x)"
    by (simp_all add: word256x_def word256_def u256.defs u256x.defs)
  have d: "unat (drop_bit k x) = unat x div 2 ^ k" for x :: "256 word" and k
    by (simp only: unat_drop_bit_eq) (simp only: drop_bit_eq_div)
  show ?thesis
    unfolding u256x_laws_def t f using word256_laws p d by blast
qed

lemma u256x_exact:
  assumes "u256x_laws U"
  shows "n < 2 ^ 128 \<Longrightarrow> u_val U (u_from U n) = n"
    "u_checked_mul U x y = None \<longleftrightarrow> \<not> u_val U x * u_val U y < 2 ^ 256"
    "u_checked_mul U x y = Some z \<Longrightarrow> u_val U z = u_val U x * u_val U y"
    "u_val U y \<noteq> 0 \<Longrightarrow> u_val U (u_div U x y) = u_val U x div u_val U y"
    "u_try_u128 U x = (if u_val U x < 2 ^ 128 then Some (u_val U x) else None)"
    "k < 256 \<Longrightarrow> u_val U (u_shr U x k) = u_val U x div 2 ^ k"
    "u_val U x ^ e < 2 ^ 256 \<Longrightarrow> u_val U (u_pow U x e) = u_val U x ^ e"
proof -
  have L: "u256_laws (u256.truncate U)" using assms by (simp add: u256x_laws_def)
  have m: "map_option (u_val U) (u_checked_mul U x y) = (if u_val U x * u_val U y < 2 ^ 256 then Some (u_val U x * u_val U y) else None)"
    using L by (simp add: u256_laws_def u256.defs)
  show "n < 2 ^ 128 \<Longrightarrow> u_val U (u_from U n) = n" "u_val U y \<noteq> 0 \<Longrightarrow> u_val U (u_div U x y) = u_val U x div u_val U y"
    "u_try_u128 U x = (if u_val U x < 2 ^ 128 then Some (u_val U x) else None)"
    using L by (simp_all add: u256_laws_def u256.defs)
  show "u_checked_mul U x y = None \<longleftrightarrow> \<not> u_val U x * u_val U y < 2 ^ 256"
    "u_checked_mul U x y = Some z \<Longrightarrow> u_val U z = u_val U x * u_val U y"
    using m by (auto split: if_splits)
  show "k < 256 \<Longrightarrow> u_val U (u_shr U x k) = u_val U x div 2 ^ k"
    "u_val U x ^ e < 2 ^ 256 \<Longrightarrow> u_val U (u_pow U x e) = u_val U x ^ e"
    using assms by (simp_all add: u256x_laws_def)
qed

lemma ten_pow_eq:
  assumes "u256x_laws U"
  shows "ten_pow U e = None \<longleftrightarrow> e > 60" "ten_pow U e = Some t \<Longrightarrow> u_val U t = 10 ^ e"
proof -
  have "(10::nat) ^ e < 2 ^ 256" if "e \<le> 60"
  proof -
    have "(10::nat) ^ e \<le> 10 ^ 60" using that by (intro power_increasing) simp_all
    also have "\<dots> < 2 ^ 256" by simp
    finally show ?thesis .
  qed
  then show "ten_pow U e = None \<longleftrightarrow> e > 60" "ten_pow U e = Some t \<Longrightarrow> u_val U t = 10 ^ e"
    using u256x_exact(1) [OF assms, of 10] u256x_exact(7) [OF assms, of "u_from U 10" e]
    by (auto simp: ten_pow_def split: if_splits)
qed

lemma usd_ray_to_spot_eq:
  assumes "u256x_laws U" "usd < 2 ^ 128"
  shows "usd_ray_to_spot U usd c f =
    (if c \<le> 60 \<and> f \<le> 60 \<and> usd * 10 ^ f < 2 ^ 256 \<and> usd * 10 ^ f div 10 ^ c < 2 ^ 128 then Some (usd * 10 ^ f div 10 ^ c) else None)"
proof (cases "f \<le> 60 \<and> c \<le> 60")
  case False
  then have "ten_pow U f = None \<or> ten_pow U c = None"
    using ten_pow_eq(1) [OF assms(1), of f] ten_pow_eq(1) [OF assms(1), of c] by auto
  then have "usd_ray_to_spot U usd c f = None" by (auto simp: usd_ray_to_spot_def split: option.splits)
  then show ?thesis using False by auto
next
  case True
  then obtain tf tc where t: "ten_pow U f = Some tf" "ten_pow U c = Some tc"
    using ten_pow_eq(1) [OF assms(1), of f] ten_pow_eq(1) [OF assms(1), of c] by (cases "ten_pow U f"; cases "ten_pow U c") auto
  note v = ten_pow_eq(2) [OF assms(1) t(1)] ten_pow_eq(2) [OF assms(1) t(2)] u256x_exact(1) [OF assms]
  show ?thesis
  proof (cases "u_checked_mul U (u_from U usd) tf")
    case None
    then show ?thesis using u256x_exact(2) [OF assms(1), of "u_from U usd" tf] by (simp add: usd_ray_to_spot_def t v)
  next
    case (Some num)
    have n: "u_val U num = usd * 10 ^ f" using u256x_exact(3) [OF assms(1) Some] by (simp add: v)
    have "usd * 10 ^ f < 2 ^ 256" using u256x_exact(2) [OF assms(1), of "u_from U usd" tf] Some by (simp add: v)
    moreover have "u_val U (u_div U num tc) = usd * 10 ^ f div 10 ^ c" using u256x_exact(4) [OF assms(1), of tc num] by (simp add: v n)
    ultimately show ?thesis using True by (simp add: usd_ray_to_spot_def t Some u256x_exact(5) [OF assms(1)])
  qed
qed

lemma px_to_ray_eq:
  assumes "u256x_laws U" "price < 2 ^ 128"
  shows "px_to_ray U price expo =
    (if \<bar>expo\<bar> > 60 then None
     else let v = (if expo < 0 then price * RAY div 10 ^ nat \<bar>expo\<bar> else price * RAY * 10 ^ nat expo) in
       if v < 2 ^ 128 then Some v else None)"
proof -
  have r: "u_val U (u_from U RAY) = RAY" by (rule u256x_exact(1) [OF assms(1)]) (simp add: RAY_def)
  have f: "price * RAY < 2 ^ 256"
  proof -
    have "price * RAY < 2 ^ 128 * 2 ^ 128" using assms(2) by (intro mult_strict_mono) (auto simp: RAY_def)
    then show ?thesis by (simp add: power_add [symmetric])
  qed
  obtain b where b: "u_checked_mul U (u_from U price) (u_from U RAY) = Some b" "u_val U b = price * RAY"
    using f u256x_exact(2,3) [OF assms(1), of "u_from U price" "u_from U RAY"] u256x_exact(1) [OF assms] r by fastforce
  show ?thesis
  proof (cases "\<bar>expo\<bar> > 60")
    case True
    then show ?thesis using ten_pow_eq(1) [OF assms(1), of "nat \<bar>expo\<bar>"] ten_pow_eq(1) [OF assms(1), of "nat expo"]
      by (auto simp: px_to_ray_def b split: option.splits)
  next
    case False
    then obtain t t' where t: "ten_pow U (nat \<bar>expo\<bar>) = Some t" "ten_pow U (nat expo) = Some t'"
      using ten_pow_eq(1) [OF assms(1), of "nat \<bar>expo\<bar>"] ten_pow_eq(1) [OF assms(1), of "nat expo"] by fastforce
    note v = ten_pow_eq(2) [OF assms(1) t(1)] ten_pow_eq(2) [OF assms(1) t(2)]
    show ?thesis
    proof (cases "expo < 0")
      case True
      then show ?thesis using False t v b(2) u256x_exact(4) [OF assms(1), of t b]
        by (simp add: px_to_ray_def b(1) u256x_exact(5) [OF assms(1)] Let_def)
    next
      case pos: False
      have "(2::nat) ^ 128 \<le> 2 ^ 256" by simp
      then have "u_checked_mul U b t' = None \<Longrightarrow> \<not> price * RAY * 10 ^ nat expo < 2 ^ 128"
        using u256x_exact(2) [OF assms(1), of b t'] by (simp add: v b(2))
      then show ?thesis using False pos v b(2) u256x_exact(3) [OF assms(1), of b t']
        by (cases "u_checked_mul U b t'") (simp_all add: px_to_ray_def b(1) t u256x_exact(5) [OF assms(1)] Let_def)
    qed
  qed
qed

text \<open>The scaled price is the true one rounded down, at most by one unit of each of the two intermediate roundings.\<close>

lemma sqrt_price_bounds:
  assumes "u256x_laws U" "sqrt_price < 2 ^ 128" "sqrt_price_q64_to_ray U sqrt_price b q = Some v"
  shows "v * 10 ^ q * 2 ^ 128 \<le> sqrt_price ^ 2 * RAY * 10 ^ b"
    "sqrt_price ^ 2 * RAY * 10 ^ b < ((v + 1) * 10 ^ q + 10 ^ b) * 2 ^ 128 + RAY * 10 ^ b * 2 ^ 64"
proof -
  have r: "u_val U (u_from U RAY) = RAY" by (rule u256x_exact(1) [OF assms(1)]) (simp add: RAY_def)
  note U = assms(1)
  obtain sq pr bp num t where
    sq: "u_checked_mul U (u_from U sqrt_price) (u_from U sqrt_price) = Some sq" and
    pr: "u_checked_mul U (u_shr U sq 64) (u_from U RAY) = Some pr" and bp: "ten_pow U b = Some bp" and
    num: "u_checked_mul U (u_shr U pr 64) bp = Some num" and t: "ten_pow U q = Some t" and v: "u_try_u128 U (u_div U num t) = Some v"
    using assms(3) by (auto simp: sqrt_price_q64_to_ray_def Let_def split: if_splits option.splits)
  define s where "s = sqrt_price ^ 2"
  have v': "v = (s div 2 ^ 64 * RAY div 2 ^ 64) * 10 ^ b div 10 ^ q"
    using v u256x_exact(3) [OF U sq] u256x_exact(3) [OF U pr] u256x_exact(3) [OF U num] ten_pow_eq(2) [OF U bp] ten_pow_eq(2) [OF U t]
      u256x_exact(1) [OF U assms(2)] u256x_exact(4) [OF U, of t num] r
    by (simp add: u256x_exact(5,6) [OF U] power2_eq_square s_def split: if_splits)
  define x where "x = s div 2 ^ 64"
  define y where "y = x * RAY div 2 ^ 64"
  have x: "x * 2 ^ 64 \<le> s" "s < (x + 1) * 2 ^ 64"
    unfolding x_def by (simp_all add: div_times_less_eq_dividend dividend_less_div_times mult.commute)
  have y: "y * 2 ^ 64 \<le> x * RAY" "x * RAY < (y + 1) * 2 ^ 64"
    unfolding y_def by (simp_all add: div_times_less_eq_dividend dividend_less_div_times mult.commute)
  have vv: "v * 10 ^ q \<le> y * 10 ^ b" "y * 10 ^ b < (v + 1) * 10 ^ q"
    unfolding v' x_def [symmetric] y_def [symmetric]
    using dividend_less_div_times [of "10 ^ q :: nat" "y * 10 ^ b"] by (simp_all add: div_times_less_eq_dividend algebra_simps)
  have "v * 10 ^ q * 2 ^ 128 \<le> y * 10 ^ b * 2 ^ 128" using vv(1) by simp
  also have "\<dots> = (y * 2 ^ 64) * (10 ^ b * 2 ^ 64)" by simp
  also have "\<dots> \<le> (x * RAY) * (10 ^ b * 2 ^ 64)" using y(1) by (intro mult_right_mono) simp_all
  also have "\<dots> = (x * 2 ^ 64) * (RAY * 10 ^ b)" by simp
  also have "\<dots> \<le> s * (RAY * 10 ^ b)" using x(1) by (intro mult_right_mono) simp_all
  finally show "v * 10 ^ q * 2 ^ 128 \<le> sqrt_price ^ 2 * RAY * 10 ^ b" by (simp add: s_def algebra_simps)
  have pos: "0 < RAY * (10::nat) ^ b" by (simp add: RAY_def)
  have "s * (RAY * 10 ^ b) < ((x + 1) * 2 ^ 64) * (RAY * 10 ^ b)" using x(2) pos by (intro mult_strict_right_mono)
  also have "\<dots> = (x * RAY) * (10 ^ b * 2 ^ 64) + RAY * 10 ^ b * 2 ^ 64" by (simp add: algebra_simps)
  also have "\<dots> \<le> ((y + 1) * 2 ^ 64) * (10 ^ b * 2 ^ 64) + RAY * 10 ^ b * 2 ^ 64" using y(2) by (intro add_right_mono mult_right_mono) simp_all
  also have "\<dots> = (y * 10 ^ b + 10 ^ b) * 2 ^ 128 + RAY * 10 ^ b * 2 ^ 64" by (simp add: algebra_simps)
  also have "\<dots> \<le> ((v + 1) * 10 ^ q + 10 ^ b) * 2 ^ 128 + RAY * 10 ^ b * 2 ^ 64" using vv(2) by (intro add_right_mono mult_right_mono) simp_all
  finally show "sqrt_price ^ 2 * RAY * 10 ^ b < ((v + 1) * 10 ^ q + 10 ^ b) * 2 ^ 128 + RAY * 10 ^ b * 2 ^ 64"
    by (simp add: s_def algebra_simps)
qed

subsection \<open>The ring as the list of its observations\<close>

definition observations :: "nat \<Rightarrow> observation_ring \<Rightarrow> observation list" where
  "observations N r = map (ring_nth N r) [0..<rg_count r]"

definition ring_ok :: "nat \<Rightarrow> observation_ring \<Rightarrow> bool" where
  "ring_ok N r \<longleftrightarrow> 0 < N \<and> length (rg_prices r) = N \<and> length (rg_ts r) = N \<and> rg_next r < N \<and> rg_count r \<le> N \<and>
     sorted_wrt (<) (map ob_ts (observations N r))"

lemma ring_nth_index:
  assumes "rg_count r \<le> N" "0 < N"
  shows "ring_nth N r k = ring_at r ((rg_next r + (N - rg_count r) + k) mod N)"
  using assms by (simp add: ring_nth_def mod_add_left_eq)

lemma ring_new_ok: "0 < N \<Longrightarrow> ring_ok N (ring_new N)" "observations N (ring_new N) = []"
  by (simp_all add: ring_ok_def ring_new_def observations_def)

lemma ring_last_observation:
  assumes "ring_ok N r"
  shows "ring_last N r = (if observations N r = [] then None else Some (last (observations N r)))"
proof (cases "rg_count r = 0")
  case False
  have "ring_nth N r (rg_count r - 1) = ring_at r ((rg_next r + N - 1) mod N)"
    using False assms by (subst ring_nth_index) (auto simp: ring_ok_def intro!: arg_cong [where f = "\<lambda>i. ring_at r (i mod N)"])
  then show ?thesis using False by (simp add: ring_last_def observations_def last_map)
qed (simp add: ring_last_def observations_def)

lemma ring_push_observations:
  assumes "ring_ok N r" "ring_push N r p t = Some r'"
  shows "ring_ok N r'" "observations N r' = (if rg_count r < N then observations N r else tl (observations N r)) @ [\<lparr> ob_price = p, ob_ts = t \<rparr>]"
    "rg_count r' = min N (rg_count r + 1)"
proof -
  have r: "0 < N" "length (rg_prices r) = N" "length (rg_ts r) = N" "rg_next r < N" "rg_count r \<le> N" using assms(1) by (auto simp: ring_ok_def)
  have new: "observations N r = [] \<or> ob_ts (last (observations N r)) < t"
    and r': "r' = r\<lparr> rg_prices := (rg_prices r)[rg_next r := p], rg_ts := (rg_ts r)[rg_next r := t],
               rg_next := (rg_next r + 1) mod N, rg_count := (if rg_count r < N then rg_count r + 1 else rg_count r) \<rparr>"
    using assms(2) ring_last_observation [OF assms(1)] by (auto simp: ring_push_def split: if_splits)
  show c: "rg_count r' = min N (rg_count r + 1)" using r(5) by (auto simp: r')
  have at: "i < N \<Longrightarrow> ring_at r' i = (if i = rg_next r then \<lparr> ob_price = p, ob_ts = t \<rparr> else ring_at r i)" for i
    using r by (auto simp: ring_at_def r')
  have nth': "ring_nth N r' k = ring_at r' ((rg_next r + 1 + (N - rg_count r') + k) mod N)" for k
  proof -
    have n: "rg_next r' = (rg_next r + 1) mod N" "rg_count r' \<le> N" using c by (simp_all add: r')
    show ?thesis unfolding ring_nth_index [OF n(2) r(1)] n(1) add.assoc [of _ "N - rg_count r'" k]
      by (simp only: mod_add_left_eq)
  qed
  show obs: "observations N r' = (if rg_count r < N then observations N r else tl (observations N r)) @ [\<lparr> ob_price = p, ob_ts = t \<rparr>]"
  proof (rule nth_equalityI)
    show "length (observations N r') = length ((if rg_count r < N then observations N r else tl (observations N r)) @ [\<lparr> ob_price = p, ob_ts = t \<rparr>])"
      using r c by (auto simp: observations_def)
    fix k assume "k < length (observations N r')"
    then have k: "k < rg_count r'" by (simp add: observations_def)
    let ?d = "if rg_count r < N then 0 else 1 :: nat"
    have i: "(rg_next r + 1 + (N - rg_count r') + k) mod N = (rg_next r + (N - rg_count r) + (k + ?d)) mod N"
      using r(1,5) c by (cases "rg_count r < N") (auto simp: Suc_diff_Suc intro!: arg_cong [where f = "\<lambda>x. x mod N"])
    have last: "(rg_next r + (N - rg_count r) + (k + ?d)) mod N = rg_next r \<longleftrightarrow> k + ?d = rg_count r"
    proof -
      define m where "m = N - rg_count r + (k + ?d)"
      have m: "0 < m" "m \<le> N" "m = N \<longleftrightarrow> k + ?d = rg_count r" using k c r(1,5) by (auto simp: m_def split: if_splits)
      have "(rg_next r + m) mod N = rg_next r \<longleftrightarrow> m = N"
      proof (cases "rg_next r + m < N")
        case False
        then have "(rg_next r + m) mod N = rg_next r + m - N" using r(4) m(2) by (simp add: le_mod_geq)
        then show ?thesis using False m(1) by auto
      qed (use m r(4) in auto)
      then show ?thesis using m(3) by (simp add: m_def add.assoc)
    qed
    let ?i = "(rg_next r + (N - rg_count r) + (k + ?d)) mod N"
    have "observations N r' ! k = ring_at r' ?i" using k i by (simp add: observations_def nth')
    also have "\<dots> = (if k + ?d = rg_count r then \<lparr> ob_price = p, ob_ts = t \<rparr> else ring_nth N r (k + ?d))"
      using at [of ?i] last ring_nth_index [OF r(5,1), of "k + ?d"] r(1) by simp
    also have "\<dots> = ((if rg_count r < N then observations N r else tl (observations N r)) @ [\<lparr> ob_price = p, ob_ts = t \<rparr>]) ! k"
      using k c r(1,5) by (auto simp: observations_def nth_append nth_tl)
    finally show "observations N r' ! k = ((if rg_count r < N then observations N r else tl (observations N r)) @ [\<lparr> ob_price = p, ob_ts = t \<rparr>]) ! k" .
  qed
  have "sorted_wrt (<) (map ob_ts (observations N r'))"
  proof -
    have s: "sorted_wrt (<) (map ob_ts (observations N r))" using assms(1) by (simp add: ring_ok_def)
    have "ob_ts x < t" if "x \<in> set (observations N r)" for x
      using that new s by (cases "observations N r" rule: rev_cases) (auto simp: sorted_wrt_append)
    then show ?thesis using s by (cases "observations N r") (auto simp: obs sorted_wrt_append)
  qed
  then show "ring_ok N r'" using r c by (simp add: ring_ok_def r')
qed

subsection \<open>The average over the window\<close>

text \<open>The price in effect at a second: that of the last observation made by then.\<close>

fun price_at :: "observation list \<Rightarrow> int \<Rightarrow> nat" where
  "price_at [] t = 0"
| "price_at [x] t = ob_price x"
| "price_at (x # y # os) t = (if t < ob_ts y then ob_price x else price_at (y # os) t)"

text \<open>What the loop adds up, segment by segment.\<close>

fun seg_sum :: "int \<Rightarrow> int \<Rightarrow> observation list \<Rightarrow> nat" where
  "seg_sum start now [] = 0"
| "seg_sum start now [x] = ob_price x * nat (now - max (ob_ts x) start)"
| "seg_sum start now (x # y # os) = ob_price x * nat (min (ob_ts y) now - max (ob_ts x) start) + seg_sum start now (y # os)"

lemma seg_sum_seconds:
  assumes "sorted_wrt (<) (map ob_ts os)" "os \<noteq> []" "ob_ts (last os) \<le> now" "start \<le> now"
  shows "seg_sum start now os = (\<Sum>t \<in> {max (ob_ts (hd os)) start..<now}. price_at os t)"
  using assms
proof (induction os rule: induct_list012)
  case (3 x y os)
  have le: "ob_ts x < ob_ts y" "ob_ts y \<le> now"
    using 3(3,5) by (auto split: if_splits) (metis last_in_set order.strict_iff_order order_trans)
  have IH: "seg_sum start now (y # os) = (\<Sum>t \<in> {max (ob_ts y) start..<now}. price_at (y # os) t)" using 3 by simp
  let ?f = "price_at (x # y # os)"
  have tail: "(\<Sum>t \<in> {max (ob_ts y) start..<now}. ?f t) = seg_sum start now (y # os)" unfolding IH by (rule sum.cong) auto
  show ?case
  proof (cases "ob_ts y \<le> start")
    case True
    then have "max (ob_ts x) start = max (ob_ts y) start" using le by simp
    then show ?thesis using tail True le by simp
  next
    case False
    have "{max (ob_ts x) start..<now} = {max (ob_ts x) start..<ob_ts y} \<union> {ob_ts y..<now}" using le False by auto
    then have "(\<Sum>t \<in> {max (ob_ts x) start..<now}. ?f t) =
        (\<Sum>t \<in> {max (ob_ts x) start..<ob_ts y}. ?f t) + (\<Sum>t \<in> {ob_ts y..<now}. ?f t)"
      by (simp add: sum.union_disjoint)
    moreover have "(\<Sum>t \<in> {max (ob_ts x) start..<ob_ts y}. ?f t) = ob_price x * nat (ob_ts y - max (ob_ts x) start)"
      by (subst sum.cong [where h = "\<lambda>_. ob_price x", OF refl]) auto
    ultimately show ?thesis using tail le False by simp
  qed
qed auto

lemma twap_loop_sum:
  assumes "n = rg_count r" "k \<le> n" "acc < 2 ^ 128"
  shows "twap_loop N r start now n k acc =
    (let s = acc + seg_sum start now (drop k (observations N r)) in if s < 2 ^ 128 then Some s else None)"
  using assms
proof (induction N r start now n k acc rule: twap_loop.induct)
  case (1 N r start now n k acc)
  let ?os = "observations N r"
  have len: "length ?os = n" using 1(3) by (simp add: observations_def)
  have nth: "j < n \<Longrightarrow> ?os ! j = ring_nth N r j" for j using 1(3) by (simp add: observations_def)
  show ?case
  proof (cases "k < n")
    case False
    then show ?thesis using 1(4,5) len by (subst twap_loop.simps) simp
  next
    case True
    let ?x = "ring_nth N r k"
    let ?e = "min (if k + 1 < n then ob_ts (ring_nth N r (k + 1)) else now) now"
    let ?s = "max (ob_ts ?x) start"
    have d: "drop k ?os = ?x # drop (k + 1) ?os" using True len nth by (metis Cons_nth_drop_Suc Suc_eq_plus1)
    have sum: "seg_sum start now (drop k ?os) = ob_price ?x * nat (?e - ?s) + seg_sum start now (drop (k + 1) ?os)"
    proof (cases "k + 1 < n")
      case True
      then have "drop (k + 1) ?os = ring_nth N r (k + 1) # drop (k + 2) ?os"
        using len nth by (metis Cons_nth_drop_Suc Suc_eq_plus1 add_2_eq_Suc')
      then show ?thesis unfolding d using True by simp
    next
      case False
      then have "drop (k + 1) ?os = []" using len by simp
      then show ?thesis unfolding d using False by simp
    qed
    show ?thesis
    proof (cases "?e \<le> ?s")
      case skip: True
      then show ?thesis using 1(1) [OF True refl refl refl skip] 1(3) True \<open>acc < 2 ^ 128\<close> sum
        by (subst twap_loop.simps) (simp add: Let_def)
    next
      case add: False
      let ?p = "ob_price ?x * nat (?e - ?s)"
      show ?thesis
      proof (cases "acc + ?p < 2 ^ 128")
        case True
        then have c: "checked_mul 128 (ob_price ?x) (nat (?e - ?s)) = Some ?p" "checked_add 128 acc ?p = Some (acc + ?p)"
          by (simp_all add: checked_mul_def checked_add_def)
        show ?thesis using 1(2) [OF \<open>k < n\<close> refl refl refl add c] 1(3) \<open>k < n\<close> True add c sum
          by (subst twap_loop.simps) (simp add: Let_def add.assoc)
      next
        case False
        then show ?thesis using \<open>k < n\<close> add sum
          by (subst twap_loop.simps) (auto simp: Let_def checked_mul_def checked_add_def split: option.splits)
      qed
    qed
  qed
qed

lemma ring_twap_Some:
  assumes "ring_ok N r" "ring_twap N r now window cfg = (Inr (Some v) :: 'e failure + nat option)"
  shows "0 < window" "observations N r \<noteq> []" "tc_min_samples cfg \<le> length (observations N r)"
    "ob_ts (last (observations N r)) \<le> now" "now \<le> ob_ts (last (observations N r)) + tc_max_staleness cfg"
    "ob_ts (hd (observations N r)) \<le> now - window" "v = (\<Sum>t \<in> {now - window..<now}. price_at (observations N r) t) div nat window"
proof -
  let ?os = "observations N r"
  have len: "length ?os = rg_count r" by (simp add: observations_def)
  have w: "0 < window" and ne: "?os \<noteq> []" and m: "tc_min_samples cfg \<le> length ?os"
    using assms(2) len by (auto simp: ring_twap_def split: if_splits)
  have last: "ring_last N r = Some (last ?os)" using ring_last_observation [OF assms(1)] ne by simp
  have c: "rg_count r \<noteq> 0" using ne len by (metis length_0_conv)
  then have hd: "ring_nth N r 0 = hd ?os" unfolding hd_conv_nth [OF ne] by (simp add: observations_def)
  obtain acc where h: "ob_ts (last ?os) \<le> now" "now - ob_ts (last ?os) \<le> tc_max_staleness cfg" "ob_ts (hd ?os) \<le> now - window"
    and acc: "twap_loop N r (now - window) now (rg_count r) 0 0 = Some acc" and v: "v = acc div nat window"
    using assms(2) unfolding ring_twap_def last hd Let_def option.case
    by (auto split: if_splits option.splits)
  have s: "sorted_wrt (<) (map ob_ts ?os)" using assms(1) by (simp add: ring_ok_def)
  have "max (ob_ts (hd ?os)) (now - window) = now - window" using h(3) by simp
  then have "seg_sum (now - window) now ?os = (\<Sum>t \<in> {now - window..<now}. price_at ?os t)"
    using seg_sum_seconds [OF s ne h(1), of "now - window"] w by simp
  then show "v = (\<Sum>t \<in> {now - window..<now}. price_at ?os t) div nat window"
    using acc v twap_loop_sum [OF refl, of 0 r 0 N "now - window" now] by (simp add: Let_def split: if_splits)
  show "0 < window" "?os \<noteq> []" "tc_min_samples cfg \<le> length ?os" "ob_ts (last ?os) \<le> now"
    "now \<le> ob_ts (last ?os) + tc_max_staleness cfg" "ob_ts (hd ?os) \<le> now - window"
    using w ne m h by auto
qed

lemma ring_twap_total:
  assumes "ring_ok N r" "0 < window" "observations N r \<noteq> []" "tc_min_samples cfg \<le> length (observations N r)"
    and "ob_ts (last (observations N r)) \<le> now" "now - ob_ts (last (observations N r)) < 2 ^ 63"
    and "now \<le> ob_ts (last (observations N r)) + tc_max_staleness cfg" "- (2 ^ 63) \<le> now - window"
    and "ob_ts (hd (observations N r)) \<le> now - window"
    and "(\<Sum>t \<in> {now - window..<now}. price_at (observations N r) t) < 2 ^ 128"
  shows "\<exists>v. ring_twap N r now window cfg = (Inr (Some v) :: 'e failure + nat option)"
proof -
  let ?os = "observations N r"
  have len: "length ?os = rg_count r" by (simp add: observations_def)
  have c: "rg_count r \<noteq> 0" using assms(3) len by (metis length_0_conv)
  then have hd: "ring_nth N r 0 = hd ?os" unfolding hd_conv_nth [OF assms(3)] by (simp add: observations_def)
  have last: "ring_last N r = Some (last ?os)" using ring_last_observation [OF assms(1)] assms(3) by simp
  have s: "sorted_wrt (<) (map ob_ts ?os)" using assms(1) by (simp add: ring_ok_def)
  have "seg_sum (now - window) now ?os = (\<Sum>t \<in> {now - window..<now}. price_at ?os t)"
    using seg_sum_seconds [OF s assms(3,5), of "now - window"] assms(2,9) by (simp add: max_def)
  then have t: "twap_loop N r (now - window) now (rg_count r) 0 0 = Some (seg_sum (now - window) now ?os)"
    using twap_loop_sum [OF refl, of 0 r 0 N "now - window" now] assms(10) by (simp add: Let_def)
  have q: "\<not> (window \<le> 0 \<or> rg_count r < tc_min_samples cfg \<or> rg_count r = 0)" using assms(2,4) len c by simp
  show ?thesis using q assms(5-9) by (simp add: ring_twap_def last hd t Let_def not_less)
qed

lemma price_at_member: "os \<noteq> [] \<Longrightarrow> price_at os t \<in> ob_price ` set os"
  by (induction os t rule: price_at.induct) auto

subsection \<open>Aggregated prices\<close>

lemma aggregate_prices:
  "or_collateral_price (aggregate pyth sb twap canonical now cfg) \<le> pv_price (choose_view pyth sb now cfg)"
  "pv_price (choose_view pyth sb now cfg) < 2 ^ 128 \<Longrightarrow>
     pv_price (choose_view pyth sb now cfg) \<le> or_debt_price (aggregate pyth sb twap canonical now cfg)"
  "canonical = Some c \<Longrightarrow> or_collateral_price (aggregate pyth sb twap canonical now cfg) \<le> c"
  by (auto simp: aggregate_def Let_def debt_price_def saturating_add_def split: option.splits)

lemma deviation_sound:
  assumes "deviation_bps a b \<le> d" "d < 2 ^ 128 - 1" "a < 2 ^ 114" "b < 2 ^ 114"
  shows "0 < a" "0 < b" "(max a b - min a b) * BPS < (d + 1) * min a b"
proof -
  have ls: "(if a < b then (a, b) else (b, a)) = (min a b, max a b)" by auto
  have nz: "min a b \<noteq> 0" using assms(1,2) unfolding deviation_bps_def ls by (auto simp: Let_def split: if_splits)
  then show "0 < a" "0 < b" by auto
  have "(max a b - min a b) * BPS < 2 ^ 114 * 2 ^ 14" using assms(3,4) by (intro mult_strict_mono) (auto simp: BPS_def)
  then have "deviation_bps a b = (max a b - min a b) * BPS div min a b"
    using nz unfolding deviation_bps_def ls by (simp add: saturating_mul_def)
  then have "(max a b - min a b) * BPS div min a b < d + 1" using assms(1) by simp
  then show "(max a b - min a b) * BPS < (d + 1) * min a b" using nz by (simp add: div_less_iff_less_mult)
qed

end
