(* ===== verification/Price.thy ===== *)
theory Price
  imports Oracle Protocol_Admin
begin

text \<open>
  The oracle instructions of the core program: the parsers of pool accounts (\<^verbatim>\<open>clmm.rs\<close>, \<^verbatim>\<open>stake_pool.rs\<close>),
  \<^verbatim>\<open>init_market_oracle.rs\<close>, \<^verbatim>\<open>sample_twap.rs\<close> and \<^verbatim>\<open>update_price.rs\<close>. An account is its address, its owner
  and its bytes; the decoders of the Pyth and Switchboard packages and the epoch schedule of the
  runtime are parameters.
\<close>

definition ORCA_WHIRLPOOL_PROGRAM_ID :: pubkey where
  "ORCA_WHIRLPOOL_PROGRAM_ID = 6338400779188879694835442338119989991763804279920687834040273975642487814569"
definition RAYDIUM_CLMM_PROGRAM_ID :: pubkey where
  "RAYDIUM_CLMM_PROGRAM_ID = 75009356853976929659943414926574456823275450602745972963014244811826130862110"
definition SPL_STAKE_POOL_PROGRAM_ID :: pubkey where
  "SPL_STAKE_POOL_PROGRAM_ID = 2942344435954256359541909205404937153575186731056757310052400512682625603152"
definition FUSION_STAKE_POOL_PROGRAM_ID :: pubkey where
  "FUSION_STAKE_POOL_PROGRAM_ID = 18949516041592706366771848572274881758478447160615912004476708532739241910441"
definition PYTH_SOL_USD_FEED_ID :: "nat list" where
  "PYTH_SOL_USD_FEED_ID = [239, 13, 139, 111, 205, 1, 4, 227, 231, 80, 150, 145, 47, 200, 225, 228,
     50, 137, 61, 164, 241, 143, 174, 218, 172, 202, 126, 88, 117, 218, 98, 15]"

subsection \<open>Raw accounts\<close>

record raw_account =
  ac_key :: pubkey
  ac_owner :: pubkey
  ac_data :: "nat list"

fun from_le_bytes :: "nat list \<Rightarrow> nat" where
  "from_le_bytes [] = 0"
| "from_le_bytes (b # bs) = b + 256 * from_le_bytes bs"

definition key_of_bytes :: "nat list \<Rightarrow> pubkey" where
  "key_of_bytes bs = from_le_bytes (rev bs)"

definition read_u64_le :: "nat list \<Rightarrow> nat \<Rightarrow> nat" where
  "read_u64_le data off = from_le_bytes (take 8 (drop off data))"

definition read_u128_le :: "nat list \<Rightarrow> nat \<Rightarrow> nat" where
  "read_u128_le data off = from_le_bytes (take 16 (drop off data))"

definition read_pubkey :: "nat list \<Rightarrow> nat \<Rightarrow> pubkey" where
  "read_pubkey data off = key_of_bytes (take 32 (drop off data))"

subsection \<open>Concentrated-liquidity pools\<close>

datatype venue = Orca | Raydium

datatype clmm_error = BadDiscriminator | ClmmTooShort | SqrtPriceOutOfBounds

record pool_sample =
  ps_sqrt_price :: nat
  ps_mint_a :: pubkey
  ps_mint_b :: pubkey
  ps_dec_a :: "nat option"
  ps_dec_b :: "nat option"

definition SQRT_PRICE_MIN :: nat where "SQRT_PRICE_MIN = 4295048016"
definition SQRT_PRICE_MAX :: nat where "SQRT_PRICE_MAX = 79226673515401279992447579055"
definition WHIRLPOOL_DISCRIMINATOR :: "nat list" where "WHIRLPOOL_DISCRIMINATOR = [63, 149, 209, 12, 225, 128, 99, 9]"
definition RAYDIUM_DISCRIMINATOR :: "nat list" where "RAYDIUM_DISCRIMINATOR = [247, 237, 227, 245, 215, 195, 222, 70]"

definition clmm_parse :: "venue \<Rightarrow> nat list \<Rightarrow> clmm_error + pool_sample" where
  "clmm_parse v data =
     (let (disc, min_len) = (case v of Orca \<Rightarrow> (WHIRLPOOL_DISCRIMINATOR, 181 + 32) | Raydium \<Rightarrow> (RAYDIUM_DISCRIMINATOR, 253 + 16)) in
      if length data < min_len then Inl ClmmTooShort
      else if take 8 data \<noteq> disc then Inl BadDiscriminator
      else
      (let sample = (case v of
         Orca \<Rightarrow> \<lparr> ps_sqrt_price = read_u128_le data 65, ps_mint_a = read_pubkey data 101, ps_mint_b = read_pubkey data 181,
                   ps_dec_a = None, ps_dec_b = None \<rparr>
       | Raydium \<Rightarrow> \<lparr> ps_sqrt_price = read_u128_le data 253, ps_mint_a = read_pubkey data 73, ps_mint_b = read_pubkey data 105,
                   ps_dec_a = Some (data ! 233), ps_dec_b = Some (data ! 234) \<rparr>) in
       if ps_sqrt_price sample < SQRT_PRICE_MIN \<or> ps_sqrt_price sample > SQRT_PRICE_MAX then Inl SqrtPriceOutOfBounds
       else Inr sample))"

subsection \<open>Stake pools\<close>

datatype stake_pool_error = StakePoolTooShort | NotStakePool | DegenerateRate

record stake_pool_sample =
  sp_pool_mint :: pubkey
  sp_total_lamports :: nat
  sp_pool_token_supply :: nat
  sp_last_update_epoch :: nat

definition stake_pool_parse :: "nat list \<Rightarrow> stake_pool_error + stake_pool_sample" where
  "stake_pool_parse data =
     (if length data < 274 + 8 then Inl StakePoolTooShort
      else if data ! 0 \<noteq> 1 then Inl NotStakePool
      else
      (let pool_mint = read_pubkey data 162;
           total_lamports = read_u64_le data 258;
           pool_token_supply = read_u64_le data 266;
           last_update_epoch = read_u64_le data 274 in
       if pool_token_supply = 0 \<or> total_lamports = 0 then Inl DegenerateRate
       else Inr \<lparr> sp_pool_mint = pool_mint, sp_total_lamports = total_lamports, sp_pool_token_supply = pool_token_supply,
                  sp_last_update_epoch = last_update_epoch \<rparr>))"

subsection \<open>Creating a market oracle\<close>

record init_oracle_args =
  io_pyth_feed_id :: "nat list"
  io_switchboard_feed :: pubkey
  io_orca_pool :: pubkey
  io_raydium_pool :: pubkey
  io_max_conf_bps :: nat
  io_max_deviation_bps :: nat
  io_twap_max_divergence_bps :: nat
  io_max_age_secs :: int
  io_k_bps :: nat
  io_twap_window_secs :: int
  io_twap_min_samples :: nat
  io_twap_max_staleness_secs :: int
  io_price_band_lower_ray :: nat
  io_price_band_upper_ray :: nat
  io_liq_max_divergence_bps :: nat
  io_lst_stake_pool :: pubkey
  io_canonical_primary :: bool
  io_liquidity_haircut_bps :: nat

record oracle_accounts =
  oa_signer :: pubkey
  oa_collateral_mint :: pubkey
  oa_quote_mint :: pubkey
  oa_market_oracle :: pubkey
  oa_dex_twap :: pubkey

definition init_market_oracle_handler ::
    "'l runtime \<Rightarrow> oracle_accounts \<Rightarrow> init_oracle_args \<Rightarrow> 'l \<Rightarrow> protocol_config \<Rightarrow> ('l \<times> market_oracle \<times> observation_ring) res" where
  "init_market_oracle_handler T A args l cfg =
     bindR (cpi (sys_create T l (oa_signer A) (oa_market_oracle A))) (\<lambda>l.
     bindR (cpi (sys_create T l (oa_signer A) (oa_dex_twap A))) (\<lambda>l.
     bindR (require (oa_signer A = cfg_gov_authority cfg) Unauthorized) (\<lambda>_.
     bindR (require (io_pyth_feed_id args \<noteq> replicate 32 0) ParamOutOfBounds) (\<lambda>_.
     bindR (require (io_switchboard_feed args \<noteq> default_key) ParamOutOfBounds) (\<lambda>_.
     bindR (if io_canonical_primary args
            then bindR (require (io_pyth_feed_id args = PYTH_SOL_USD_FEED_ID) ParamOutOfBounds) (\<lambda>_.
                 bindR (require (io_lst_stake_pool args \<noteq> default_key) ParamOutOfBounds) (\<lambda>_.
                 bindR (require (io_orca_pool args = default_key \<and> io_raydium_pool args = default_key) ParamOutOfBounds) (\<lambda>_.
                 require (io_liquidity_haircut_bps args > 0 \<and> io_liquidity_haircut_bps args \<le> MAX_LIQUIDITY_HAIRCUT_BPS) ParamOutOfBounds)))
            else bindR (require (io_orca_pool args \<noteq> default_key \<or> io_raydium_pool args \<noteq> default_key) ParamOutOfBounds) (\<lambda>_.
                 require (io_liquidity_haircut_bps args = 0) ParamOutOfBounds)) (\<lambda>_.
     bindR (require (io_orca_pool args = default_key \<or> io_raydium_pool args = default_key \<or> io_orca_pool args \<noteq> io_raydium_pool args)
              ParamOutOfBounds) (\<lambda>_.
     bindR (require (oa_quote_mint A \<noteq> oa_collateral_mint A) ParamOutOfBounds) (\<lambda>_.
     bindR (require (io_max_conf_bps args > 0 \<and> io_max_conf_bps args \<le> MAX_ORACLE_CONF_BPS) ParamOutOfBounds) (\<lambda>_.
     bindR (require (io_max_deviation_bps args > 0 \<and> io_max_deviation_bps args \<le> MAX_ORACLE_DEVIATION_BPS) ParamOutOfBounds) (\<lambda>_.
     bindR (require (io_twap_max_divergence_bps args > 0 \<and> io_twap_max_divergence_bps args \<le> MAX_TWAP_DIVERGENCE_BPS) ParamOutOfBounds) (\<lambda>_.
     bindR (require (io_max_age_secs args > 0 \<and> io_max_age_secs args \<le> MAX_ORACLE_MAX_AGE_SECS) ParamOutOfBounds) (\<lambda>_.
     bindR (require (io_k_bps args \<ge> MIN_ORACLE_K_BPS \<and> io_k_bps args \<le> MAX_ORACLE_K_BPS) ParamOutOfBounds) (\<lambda>_.
     bindR (require (io_twap_window_secs args \<ge> MIN_TWAP_WINDOW_SECS \<and> io_twap_window_secs args \<le> MAX_TWAP_WINDOW_SECS) ParamOutOfBounds) (\<lambda>_.
     bindR (require (io_twap_min_samples args \<ge> MIN_TWAP_MIN_SAMPLES \<and> io_twap_min_samples args \<le> TWAP_RING_CAPACITY) ParamOutOfBounds) (\<lambda>_.
     bindR (require (io_twap_max_staleness_secs args > 0 \<and> io_twap_max_staleness_secs args \<le> MAX_TWAP_STALENESS_SECS) ParamOutOfBounds) (\<lambda>_.
     bindR (if io_price_band_lower_ray args \<noteq> 0 \<and> io_price_band_upper_ray args \<noteq> 0
            then bindR (math (checked_mul 128 (io_price_band_lower_ray args) MIN_PRICE_BAND_RATIO)) (\<lambda>min_upper.
                 require (io_price_band_upper_ray args \<ge> min_upper) ParamOutOfBounds)
            else Inr ()) (\<lambda>_.
     bindR (require (io_liq_max_divergence_bps args \<le> MAX_LIQ_DIVERGENCE_BPS) ParamOutOfBounds) (\<lambda>_.
     bindR (require (io_liq_max_divergence_bps args = 0 \<or>
                     io_liq_max_divergence_bps args \<ge> io_twap_max_divergence_bps args \<and>
                     io_liq_max_divergence_bps args \<ge> io_max_deviation_bps args) ParamOutOfBounds) (\<lambda>_.
     bindR (if io_lst_stake_pool args \<noteq> default_key
            then require (tk_decimals T l (oa_collateral_mint A) = 9) ParamOutOfBounds else Inr ()) (\<lambda>_.
     Inr (l,
       \<lparr> mo_collateral_mint = oa_collateral_mint A, mo_pyth_feed_id = io_pyth_feed_id args,
         mo_switchboard_feed = io_switchboard_feed args, mo_orca_pool = io_orca_pool args, mo_raydium_pool = io_raydium_pool args,
         mo_collateral_decimals = tk_decimals T l (oa_collateral_mint A), mo_quote_mint = oa_quote_mint A,
         mo_quote_decimals = tk_decimals T l (oa_quote_mint A), mo_max_conf_bps = io_max_conf_bps args,
         mo_max_deviation_bps = io_max_deviation_bps args, mo_twap_max_divergence_bps = io_twap_max_divergence_bps args,
         mo_max_age_secs = io_max_age_secs args, mo_k_bps = io_k_bps args, mo_twap_window_secs = io_twap_window_secs args,
         mo_twap_min_samples = io_twap_min_samples args, mo_twap_max_staleness_secs = io_twap_max_staleness_secs args,
         mo_price_band_lower_ray = io_price_band_lower_ray args, mo_price_band_upper_ray = io_price_band_upper_ray args,
         mo_liq_max_divergence_bps = io_liq_max_divergence_bps args, mo_lst_stake_pool = io_lst_stake_pool args,
         mo_canonical_primary = (if io_canonical_primary args then 1 else 0),
         mo_liquidity_haircut_bps = io_liquidity_haircut_bps args, mo_last_canonical_rate_ray = 0 \<rparr>,
       ring_new TWAP_RING_CAPACITY)))))))))))))))))))))"

subsection \<open>Sampling a pool\<close>

text \<open>Signed 64-bit arithmetic that aborts on overflow, and its division, which rounds towards zero.\<close>

definition i64_or_panic :: "int \<Rightarrow> int res" where
  "i64_or_panic x = (if - (2 ^ 63) \<le> x \<and> x < 2 ^ 63 then Inr x else Inl Panic)"

definition i64_div :: "int \<Rightarrow> int \<Rightarrow> int" where
  "i64_div a b = (if 0 \<le> a then a div b else - ((- a) div b))"

definition sample_min_interval :: "int \<Rightarrow> int res" where
  "sample_min_interval window =
     (let gaps = max (int TWAP_RING_CAPACITY - 1) 1 in
      bindR (i64_or_panic (window + gaps)) (\<lambda>s. bindR (i64_or_panic (s - 1)) (\<lambda>s. Inr (i64_div s gaps))))"

definition sample_price :: "'u u256x \<Rightarrow> market_oracle \<Rightarrow> raw_account \<Rightarrow> nat res" where
  "sample_price U o1 pool =
     bindR (if mo_orca_pool o1 \<noteq> default_key \<and> ac_key pool = mo_orca_pool o1 then Inr (Orca, ORCA_WHIRLPOOL_PROGRAM_ID)
            else if mo_raydium_pool o1 \<noteq> default_key \<and> ac_key pool = mo_raydium_pool o1 then Inr (Raydium, RAYDIUM_CLMM_PROGRAM_ID)
            else Inl (Raised InvalidClmmPool)) (\<lambda>(v, venue_program).
     bindR (require (ac_owner pool = venue_program) InvalidClmmPool) (\<lambda>_.
     bindR (case clmm_parse v (ac_data pool) of Inl _ \<Rightarrow> Inl (Raised InvalidClmmPool) | Inr s \<Rightarrow> Inr s) (\<lambda>sample.
     bindR (require ((ps_mint_a sample = mo_collateral_mint o1 \<and> ps_mint_b sample = mo_quote_mint o1) \<or>
                     (ps_mint_a sample = mo_quote_mint o1 \<and> ps_mint_b sample = mo_collateral_mint o1)) InvalidClmmPool) (\<lambda>_.
     let collateral_is_a = (ps_mint_a sample = mo_collateral_mint o1);
         cfg_a = (if collateral_is_a then mo_collateral_decimals o1 else mo_quote_decimals o1);
         cfg_b = (if collateral_is_a then mo_quote_decimals o1 else mo_collateral_decimals o1) in
     bindR (case (ps_dec_a sample, ps_dec_b sample) of
              (Some da, Some db) \<Rightarrow> bindR (require (da = cfg_a \<and> db = cfg_b) InvalidClmmPool) (\<lambda>_. Inr (da, db))
            | _ \<Rightarrow> Inr (cfg_a, cfg_b)) (\<lambda>(dec_a, dec_b).
     bindR (math (sqrt_price_q64_to_ray U (ps_sqrt_price sample) dec_a dec_b)) (\<lambda>price_ba.
     bindR (if collateral_is_a then Inr price_ba else math (ray_div RAY price_ba)) (\<lambda>usd_ray.
     bindR (require (usd_ray > 0) InvalidClmmPool) (\<lambda>_.
     Inr usd_ray))))))))"

definition sample_twap_handler :: "'u u256x \<Rightarrow> clock \<Rightarrow> market_oracle \<Rightarrow> raw_account \<Rightarrow> observation_ring \<Rightarrow> observation_ring res" where
  "sample_twap_handler U clk o1 pool r =
     (let now = unix_timestamp clk in
     bindR (sample_price U o1 pool) (\<lambda>usd_ray.
     bindR (case ring_last TWAP_RING_CAPACITY r of
              Some newest \<Rightarrow>
                bindR (sample_min_interval (mo_twap_window_secs o1)) (\<lambda>min_interval.
                bindR (i64_or_panic (now - ob_ts newest)) (\<lambda>since.
                require (since \<ge> min_interval) TwapSampleRejected))
            | None \<Rightarrow> Inr ()) (\<lambda>_.
     ok_or_err (ring_push TWAP_RING_CAPACITY r usd_ray now) TwapSampleRejected)))"

subsection \<open>Updating the price\<close>

text \<open>What the Pyth and Switchboard packages decode from an account, and the runtime's epochs.\<close>

record pyth_price =
  px_price :: int
  px_conf :: nat
  px_exponent :: int
  px_publish_time :: int

record pyth_update =
  pu_full :: bool
  pu_price :: "nat list \<Rightarrow> pyth_price option"

record sb_feed =
  sf_value :: int
  sf_std_dev :: int
  sf_slot :: nat
  sf_last_update_timestamp :: int
  sf_num_samples :: nat
  sf_min_responses :: nat

record sdk =
  sdk_pyth :: "nat list \<Rightarrow> pyth_update option"
  sdk_switchboard :: "nat list \<Rightarrow> sb_feed option"

record epochs =
  ep_epoch :: nat
  ep_first_slot :: "nat \<Rightarrow> nat"
  ep_slots :: "nat \<Rightarrow> nat"

record price_accounts =
  pa_collateral_mint :: pubkey
  pa_pyth_price_update :: raw_account
  pa_switchboard_feed :: "raw_account option"
  pa_sol_usd_pyth_update :: "raw_account option"
  pa_lst_stake_pool :: "raw_account option"

definition within_pool_update_grace :: "nat \<Rightarrow> clock \<Rightarrow> epochs \<Rightarrow> bool" where
  "within_pool_update_grace last_update_epoch clk ep =
     (if last_update_epoch \<ge> ep_epoch ep then True
      else if saturating_add 64 last_update_epoch 1 \<noteq> ep_epoch ep then False
      else clock_slot clk - ep_first_slot ep (ep_epoch ep) \<le> ep_slots ep (ep_epoch ep) div POOL_UPDATE_GRACE_DIVISOR)"

definition parse_pyth :: "sdk \<Rightarrow> 'u u256x \<Rightarrow> raw_account \<Rightarrow> nat list \<Rightarrow> pubkey \<Rightarrow> pubkey \<Rightarrow> price_view res" where
  "parse_pyth S U acc feed_id pyth_program_id pyth_program_id_alt =
     bindR (require (ac_owner acc = pyth_program_id \<or> pyth_program_id_alt \<noteq> default_key \<and> ac_owner acc = pyth_program_id_alt)
              InvalidPriceUpdate) (\<lambda>_.
     bindR (ok_or_err (sdk_pyth S (ac_data acc)) InvalidPriceUpdate) (\<lambda>pu.
     bindR (require (pu_full pu) InvalidPriceUpdate) (\<lambda>_.
     bindR (ok_or_err (pu_price pu feed_id) InvalidPriceUpdate) (\<lambda>price.
     bindR (require (px_price price > 0) InvalidPriceUpdate) (\<lambda>_.
     bindR (math (px_to_ray U (nat (px_price price)) (px_exponent price))) (\<lambda>price_ray.
     bindR (math (px_to_ray U (px_conf price) (px_exponent price))) (\<lambda>conf_ray.
     Inr \<lparr> pv_price = price_ray, pv_conf = conf_ray, pv_expo = 0, pv_publish_ts = px_publish_time price \<rparr>)))))))"

definition parse_switchboard :: "sdk \<Rightarrow> 'u u256x \<Rightarrow> raw_account \<Rightarrow> pubkey \<Rightarrow> pubkey \<Rightarrow> price_view option res" where
  "parse_switchboard S U acc expected_key sb_program_id =
     bindR (require (ac_owner acc = sb_program_id) InvalidSwitchboardFeed) (\<lambda>_.
     bindR (require (ac_key acc = expected_key) InvalidSwitchboardFeed) (\<lambda>_.
     bindR (ok_or_err (sdk_switchboard S (ac_data acc)) InvalidSwitchboardFeed) (\<lambda>feed.
     if sf_slot feed = 0 \<or> sf_value feed \<le> 0 then Inr None
     else if sf_num_samples feed < max (sf_min_responses feed) 1 then Inr None
     else case (px_to_ray U (nat (sf_value feed)) (- 18), px_to_ray U (nat (max (sf_std_dev feed) 0)) (- 18)) of
       (Some p, Some c) \<Rightarrow>
         Inr (Some \<lparr> pv_price = p, pv_conf = c, pv_expo = 0, pv_publish_ts = sf_last_update_timestamp feed \<rparr>)
     | _ \<Rightarrow> Inr None)))"

definition parse_bound_stake_pool ::
    "raw_account option \<Rightarrow> pubkey \<Rightarrow> pubkey \<Rightarrow> pubkey \<Rightarrow> nat \<Rightarrow> stake_pool_sample option res" where
  "parse_bound_stake_pool acc expected_stake_pool expected_owner collateral_mint current_epoch =
     (case acc of
        None \<Rightarrow> Inr None
      | Some sp \<Rightarrow>
         bindR (require (ac_owner sp = expected_owner) InvalidStakePool) (\<lambda>_.
         bindR (require (ac_key sp = expected_stake_pool) InvalidStakePool) (\<lambda>_.
         case stake_pool_parse (ac_data sp) of
           Inl _ \<Rightarrow> Inr None
         | Inr sample \<Rightarrow>
             if current_epoch - sp_last_update_epoch sample > MAX_STAKE_POOL_EPOCH_LAG then Inr None
             else if sp_pool_mint sample \<noteq> collateral_mint then Inr None
             else Inr (Some sample))))"

definition scale_view :: "price_view \<Rightarrow> nat \<Rightarrow> nat \<Rightarrow> price_view option" where
  "scale_view v total_lamports pool_token_supply =
     (if total_lamports = 0 \<or> pool_token_supply = 0 then None
      else case mul_div_floor (pv_price v) total_lamports pool_token_supply of
        None \<Rightarrow> None
      | Some p \<Rightarrow>
         (case mul_div_floor (pv_conf v) total_lamports pool_token_supply of
            None \<Rightarrow> None
          | Some c \<Rightarrow> Some (v\<lparr> pv_price := p, pv_conf := c \<rparr>)))"

definition compute_canonical ::
    "sdk \<Rightarrow> 'u u256x \<Rightarrow> price_accounts \<Rightarrow> protocol_config \<Rightarrow> pubkey \<Rightarrow> int \<Rightarrow> int \<Rightarrow> nat \<Rightarrow> nat option res" where
  "compute_canonical S U A cfg expected_stake_pool now max_age_secs current_epoch =
     (case pa_sol_usd_pyth_update A of
        None \<Rightarrow> Inr None
      | Some sol \<Rightarrow>
         bindR (parse_pyth S U sol PYTH_SOL_USD_FEED_ID (cfg_pyth_receiver_program_id cfg) (cfg_pyth_receiver_program_id_alt cfg)) (\<lambda>sol_pv.
         if is_stale sol_pv now max_age_secs then Inr None
         else
         bindR (parse_bound_stake_pool (pa_lst_stake_pool A) expected_stake_pool SPL_STAKE_POOL_PROGRAM_ID (pa_collateral_mint A) current_epoch) (\<lambda>s.
         case s of
           None \<Rightarrow> Inr None
         | Some sample \<Rightarrow> Inr (mul_div_floor (pv_price sol_pv) (sp_total_lamports sample) (sp_pool_token_supply sample)))))"

definition oracle_config_of :: "market_oracle \<Rightarrow> oracle_config" where
  "oracle_config_of o1 = \<lparr> oc_max_conf_bps = mo_max_conf_bps o1, oc_max_deviation_bps = mo_max_deviation_bps o1,
     oc_twap_max_divergence_bps = mo_twap_max_divergence_bps o1, oc_max_age_secs = mo_max_age_secs o1, oc_k_bps = mo_k_bps o1,
     oc_band_lower_ray = mo_price_band_lower_ray o1, oc_band_upper_ray = mo_price_band_upper_ray o1,
     oc_liq_max_divergence_bps = mo_liq_max_divergence_bps o1,
     oc_canonical_required = (mo_canonical_primary o1 = 0 \<and> mo_lst_stake_pool o1 \<noteq> default_key),
     oc_twap_corridor_optional = (mo_canonical_primary o1 \<noteq> 0) \<rparr>"

text \<open>The commit of an aggregated price to the market and, in canonical mode, of the pool rate to the oracle.\<close>

definition commit_price :: "'u u256x \<Rightarrow> nat \<Rightarrow> nat option \<Rightarrow> oracle_result \<Rightarrow> market \<Rightarrow> market_oracle \<Rightarrow> (market \<times> market_oracle) res" where
  "commit_price U slot canonical_rate_ray result m o1 =
     (let m = m\<lparr> m_mint_frozen := (or_mode result \<noteq> ModeOk) \<rparr>;
          m = (if or_liq_divergent result
               then m\<lparr> m_liq_divergence_until :=
                        max (m_liq_divergence_until m) (saturating_add 64 slot LIQ_DIVERGENCE_GRACE_SLOTS) \<rparr>
               else m) in
      if \<not> (or_fresh result \<and> or_plausible result) then Inr (m, o1)
      else
      bindR (if mo_canonical_primary o1 \<noteq> 0 \<and> mo_liquidity_haircut_bps o1 > 0
             then bindR (sub_or_panic BPS (mo_liquidity_haircut_bps o1)) (\<lambda>keep.
                  math (mul_div_floor (or_collateral_price result) keep BPS))
             else Inr (or_collateral_price result)) (\<lambda>coll_price_ray.
      bindR (math (usd_ray_to_spot U coll_price_ray (m_collateral_decimals m) FUSD_DECIMALS)) (\<lambda>spot.
      bindR (math (usd_ray_to_spot U (or_debt_price result) (m_collateral_decimals m) FUSD_DECIMALS)) (\<lambda>debt_spot.
      if spot > 0
      then let m = commit_fresh_spot m spot debt_spot slot in
           case canonical_rate_ray of
             None \<Rightarrow> Inr (m, o1)
           | Some new_rate \<Rightarrow>
               Inr (if mo_last_canonical_rate_ray o1 > 0 \<and> new_rate < mo_last_canonical_rate_ray o1
                    then m\<lparr> m_liq_grace_until := max (m_liq_grace_until m) (saturating_add 64 slot LIQ_RESUME_GRACE_SLOTS) \<rparr>
                    else m,
                    o1\<lparr> mo_last_canonical_rate_ray := new_rate \<rparr>)
      else Inr (m, o1)))))"

text \<open>The two price legs a market uses: as published, or, on a market priced through its own staking pool, both
  rescaled by the rate of the pool; \<open>None\<close> when that rate is missing.\<close>

definition price_legs ::
    "clock \<Rightarrow> epochs \<Rightarrow> price_accounts \<Rightarrow> market_oracle \<Rightarrow> price_view \<Rightarrow> price_view option \<Rightarrow>
     (nat option \<times> price_view \<times> price_view option) option res" where
  "price_legs clk ep A o1 pyth_pv sb_pv =
     (if mo_canonical_primary o1 \<noteq> 0
      then bindR (parse_bound_stake_pool (pa_lst_stake_pool A) (mo_lst_stake_pool o1) FUSION_STAKE_POOL_PROGRAM_ID
                    (pa_collateral_mint A) (ep_epoch ep)) (\<lambda>rate.
           let rate = (case rate of
                         Some s \<Rightarrow> if within_pool_update_grace (sp_last_update_epoch s) clk ep then Some s else None
                       | None \<Rightarrow> None) in
           case rate of
             Some sample \<Rightarrow>
               bindR (math (mul_div_floor RAY (sp_total_lamports sample) (sp_pool_token_supply sample))) (\<lambda>rate_ray.
               bindR (math (scale_view pyth_pv (sp_total_lamports sample) (sp_pool_token_supply sample))) (\<lambda>pyth_pv.
               bindR (case sb_pv of
                        Some v \<Rightarrow> bindR (math (scale_view v (sp_total_lamports sample) (sp_pool_token_supply sample))) (\<lambda>v. Inr (Some v))
                      | None \<Rightarrow> Inr None) (\<lambda>sb_pv.
               Inr (Some (Some rate_ray, pyth_pv, sb_pv)))))
           | None \<Rightarrow> Inr None)
      else Inr (Some (None, pyth_pv, sb_pv)))"

definition update_price_handler ::
    "sdk \<Rightarrow> 'u u256x \<Rightarrow> clock \<Rightarrow> epochs \<Rightarrow> price_accounts \<Rightarrow> protocol_config \<Rightarrow> observation_ring \<Rightarrow> market \<Rightarrow> market_oracle \<Rightarrow>
     (market \<times> market_oracle) res" where
  "update_price_handler S U clk ep A cfg r m o1 =
     (let now = unix_timestamp clk; slot = clock_slot clk; ocfg = oracle_config_of o1;
          canonical_primary = (mo_canonical_primary o1 \<noteq> 0) in
     bindR (parse_pyth S U (pa_pyth_price_update A) (mo_pyth_feed_id o1) (cfg_pyth_receiver_program_id cfg) (cfg_pyth_receiver_program_id_alt cfg)) (\<lambda>pyth_pv.
     bindR (case pa_switchboard_feed A of
              Some sb \<Rightarrow> parse_switchboard S U sb (mo_switchboard_feed o1) (cfg_switchboard_program_id cfg)
            | None \<Rightarrow> Inr None) (\<lambda>sb_pv.
     bindR (price_legs clk ep A o1 pyth_pv sb_pv) (\<lambda>legs.
     case legs of
       None \<Rightarrow> Inr (m\<lparr> m_mint_frozen := True \<rparr>, o1)
     | Some (canonical_rate_ray, pyth_pv, sb_pv) \<Rightarrow>
         bindR (ring_twap TWAP_RING_CAPACITY r now (mo_twap_window_secs o1)
                  \<lparr> tc_min_samples = mo_twap_min_samples o1, tc_max_staleness = mo_twap_max_staleness_secs o1 \<rparr>) (\<lambda>twap.
         bindR (if \<not> canonical_primary \<and> mo_lst_stake_pool o1 \<noteq> default_key
                then compute_canonical S U A cfg (mo_lst_stake_pool o1) now (oc_max_age_secs ocfg) (ep_epoch ep)
                else Inr None) (\<lambda>canonical.
         commit_price U slot canonical_rate_ray (aggregate pyth_pv sb_pv twap canonical now ocfg) m o1))))))"

end
