(* ===== verification/Price_Safety.thy ===== *)
theory Price_Safety
  imports Price Cdp_Safety Governance_Safety
begin

text \<open>
  Properties of the oracle: the ring computes the time-weighted average of the prices in effect, its
  sampler cannot be starved, minting requires agreement of the feeds, and a price update moves
  nothing but prices, freezes and grace periods.
\<close>

text \<open>C3. A well-formed observation ring returns exactly the average, over every second of the window, of the price in
  effect at that second, rounded down; it does so only when the observations reach back over the
  whole window, are numerous and fresh enough, and lie between the least and the greatest of them.\<close>

theorem twap_time_average:
  assumes "ring_ok N r" "ring_twap N r now window cfg = (Inr (Some v) :: fusd_error failure + nat option)"
  shows "v = (\<Sum>t \<in> {now - window..<now}. price_at (observations N r) t) div nat window \<and> 0 < window \<and>
    tc_min_samples cfg \<le> length (observations N r) \<and> ob_ts (last (observations N r)) \<le> now \<and>
    now \<le> ob_ts (last (observations N r)) + tc_max_staleness cfg \<and> ob_ts (hd (observations N r)) \<le> now - window \<and>
    Min (ob_price ` set (observations N r)) \<le> v \<and> v \<le> Max (ob_price ` set (observations N r))"
proof -
  note h = ring_twap_Some [OF assms]
  let ?P = "ob_price ` set (observations N r)"
  let ?S = "\<Sum>t \<in> {now - window..<now}. price_at (observations N r) t"
  have P: "finite ?P" "?P \<noteq> {}" using h(2) by auto
  have card: "card {now - window..<now} = nat window" by simp
  have "nat window * Min ?P \<le> ?S" using sum_bounded_below [of "{now - window..<now}" "Min ?P" "price_at (observations N r)"] P price_at_member [OF h(2)] card
    by (simp add: Min_le)
  moreover have "?S \<le> nat window * Max ?P" using sum_bounded_above [of "{now - window..<now}" "price_at (observations N r)" "Max ?P"] P price_at_member [OF h(2)] card
    by (simp add: Max_ge)
  moreover have "0 < nat window" using h(1) by simp
  ultimately have "Min ?P \<le> v" "v \<le> Max ?P"
    using h(7) div_le_mono [of ?S "nat window * Max ?P" "nat window"] by (simp_all add: less_eq_div_iff_mult_less_eq mult.commute)
  then show ?thesis using h by blast
qed


definition ring0 :: observation_ring where
  "ring0 = \<lparr> rg_prices = [100, 200], rg_ts = [10, 20], rg_next = 0, rg_count = 2 \<rparr>"

lemma ring0_ok: "ring_ok 2 ring0" "observations 2 ring0 = [\<lparr> ob_price = 100, ob_ts = 10 \<rparr>, \<lparr> ob_price = 200, ob_ts = 20 \<rparr>]"
  by (code_simp+)

theorem twap_time_average_witness:
  "ring_twap 2 ring0 30 20 \<lparr> tc_min_samples = 1, tc_max_staleness = 60 \<rparr> = (Inr (Some 150) :: fusd_error failure + nat option) \<and>
   150 = (\<Sum>t \<in> {30 - 20..<30}. price_at (observations 2 ring0) t) div nat 20"
proof -
  have t: "ring_twap 2 ring0 30 20 \<lparr> tc_min_samples = 1, tc_max_staleness = 60 \<rparr> = (Inr (Some 150) :: fusd_error failure + nat option)"
    by (simp add: ring0_def ring_twap_def ring_last_def ring_nth_def ring_at_def twap_loop.simps checked_mul_def checked_add_def)
  with twap_time_average [OF ring0_ok(1) t] show ?thesis by blast
qed

lemma aggregate_ok:
  assumes "aggregate pyth sb twap canonical now cfg = res" "or_mode res = ModeOk"
  shows "pv_fresh pyth now cfg" "conf_ratio_bps pyth \<le> oc_max_conf_bps cfg" "or_fresh res" "or_plausible res"
    "\<exists>s. sb = Some s \<and> pv_fresh s now cfg \<and> deviation_bps (pv_price pyth) (pv_price s) \<le> oc_max_deviation_bps cfg"
    "\<forall>t. twap = Some t \<longrightarrow> deviation_bps (pv_price pyth) t \<le> oc_twap_max_divergence_bps cfg"
    "\<not> oc_twap_corridor_optional cfg \<longrightarrow> twap \<noteq> None" "oc_canonical_required cfg \<longrightarrow> canonical \<noteq> None"
proof -
  show "pv_fresh pyth now cfg" "conf_ratio_bps pyth \<le> oc_max_conf_bps cfg" "or_fresh res" "or_plausible res"
    using assms(2) unfolding assms(1) [symmetric] aggregate_def Let_def by (simp_all split: if_split_asm)
  show "\<exists>s. sb = Some s \<and> pv_fresh s now cfg \<and> deviation_bps (pv_price pyth) (pv_price s) \<le> oc_max_deviation_bps cfg"
    using assms(2) unfolding assms(1) [symmetric] aggregate_def Let_def by (cases sb) (simp_all split: if_split_asm)
  show "\<forall>t. twap = Some t \<longrightarrow> deviation_bps (pv_price pyth) t \<le> oc_twap_max_divergence_bps cfg"
    "\<not> oc_twap_corridor_optional cfg \<longrightarrow> twap \<noteq> None"
    using assms(2) unfolding assms(1) [symmetric] aggregate_def Let_def by (cases twap; simp split: if_split_asm)+
  show "oc_canonical_required cfg \<longrightarrow> canonical \<noteq> None"
    using assms(2) unfolding assms(1) [symmetric] aggregate_def Let_def by (cases canonical; simp split: if_split_asm)
qed

text \<open>C4. Whenever the aggregate allows minting, the primary feed is fresh and its confidence interval tight, a fresh
  second feed agrees with it within the band, the trading average (when required or present) agrees
  within the corridor, and the price lies in the plausibility band. In every mode the price used for
  borrowing is at most, and the price used for liquidation at least, the chosen price, and on a
  staking token the former never exceeds the value of the pool.\<close>

theorem aggregate_mint_safe:
  assumes "aggregate pyth sb twap canonical now cfg = res" "pv_price pyth < 2 ^ 114"
    and "\<And>s. sb = Some s \<Longrightarrow> pv_price s < 2 ^ 114" "\<And>t. twap = Some t \<Longrightarrow> t < 2 ^ 114"
    and "oc_max_deviation_bps cfg < 2 ^ 64" "oc_twap_max_divergence_bps cfg < 2 ^ 64"
  shows "(or_mode res = ModeOk \<longrightarrow>
      \<not> is_stale pyth now (oc_max_age_secs cfg) \<and> conf_ratio_bps pyth \<le> oc_max_conf_bps cfg \<and> or_fresh res \<and> or_plausible res \<and>
      (\<exists>s. sb = Some s \<and> \<not> is_stale s now (oc_max_age_secs cfg) \<and>
        (max (pv_price pyth) (pv_price s) - min (pv_price pyth) (pv_price s)) * Oracle.BPS < (oc_max_deviation_bps cfg + 1) * min (pv_price pyth) (pv_price s)) \<and>
      (\<forall>t. twap = Some t \<longrightarrow>
        (max (pv_price pyth) t - min (pv_price pyth) t) * Oracle.BPS < (oc_twap_max_divergence_bps cfg + 1) * min (pv_price pyth) t) \<and>
      (\<not> oc_twap_corridor_optional cfg \<longrightarrow> twap \<noteq> None) \<and> (oc_canonical_required cfg \<longrightarrow> canonical \<noteq> None)) \<and>
    or_collateral_price res \<le> pv_price (choose_view pyth sb now cfg) \<and> pv_price (choose_view pyth sb now cfg) \<le> or_debt_price res \<and>
    (\<forall>c. canonical = Some c \<longrightarrow> or_collateral_price res \<le> c)"
proof -
  have big: "(2::nat) ^ 64 < 2 ^ 128 - 1" "(2::nat) ^ 114 < 2 ^ 128" by simp_all
  have dev: "deviation_bps a b \<le> d \<Longrightarrow> d < 2 ^ 64 \<Longrightarrow> a < 2 ^ 114 \<Longrightarrow> b < 2 ^ 114 \<Longrightarrow> (max a b - min a b) * Oracle.BPS < (d + 1) * min a b" for a b d
    using deviation_sound(3) [of a b d] big(1) by (meson order.strict_trans)
  have "pv_price (choose_view pyth sb now cfg) < 2 ^ 114" using assms(2,3) by (auto simp: choose_view_def split: option.splits)
  then have ch: "pv_price (choose_view pyth sb now cfg) < 2 ^ 128" using big(2) by (rule order.strict_trans)
  note pr = aggregate_prices [where pyth = pyth and sb = sb and twap = twap and canonical = canonical and now = now and cfg = cfg, unfolded assms(1)]
  have "(\<forall>t. twap = Some t \<longrightarrow>
        (max (pv_price pyth) t - min (pv_price pyth) t) * Oracle.BPS < (oc_twap_max_divergence_bps cfg + 1) * min (pv_price pyth) t)"
    if "\<forall>t. twap = Some t \<longrightarrow> deviation_bps (pv_price pyth) t \<le> oc_twap_max_divergence_bps cfg"
    using that dev [OF _ assms(6,2) assms(4)] by blast
  moreover have "\<exists>s. sb = Some s \<and> \<not> is_stale s now (oc_max_age_secs cfg) \<and>
        (max (pv_price pyth) (pv_price s) - min (pv_price pyth) (pv_price s)) * Oracle.BPS < (oc_max_deviation_bps cfg + 1) * min (pv_price pyth) (pv_price s)"
    if "sb = Some s" "pv_fresh s now cfg" "deviation_bps (pv_price pyth) (pv_price s) \<le> oc_max_deviation_bps cfg" for s
    using that dev [OF that(3) assms(5,2) assms(3) [OF that(1)]] by (simp add: pv_fresh_def)
  moreover have "or_collateral_price res \<le> pv_price (choose_view pyth sb now cfg) \<and> pv_price (choose_view pyth sb now cfg) \<le> or_debt_price res \<and>
    (\<forall>c. canonical = Some c \<longrightarrow> or_collateral_price res \<le> c)" using pr ch by blast
  ultimately show ?thesis using aggregate_ok [OF assms(1)] by (simp add: pv_fresh_def) blast
qed

definition view0 :: price_view where
  "view0 = \<lparr> pv_price = 100 * RAY, pv_conf = 0, pv_expo = 0, pv_publish_ts = 0 \<rparr>"

definition oracle_config0 :: oracle_config where
  "oracle_config0 = \<lparr> oc_max_conf_bps = 200, oc_max_deviation_bps = 100, oc_twap_max_divergence_bps = 500, oc_max_age_secs = 60,
     oc_k_bps = 21200, oc_band_lower_ray = 0, oc_band_upper_ray = 0, oc_liq_max_divergence_bps = 0, oc_canonical_required = False,
     oc_twap_corridor_optional = False \<rparr>"

theorem aggregate_mint_safe_witness:
  "or_mode (aggregate view0 (Some view0) (Some (100 * RAY)) None 0 oracle_config0) = ModeOk \<and>
   or_fresh (aggregate view0 (Some view0) (Some (100 * RAY)) None 0 oracle_config0)"
proof -
  have "or_mode (aggregate view0 (Some view0) (Some (100 * RAY)) None 0 oracle_config0) = ModeOk"
    by (simp add: aggregate_def view0_def oracle_config0_def RAY_def Oracle.BPS_def pv_fresh_def is_stale_def conf_ratio_bps_def
        deviation_bps_def choose_view_def saturating_mul_def i64_sat_def Let_def)
  then show ?thesis
    using aggregate_mint_safe [OF refl, of view0 "Some view0" "Some (100 * RAY)" oracle_config0 None 0]
    by (simp add: view0_def oracle_config0_def RAY_def)
qed


subsection \<open>Updating a price\<close>

text \<open>The frame of a price update: every field of the market but the prices, the freeze and the two windows.\<close>

definition only_prices :: "market \<Rightarrow> market \<Rightarrow> bool" where
  "only_prices m m' \<longleftrightarrow> m' = m\<lparr> m_spot := m_spot m', m_debt_spot := m_debt_spot m', m_spot_updated_slot := m_spot_updated_slot m',
     m_mint_frozen := m_mint_frozen m', m_liq_grace_until := m_liq_grace_until m', m_liq_divergence_until := m_liq_divergence_until m' \<rparr> \<and>
     m_liq_grace_until m \<le> m_liq_grace_until m' \<and> m_liq_divergence_until m \<le> m_liq_divergence_until m'"

text \<open>A committed price: strictly positive, the borrowing price at most the liquidation price, both the exact
  rescaling of an aggregated fresh and plausible price, the borrowing price after the liquidity haircut of a
  market priced through its own staking pool.\<close>

definition borrow_price :: "market_oracle \<Rightarrow> nat \<Rightarrow> nat" where
  "borrow_price o1 p =
     (if mo_canonical_primary o1 \<noteq> 0 \<and> 0 < mo_liquidity_haircut_bps o1
      then p * (Oracle.BPS - mo_liquidity_haircut_bps o1) div Oracle.BPS else p)"

definition committed :: "oracle_result \<Rightarrow> market_oracle \<Rightarrow> nat \<Rightarrow> market \<Rightarrow> market \<Rightarrow> bool" where
  "committed res o1 slot m m' \<longleftrightarrow> or_fresh res \<and> or_plausible res \<and> 0 < m_spot m' \<and> m_spot m' \<le> m_debt_spot m' \<and>
     m_spot_updated_slot m' = slot \<and> m_debt_spot m' = or_debt_price res * 10 ^ FUSD_DECIMALS div 10 ^ m_collateral_decimals m \<and>
     m_spot m' = borrow_price o1 (or_collateral_price res) * 10 ^ FUSD_DECIMALS div 10 ^ m_collateral_decimals m \<and>
     (0 < m_spot m \<and> slot - m_spot_updated_slot m > MAX_PRICE_STALENESS_SLOTS \<longrightarrow>
        saturating_add 64 slot LIQ_RESUME_GRACE_SLOTS \<le> m_liq_grace_until m')"

lemma borrow_price_le: "borrow_price o1 p \<le> p"
proof -
  have "p * (Oracle.BPS - h) div Oracle.BPS \<le> p * Oracle.BPS div Oracle.BPS" for h by (intro div_le_mono mult_le_mono2) simp
  then show ?thesis by (simp add: borrow_price_def Oracle.BPS_def)
qed

lemma commit_price_Inr:
  assumes "commit_price U slot rate res m o1 = Inr (m', o1')" "u256x_laws U"
    and "or_collateral_price res \<le> or_debt_price res" "or_debt_price res < 2 ^ 128"
  shows "only_prices m m'" "o1' = o1\<lparr> mo_last_canonical_rate_ray := mo_last_canonical_rate_ray o1' \<rparr>"
    "m_mint_frozen m' \<longleftrightarrow> or_mode res \<noteq> ModeOk"
    "m_spot m' = m_spot m \<and> m_debt_spot m' = m_debt_spot m \<and> m_spot_updated_slot m' = m_spot_updated_slot m \<or> committed res o1 slot m m'"
proof -
  define m1 where "m1 = (if or_liq_divergent res
     then m\<lparr> m_mint_frozen := (or_mode res \<noteq> ModeOk), m_liq_divergence_until := max (m_liq_divergence_until m) (saturating_add 64 slot LIQ_DIVERGENCE_GRACE_SLOTS) \<rparr>
     else m\<lparr> m_mint_frozen := (or_mode res \<noteq> ModeOk) \<rparr>)"
  define fin where "fin spot debt_spot = (if 0 < spot then (let m2 = commit_fresh_spot m1 spot debt_spot slot in case rate of None \<Rightarrow> (m2, o1)
        | Some new_rate \<Rightarrow> (if mo_last_canonical_rate_ray o1 > 0 \<and> new_rate < mo_last_canonical_rate_ray o1
             then m2\<lparr> m_liq_grace_until := max (m_liq_grace_until m2) (saturating_add 64 slot LIQ_RESUME_GRACE_SLOTS) \<rparr> else m2,
             o1\<lparr> mo_last_canonical_rate_ray := new_rate \<rparr>)) else (m1, o1))" for spot debt_spot
  have m1: "only_prices m m1" "m_mint_frozen m1 \<longleftrightarrow> or_mode res \<noteq> ModeOk" "m_spot m1 = m_spot m" "m_debt_spot m1 = m_debt_spot m"
    "m_spot_updated_slot m1 = m_spot_updated_slot m" "m_collateral_decimals m1 = m_collateral_decimals m"
    by (simp_all add: m1_def only_prices_def)
  consider (kept) "m' = m1" "o1' = o1"
    | (moved) p spot debt_spot m2 where "or_fresh res" "or_plausible res" "p = borrow_price o1 (or_collateral_price res)"
      "usd_ray_to_spot U p (m_collateral_decimals m) FUSD_DECIMALS = Some spot"
      "usd_ray_to_spot U (or_debt_price res) (m_collateral_decimals m) FUSD_DECIMALS = Some debt_spot"
      "0 < spot" "m2 = commit_fresh_spot m1 spot debt_spot slot"
      "m' = m2\<lparr> m_liq_grace_until := m_liq_grace_until m' \<rparr>" "m_liq_grace_until m2 \<le> m_liq_grace_until m'"
      "o1' = o1\<lparr> mo_last_canonical_rate_ray := mo_last_canonical_rate_ray o1' \<rparr>"
  proof (cases "or_fresh res \<and> or_plausible res")
    case False
    then show thesis using assms(1) that(1) by (auto simp: commit_price_def m1_def Let_def split: if_splits)
  next
    case True
    have e: "commit_price U slot rate res m o1 =
      bindR (if mo_canonical_primary o1 \<noteq> 0 \<and> mo_liquidity_haircut_bps o1 > 0
             then bindR (sub_or_panic Oracle.BPS (mo_liquidity_haircut_bps o1)) (\<lambda>keep.
                  math (mul_div_floor (or_collateral_price res) keep Oracle.BPS))
             else Inr (or_collateral_price res)) (\<lambda>p.
      bindR (math (usd_ray_to_spot U p (m_collateral_decimals m) FUSD_DECIMALS)) (\<lambda>spot.
      bindR (math (usd_ray_to_spot U (or_debt_price res) (m_collateral_decimals m) FUSD_DECIMALS)) (\<lambda>debt_spot.
      Inr (fin spot debt_spot))))"
      using True unfolding commit_price_def fin_def Let_def m1_def Cdp_Math.BPS_def Oracle.BPS_def
      by (cases rate) (simp_all add: if_distrib [where f = Inr] cong: if_cong)
    obtain p spot debt_spot where p: "(if mo_canonical_primary o1 \<noteq> 0 \<and> mo_liquidity_haircut_bps o1 > 0
             then bindR (sub_or_panic Oracle.BPS (mo_liquidity_haircut_bps o1)) (\<lambda>keep.
                  math (mul_div_floor (or_collateral_price res) keep Oracle.BPS))
             else Inr (or_collateral_price res)) = Inr p"
      and s: "usd_ray_to_spot U p (m_collateral_decimals m) FUSD_DECIMALS = Some spot"
        "usd_ray_to_spot U (or_debt_price res) (m_collateral_decimals m) FUSD_DECIMALS = Some debt_spot"
      and r: "fin spot debt_spot = (m', o1')"
      using assms(1) unfolding e handler_Inr by blast
    have "p = borrow_price o1 (or_collateral_price res)"
      using p unfolding if_Inr handler_Inr sub_or_panic_Inr borrow_price_def
      by (auto simp: mul_div_floor_def wide_mul_div_eq split: if_splits)
    then show thesis using r True s that(1) that(2) [of p spot debt_spot "commit_fresh_spot m1 spot debt_spot slot"]
      by (cases rate) (auto simp: fin_def Let_def split: if_split_asm)
  qed
  then have "only_prices m m' \<and> o1' = o1\<lparr> mo_last_canonical_rate_ray := mo_last_canonical_rate_ray o1' \<rparr> \<and>
    (m_mint_frozen m' \<longleftrightarrow> or_mode res \<noteq> ModeOk) \<and>
    (m_spot m' = m_spot m \<and> m_debt_spot m' = m_debt_spot m \<and> m_spot_updated_slot m' = m_spot_updated_slot m \<or> committed res o1 slot m m')"
  proof cases
    case kept
    then show ?thesis using m1 by simp
  next
    case moved
    have le0: "p \<le> or_collateral_price res" unfolding moved(3) by (rule borrow_price_le)
    have u: "p < 2 ^ 128" using le0 assms(3,4) by (meson le_less_trans)
    have sp: "spot = p * 10 ^ FUSD_DECIMALS div 10 ^ m_collateral_decimals m"
      "debt_spot = or_debt_price res * 10 ^ FUSD_DECIMALS div 10 ^ m_collateral_decimals m"
      using moved(4,5) unfolding usd_ray_to_spot_eq [OF assms(2) u] usd_ray_to_spot_eq [OF assms(2,4)] by (simp_all split: if_split_asm)
    have le: "spot \<le> debt_spot" unfolding sp using le0 assms(3) by (simp add: div_le_mono)
    have f: "m_spot m' = spot" "m_debt_spot m' = debt_spot" "m_spot_updated_slot m' = slot" "m_mint_frozen m' = m_mint_frozen m1"
      by (subst moved(8), simp add: moved(7) commit_fresh_spot_def Let_def)+
    have "committed res o1 slot m m'"
      using moved(1,2,6,9) le m1(3,5) unfolding committed_def f sp(2) [symmetric] sp(1) [unfolded moved(3), symmetric] moved(7)
      by (auto simp: commit_fresh_spot_def)
    moreover have "only_prices m m'"
    proof -
      have "m1 = m\<lparr> m_mint_frozen := (or_mode res \<noteq> ModeOk), m_liq_divergence_until := m_liq_divergence_until m1 \<rparr>"
        "m_liq_divergence_until m \<le> m_liq_divergence_until m1" by (simp_all add: m1_def)
      then obtain d where d: "m1 = m\<lparr> m_mint_frozen := (or_mode res \<noteq> ModeOk), m_liq_divergence_until := d \<rparr>" "m_liq_divergence_until m \<le> d"
        by blast
      have "m_liq_grace_until m1 \<le> m_liq_grace_until m2" by (simp add: moved(7) commit_fresh_spot_def Let_def)
      then have g2: "m_liq_grace_until m1 \<le> m_liq_grace_until m'" using moved(9) by simp
      have "m' = m1\<lparr> m_spot := spot, m_debt_spot := debt_spot, m_spot_updated_slot := slot, m_liq_grace_until := m_liq_grace_until m' \<rparr>"
        by (rule trans [OF moved(8)]) (simp add: moved(7) commit_fresh_spot_def Let_def)
      with g2 obtain g where g: "m' = m1\<lparr> m_spot := spot, m_debt_spot := debt_spot, m_spot_updated_slot := slot, m_liq_grace_until := g \<rparr>"
        "m_liq_grace_until m1 \<le> g" by blast
      show ?thesis using d(2) g(2) unfolding only_prices_def g(1) d(1) by simp
    qed
    ultimately show ?thesis using m1(2) moved(10) f(4) by blast
  qed
  then show "only_prices m m'" "o1' = o1\<lparr> mo_last_canonical_rate_ray := mo_last_canonical_rate_ray o1' \<rparr>"
    "m_mint_frozen m' \<longleftrightarrow> or_mode res \<noteq> ModeOk"
    "m_spot m' = m_spot m \<and> m_debt_spot m' = m_debt_spot m \<and> m_spot_updated_slot m' = m_spot_updated_slot m \<or> committed res o1 slot m m'"
    by blast+
qed

lemma px_to_ray_bound: "u256x_laws U \<Longrightarrow> px_to_ray U p e = Some v \<Longrightarrow> v < 2 ^ 128"
  by (auto simp: px_to_ray_def u256x_exact(5) split: option.splits if_split_asm)

lemma parse_pyth_bound: "u256x_laws U \<Longrightarrow> parse_pyth S U acc feed a b = Inr v \<Longrightarrow> pv_price v < 2 ^ 128"
  by (auto simp: parse_pyth_def handler_Inr dest: px_to_ray_bound)

lemma parse_switchboard_bound: "u256x_laws U \<Longrightarrow> parse_switchboard S U acc a b = Inr (Some v) \<Longrightarrow> pv_price v < 2 ^ 128"
  by (auto simp: parse_switchboard_def handler_Inr dest: px_to_ray_bound split: if_split_asm option.splits)

lemma scale_view_bound: "scale_view v a b = Some w \<Longrightarrow> pv_price w < 2 ^ 128"
  by (auto simp: scale_view_def num_simps split: if_split_asm option.splits)

subsection \<open>What the accounts of an update say\<close>

text \<open>
  The price an account gives, in terms of its owner, its key and what the packages decode from its data:
  a fully verified Pyth update of a feed; a Switchboard feed with enough responses; a staking pool of the
  market's token that was updated recently enough.
\<close>

definition pyth_reading :: "sdk \<Rightarrow> 'u u256x \<Rightarrow> protocol_config \<Rightarrow> nat list \<Rightarrow> raw_account \<Rightarrow> price_view \<Rightarrow> bool" where
  "pyth_reading S U cfg feed acc v \<longleftrightarrow>
     (ac_owner acc = cfg_pyth_receiver_program_id cfg \<or>
      cfg_pyth_receiver_program_id_alt cfg \<noteq> default_key \<and> ac_owner acc = cfg_pyth_receiver_program_id_alt cfg) \<and>
     (\<exists>pu px. sdk_pyth S (ac_data acc) = Some pu \<and> pu_full pu \<and> pu_price pu feed = Some px \<and> 0 < px_price px \<and>
        px_to_ray U (nat (px_price px)) (px_exponent px) = Some (pv_price v) \<and>
        px_to_ray U (px_conf px) (px_exponent px) = Some (pv_conf v) \<and>
        pv_expo v = 0 \<and> pv_publish_ts v = px_publish_time px)"

definition switchboard_reading :: "sdk \<Rightarrow> 'u u256x \<Rightarrow> protocol_config \<Rightarrow> market_oracle \<Rightarrow> raw_account \<Rightarrow> price_view \<Rightarrow> bool" where
  "switchboard_reading S U cfg o1 acc v \<longleftrightarrow>
     ac_owner acc = cfg_switchboard_program_id cfg \<and> ac_key acc = mo_switchboard_feed o1 \<and>
     (\<exists>f. sdk_switchboard S (ac_data acc) = Some f \<and> 0 < sf_slot f \<and> 0 < sf_value f \<and>
        1 \<le> sf_num_samples f \<and> sf_min_responses f \<le> sf_num_samples f \<and>
        px_to_ray U (nat (sf_value f)) (- 18) = Some (pv_price v) \<and>
        px_to_ray U (nat (max (sf_std_dev f) 0)) (- 18) = Some (pv_conf v) \<and>
        pv_expo v = 0 \<and> pv_publish_ts v = sf_last_update_timestamp f)"

definition pool_reading :: "price_accounts \<Rightarrow> pubkey \<Rightarrow> pubkey \<Rightarrow> nat \<Rightarrow> stake_pool_sample \<Rightarrow> bool" where
  "pool_reading A pool owner epoch s \<longleftrightarrow>
     (\<exists>acc. pa_lst_stake_pool A = Some acc \<and> ac_owner acc = owner \<and> ac_key acc = pool \<and>
        stake_pool_parse (ac_data acc) = Inr s \<and> epoch - sp_last_update_epoch s \<le> MAX_STAKE_POOL_EPOCH_LAG \<and>
        sp_pool_mint s = pa_collateral_mint A)"

text \<open>The rate of the market's own staking pool, while the pool's update of the epoch is not overdue.\<close>

definition own_pool_reading :: "clock \<Rightarrow> epochs \<Rightarrow> price_accounts \<Rightarrow> market_oracle \<Rightarrow> stake_pool_sample \<Rightarrow> bool" where
  "own_pool_reading clk ep A o1 s \<longleftrightarrow>
     pool_reading A (mo_lst_stake_pool o1) FUSION_STAKE_POOL_PROGRAM_ID (ep_epoch ep) s \<and>
     within_pool_update_grace (sp_last_update_epoch s) clk ep"

definition rescaled :: "stake_pool_sample \<Rightarrow> price_view \<Rightarrow> price_view \<Rightarrow> bool" where
  "rescaled s v v' \<longleftrightarrow> 0 < sp_total_lamports s \<and> 0 < sp_pool_token_supply s \<and>
     v' = v\<lparr> pv_price := pv_price v * sp_total_lamports s div sp_pool_token_supply s,
            pv_conf := pv_conf v * sp_total_lamports s div sp_pool_token_supply s \<rparr>"

text \<open>The two feeds of an update, as published or, on a market priced through its own pool, at the rate of the pool.\<close>

definition feeds_read ::
    "sdk \<Rightarrow> 'u u256x \<Rightarrow> clock \<Rightarrow> epochs \<Rightarrow> price_accounts \<Rightarrow> protocol_config \<Rightarrow> market_oracle \<Rightarrow> price_view \<Rightarrow> price_view option \<Rightarrow> bool" where
  "feeds_read S U clk ep A cfg o1 pyth sb \<longleftrightarrow>
     (\<exists>pyth0 sb0. pyth_reading S U cfg (mo_pyth_feed_id o1) (pa_pyth_price_update A) pyth0 \<and>
        (\<forall>v. sb0 = Some v \<longleftrightarrow> (\<exists>acc. pa_switchboard_feed A = Some acc \<and> switchboard_reading S U cfg o1 acc v)) \<and>
        (if mo_canonical_primary o1 = 0 then pyth = pyth0 \<and> sb = sb0
         else \<exists>s. own_pool_reading clk ep A o1 s \<and> rescaled s pyth0 pyth \<and> rel_option (rescaled s) sb0 sb))"

text \<open>The value of a staking token: the fresh price of SOL times the rate of its pool.\<close>

definition canonical_reading ::
    "sdk \<Rightarrow> 'u u256x \<Rightarrow> clock \<Rightarrow> epochs \<Rightarrow> price_accounts \<Rightarrow> protocol_config \<Rightarrow> market_oracle \<Rightarrow> nat \<Rightarrow> bool" where
  "canonical_reading S U clk ep A cfg o1 c \<longleftrightarrow>
     mo_canonical_primary o1 = 0 \<and> mo_lst_stake_pool o1 \<noteq> default_key \<and>
     (\<exists>sol v s. pa_sol_usd_pyth_update A = Some sol \<and> pyth_reading S U cfg PYTH_SOL_USD_FEED_ID sol v \<and>
        \<not> is_stale v (unix_timestamp clk) (mo_max_age_secs o1) \<and>
        pool_reading A (mo_lst_stake_pool o1) SPL_STAKE_POOL_PROGRAM_ID (ep_epoch ep) s \<and>
        mul_div_floor (pv_price v) (sp_total_lamports s) (sp_pool_token_supply s) = Some c)"

lemma parse_pyth_iff:
  "parse_pyth S U acc feed (cfg_pyth_receiver_program_id cfg) (cfg_pyth_receiver_program_id_alt cfg) = Inr v \<longleftrightarrow>
     pyth_reading S U cfg feed acc v"
  unfolding parse_pyth_def pyth_reading_def handler_Inr by (rule iffI; elim conjE exE; cases v; auto)

lemma parse_switchboard_iff:
  "parse_switchboard S U acc (mo_switchboard_feed o1) (cfg_switchboard_program_id cfg) = Inr (Some v) \<longleftrightarrow>
     switchboard_reading S U cfg o1 acc v"
proof (cases "sdk_switchboard S (ac_data acc)")
  case None
  then show ?thesis by (simp add: parse_switchboard_def switchboard_reading_def handler_Inr)
next
  case (Some f)
  show ?thesis
    unfolding parse_switchboard_def switchboard_reading_def handler_Inr Some
    by (cases v; cases "px_to_ray U (nat (sf_value f)) (- 18)"; cases "px_to_ray U (nat (max (sf_std_dev f) 0)) (- 18)")
      (auto simp: if_Inr not_less)
qed

lemma parse_bound_stake_pool_iff:
  "parse_bound_stake_pool (pa_lst_stake_pool A) pool owner (pa_collateral_mint A) epoch = Inr (Some s) \<longleftrightarrow> pool_reading A pool owner epoch s"
  unfolding parse_bound_stake_pool_def pool_reading_def
  by (cases "pa_lst_stake_pool A") (auto simp: handler_Inr if_Inr not_less split: sum.splits)

lemma scale_view_rescaled:
  "scale_view v (sp_total_lamports s) (sp_pool_token_supply s) = Some w \<Longrightarrow> rescaled s v w"
  by (auto simp: scale_view_def rescaled_def mul_div_floor_def wide_mul_div_eq split: if_split_asm option.splits)

lemma compute_canonical_iff:
  assumes "compute_canonical S U A cfg (mo_lst_stake_pool o1) (unix_timestamp clk) (mo_max_age_secs o1) (ep_epoch ep) = Inr canonical"
    "mo_canonical_primary o1 = 0" "mo_lst_stake_pool o1 \<noteq> default_key"
  shows "canonical = Some c \<longleftrightarrow> canonical_reading S U clk ep A cfg o1 c"
proof (cases "pa_sol_usd_pyth_update A")
  case None
  then show ?thesis using assms by (simp add: compute_canonical_def canonical_reading_def)
next
  case (Some sol)
  obtain v where v: "pyth_reading S U cfg PYTH_SOL_USD_FEED_ID sol v"
    using assms(1) Some by (auto simp: compute_canonical_def bindR_Inr parse_pyth_iff)
  then have p: "parse_pyth S U sol PYTH_SOL_USD_FEED_ID (cfg_pyth_receiver_program_id cfg) (cfg_pyth_receiver_program_id_alt cfg) = Inr v"
    by (simp add: parse_pyth_iff)
  have uv: "pyth_reading S U cfg PYTH_SOL_USD_FEED_ID sol w \<longleftrightarrow> w = v" for w
    using p unfolding parse_pyth_iff [symmetric] by auto
  show ?thesis
  proof (cases "is_stale v (unix_timestamp clk) (mo_max_age_secs o1)")
    case True
    then show ?thesis using assms Some p by (simp add: compute_canonical_def canonical_reading_def uv)
  next
    case False
    obtain s where s: "parse_bound_stake_pool (pa_lst_stake_pool A) (mo_lst_stake_pool o1) SPL_STAKE_POOL_PROGRAM_ID (pa_collateral_mint A) (ep_epoch ep) = Inr s"
      "canonical = (case s of None \<Rightarrow> None | Some x \<Rightarrow> mul_div_floor (pv_price v) (sp_total_lamports x) (sp_pool_token_supply x))"
      using assms(1) Some p False by (auto simp: compute_canonical_def bindR_Inr split: option.splits)
    have "pool_reading A (mo_lst_stake_pool o1) SPL_STAKE_POOL_PROGRAM_ID (ep_epoch ep) x \<longleftrightarrow> s = Some x" for x
      using s(1) unfolding parse_bound_stake_pool_iff [symmetric] by auto
    then show ?thesis using assms(2,3) Some False s(2) by (cases s) (auto simp: canonical_reading_def uv)
  qed
qed

lemma price_legs_Inr:
  assumes "price_legs clk ep A o1 pyth0 sb0 = Inr legs"
  obtains (none) "legs = None" "mo_canonical_primary o1 \<noteq> 0" "\<nexists>s. own_pool_reading clk ep A o1 s"
  | (published) rate where "legs = Some (rate, pyth0, sb0)" "mo_canonical_primary o1 = 0"
  | (pool) rate pyth sb s where "legs = Some (rate, pyth, sb)" "mo_canonical_primary o1 \<noteq> 0" "own_pool_reading clk ep A o1 s"
      "rescaled s pyth0 pyth" "rel_option (rescaled s) sb0 sb" "pv_price pyth < 2 ^ 128" "\<forall>v. sb = Some v \<longrightarrow> pv_price v < 2 ^ 128"
proof (cases "mo_canonical_primary o1 = 0")
  case True
  then have "legs = Some (None, pyth0, sb0)" using assms by (simp add: price_legs_def)
  then show thesis using True by (rule published)
next
  case False
  obtain sp where sp: "parse_bound_stake_pool (pa_lst_stake_pool A) (mo_lst_stake_pool o1) FUSION_STAKE_POOL_PROGRAM_ID
      (pa_collateral_mint A) (ep_epoch ep) = Inr sp"
    using assms False by (auto simp: price_legs_def bindR_Inr)
  have rd: "own_pool_reading clk ep A o1 s \<longleftrightarrow> sp = Some s \<and> within_pool_update_grace (sp_last_update_epoch s) clk ep" for s
    using sp unfolding own_pool_reading_def parse_bound_stake_pool_iff [symmetric] by auto
  show thesis
  proof (cases "\<exists>s. own_pool_reading clk ep A o1 s")
    case no: False
    have "(case sp of Some s \<Rightarrow> if within_pool_update_grace (sp_last_update_epoch s) clk ep then Some s else None | None \<Rightarrow> None) = None"
      using no by (cases sp) (simp_all add: rd)
    then have "legs = None" using assms False sp by (simp add: price_legs_def)
    then show thesis using none False no by blast
  next
    case True
    then obtain s where s: "own_pool_reading clk ep A o1 s" by blast
    then have g: "sp = Some s" "within_pool_update_grace (sp_last_update_epoch s) clk ep" by (simp_all add: rd)
    obtain rate pyth sb where l: "legs = Some (rate, pyth, sb)"
      and p: "scale_view pyth0 (sp_total_lamports s) (sp_pool_token_supply s) = Some pyth"
      and b: "(case sb0 of
          Some v \<Rightarrow> bindR (math (scale_view v (sp_total_lamports s) (sp_pool_token_supply s))) (\<lambda>v. Inr (Some v))
        | None \<Rightarrow> Inr None) = (Inr sb :: price_view option res)"
      using assms False g sp by (auto simp: price_legs_def bindR_Inr ok_or_Inr)
    have "rel_option (rescaled s) sb0 sb \<and> (\<forall>v. sb = Some v \<longrightarrow> pv_price v < 2 ^ 128)"
      using b by (cases sb0) (auto simp: bindR_Inr ok_or_Inr scale_view_rescaled dest: scale_view_bound)
    then show thesis using pool [OF l False s scale_view_rescaled [OF p]] scale_view_bound [OF p] by blast
  qed
qed

text \<open>A successful update: frozen because the rate of the pool is missing, or priced from what the accounts say.\<close>

lemma update_price_Inr:
  assumes "update_price_handler S U clk ep A cfg r m o1 = Inr (m', o1')" "u256x_laws U"
  obtains (frozen) "mo_canonical_primary o1 \<noteq> 0" "\<nexists>s. own_pool_reading clk ep A o1 s" "m' = m\<lparr> m_mint_frozen := True \<rparr>" "o1' = o1"
  | (priced) rate pyth sb twap canonical where
      "feeds_read S U clk ep A cfg o1 pyth sb" "pv_price pyth < 2 ^ 128" "\<forall>s. sb = Some s \<longrightarrow> pv_price s < 2 ^ 128"
      "ring_twap TWAP_RING_CAPACITY r (unix_timestamp clk) (mo_twap_window_secs o1)
         \<lparr> tc_min_samples = mo_twap_min_samples o1, tc_max_staleness = mo_twap_max_staleness_secs o1 \<rparr> = (Inr twap :: nat option res)"
      "\<forall>c. canonical = Some c \<longleftrightarrow> canonical_reading S U clk ep A cfg o1 c"
      "commit_price U (clock_slot clk) rate (aggregate pyth sb twap canonical (unix_timestamp clk) (oracle_config_of o1)) m o1 = Inr (m', o1')"
proof -
  obtain pyth0 sb0 legs where p: "parse_pyth S U (pa_pyth_price_update A) (mo_pyth_feed_id o1) (cfg_pyth_receiver_program_id cfg) (cfg_pyth_receiver_program_id_alt cfg) = Inr pyth0"
    and sb: "(case pa_switchboard_feed A of
              Some sb \<Rightarrow> parse_switchboard S U sb (mo_switchboard_feed o1) (cfg_switchboard_program_id cfg)
            | None \<Rightarrow> Inr None) = Inr sb0"
    and legs: "price_legs clk ep A o1 pyth0 sb0 = Inr legs"
    and rest: "(case legs of
       None \<Rightarrow> Inr (m\<lparr> m_mint_frozen := True \<rparr>, o1)
     | Some (canonical_rate_ray, pyth_pv, sb_pv) \<Rightarrow>
         bindR (ring_twap TWAP_RING_CAPACITY r (unix_timestamp clk) (mo_twap_window_secs o1)
                  \<lparr> tc_min_samples = mo_twap_min_samples o1, tc_max_staleness = mo_twap_max_staleness_secs o1 \<rparr>) (\<lambda>twap.
         bindR (if \<not> mo_canonical_primary o1 \<noteq> 0 \<and> mo_lst_stake_pool o1 \<noteq> default_key
                then compute_canonical S U A cfg (mo_lst_stake_pool o1) (unix_timestamp clk) (oc_max_age_secs (oracle_config_of o1)) (ep_epoch ep)
                else Inr None) (\<lambda>canonical.
         commit_price U (clock_slot clk) canonical_rate_ray (aggregate pyth_pv sb_pv twap canonical (unix_timestamp clk) (oracle_config_of o1)) m o1)))
       = Inr (m', o1')"
    using assms(1) unfolding update_price_handler_def Let_def bindR_Inr [of "parse_pyth _ _ _ _ _ _"] bindR_Inr [of "price_legs _ _ _ _ _ _"]
      bindR_Inr [of "case_option _ _ _"] by (elim exE conjE) (rule that)
  have sb0: "\<forall>v. sb0 = Some v \<longleftrightarrow> (\<exists>acc. pa_switchboard_feed A = Some acc \<and> switchboard_reading S U cfg o1 acc v)"
    using sb unfolding parse_switchboard_iff [symmetric] by (cases "pa_switchboard_feed A") auto
  have fits: "pv_price pyth0 < 2 ^ 128" "\<forall>v. sb0 = Some v \<longrightarrow> pv_price v < 2 ^ 128"
    using parse_pyth_bound [OF assms(2) p] sb0 parse_switchboard_bound [OF assms(2)] unfolding parse_switchboard_iff [symmetric] by blast+
  have rd: "pyth_reading S U cfg (mo_pyth_feed_id o1) (pa_pyth_price_update A) pyth0" using p by (simp add: parse_pyth_iff)
  have go: thesis if l: "legs = Some (rate, pyth, sb)" and f: "feeds_read S U clk ep A cfg o1 pyth sb"
    "pv_price pyth < 2 ^ 128" "\<forall>s. sb = Some s \<longrightarrow> pv_price s < 2 ^ 128" for rate pyth sb
  proof -
    obtain twap canonical where t: "ring_twap TWAP_RING_CAPACITY r (unix_timestamp clk) (mo_twap_window_secs o1)
         \<lparr> tc_min_samples = mo_twap_min_samples o1, tc_max_staleness = mo_twap_max_staleness_secs o1 \<rparr> = (Inr twap :: nat option res)"
      and c: "(if \<not> mo_canonical_primary o1 \<noteq> 0 \<and> mo_lst_stake_pool o1 \<noteq> default_key
        then compute_canonical S U A cfg (mo_lst_stake_pool o1) (unix_timestamp clk) (oc_max_age_secs (oracle_config_of o1)) (ep_epoch ep)
        else Inr None) = Inr canonical"
      and k: "commit_price U (clock_slot clk) rate (aggregate pyth sb twap canonical (unix_timestamp clk) (oracle_config_of o1)) m o1 = Inr (m', o1')"
      using rest [unfolded l option.case prod.case bindR_Inr] by (elim exE conjE) (rule that)
    have "\<forall>x. canonical = Some x \<longleftrightarrow> canonical_reading S U clk ep A cfg o1 x"
    proof (cases "mo_canonical_primary o1 = 0 \<and> mo_lst_stake_pool o1 \<noteq> default_key")
      case True
      then show ?thesis using c compute_canonical_iff [of S U A cfg o1 clk ep canonical] by (simp add: oracle_config_of_def)
    next
      case False
      then have "canonical = None" using c by (simp split: if_split_asm)
      then show ?thesis using False by (auto simp: canonical_reading_def)
    qed
    then show thesis by (rule priced [OF f t _ k])
  qed
  from legs show thesis
  proof (cases rule: price_legs_Inr)
    case none
    then show thesis using frozen rest by simp
  next
    case (published rate)
    then show thesis using go [OF published(1) _ fits] rd sb0 unfolding feeds_read_def by simp
  next
    case (pool rate pyth sb s)
    have "feeds_read S U clk ep A cfg o1 pyth sb"
      unfolding feeds_read_def if_not_P [OF pool(2)] using rd sb0 pool(3-5) by blast
    then show thesis by (rule go [OF pool(1) _ pool(6,7)])
  qed
qed

lemma priced_fits:
  assumes "pv_price pyth < 2 ^ 128" "\<And>v. sb = Some v \<Longrightarrow> pv_price v < 2 ^ 128"
  shows "or_collateral_price (aggregate pyth sb twap canonical now cfg) \<le> or_debt_price (aggregate pyth sb twap canonical now cfg)"
    "or_debt_price (aggregate pyth sb twap canonical now cfg) < 2 ^ 128"
proof -
  have "pv_price (choose_view pyth sb now cfg) < 2 ^ 128"
    using assms by (auto simp: choose_view_def split: option.splits)
  then show "or_collateral_price (aggregate pyth sb twap canonical now cfg) \<le> or_debt_price (aggregate pyth sb twap canonical now cfg)"
    by (rule order.trans [OF aggregate_prices(1) aggregate_prices(2)])
  show "or_debt_price (aggregate pyth sb twap canonical now cfg) < 2 ^ 128"
    by (simp add: aggregate_def Let_def debt_price_def saturating_add_def min_less_iff_disj)
qed

lemma update_price_only:
  assumes "u256x_laws U" "update_price_handler S U clk ep A cfg r m o1 = Inr (m', o1')"
  shows "only_prices m m'"
  using assms(2,1)
proof (cases rule: update_price_Inr)
  case frozen
  then show ?thesis by (simp add: only_prices_def)
next
  case (priced rate pyth sb twap canonical)
  show ?thesis by (rule commit_price_Inr(1) [OF priced(6) assms(1)]) (rule priced_fits; use priced(2,3) in auto)+
qed

text \<open>C1. A successful price update changes nothing of the market but its prices, its mint freeze and its two grace
  windows, which only move forward, and nothing of the oracle but the recorded pool rate. On a market
  priced through its own staking pool whose rate cannot be read or is overdue it freezes minting and
  keeps the prices. Otherwise it aggregates exactly what the accounts say: the price of the fully
  verified Pyth update of the market's feed; the price of the Switchboard account when, and only
  when, it is the bound feed of the Switchboard program with enough responses, both at the rate of the
  own staking pool where the market has one; the average of the observation ring; and the value of a staking
  token from the SOL price and the bound pool. Minting is open afterwards if and only if the aggregate
  allows it, which takes a fresh, tight Pyth price, a fresh Switchboard price and an average (where
  required) that agree with it, and the value of the staking token where the market binds one. The
  prices either stay as they were or are the exact rescaling of a fresh and plausible aggregate, with
  a positive borrowing price at most the liquidation price and never above the value of the staking
  token, and ending a long outage opens the liquidation grace.\<close>

theorem update_price_sound:
  assumes "u256x_laws U" "update_price_handler S U clk ep A cfg r m o1 = Inr (m', o1')"
  shows "only_prices m m' \<and> o1' = o1\<lparr> mo_last_canonical_rate_ray := mo_last_canonical_rate_ray o1' \<rparr> \<and>
    (mo_canonical_primary o1 \<noteq> 0 \<and> (\<nexists>s. own_pool_reading clk ep A o1 s) \<and> m_mint_frozen m' \<and>
       m_spot m' = m_spot m \<and> m_debt_spot m' = m_debt_spot m \<and> m_spot_updated_slot m' = m_spot_updated_slot m \<or>
     (\<exists>pyth sb twap canonical res.
       feeds_read S U clk ep A cfg o1 pyth sb \<and>
       ring_twap TWAP_RING_CAPACITY r (unix_timestamp clk) (mo_twap_window_secs o1)
         \<lparr> tc_min_samples = mo_twap_min_samples o1, tc_max_staleness = mo_twap_max_staleness_secs o1 \<rparr> = (Inr twap :: nat option res) \<and>
       (\<forall>c. canonical = Some c \<longleftrightarrow> canonical_reading S U clk ep A cfg o1 c) \<and>
       res = aggregate pyth sb twap canonical (unix_timestamp clk) (oracle_config_of o1) \<and>
       (m_mint_frozen m' \<longleftrightarrow> or_mode res \<noteq> ModeOk) \<and>
       (\<not> m_mint_frozen m' \<longrightarrow>
          \<not> is_stale pyth (unix_timestamp clk) (mo_max_age_secs o1) \<and> conf_ratio_bps pyth \<le> mo_max_conf_bps o1 \<and>
          (\<exists>s. sb = Some s \<and> \<not> is_stale s (unix_timestamp clk) (mo_max_age_secs o1) \<and>
             deviation_bps (pv_price pyth) (pv_price s) \<le> mo_max_deviation_bps o1) \<and>
          (\<forall>t. twap = Some t \<longrightarrow> deviation_bps (pv_price pyth) t \<le> mo_twap_max_divergence_bps o1) \<and>
          (mo_canonical_primary o1 = 0 \<longrightarrow> twap \<noteq> None) \<and>
          (mo_canonical_primary o1 = 0 \<and> mo_lst_stake_pool o1 \<noteq> default_key \<longrightarrow> canonical \<noteq> None)) \<and>
       (m_spot m' = m_spot m \<and> m_debt_spot m' = m_debt_spot m \<and> m_spot_updated_slot m' = m_spot_updated_slot m \<or>
        committed res o1 (clock_slot clk) m m' \<and>
        (\<forall>c. canonical_reading S U clk ep A cfg o1 c \<longrightarrow> m_spot m' \<le> c * 10 ^ FUSD_DECIMALS div 10 ^ m_collateral_decimals m))))"
  using assms(2,1)
proof (cases rule: update_price_Inr)
  case frozen
  then show ?thesis by (simp add: only_prices_def)
next
  case (priced rate pyth sb twap canonical)
  define res where "res = aggregate pyth sb twap canonical (unix_timestamp clk) (oracle_config_of o1)"
  have f: "or_collateral_price res \<le> or_debt_price res" "or_debt_price res < 2 ^ 128"
    unfolding res_def by (rule priced_fits; use priced(2,3) in auto)+
  note c = commit_price_Inr [OF priced(6) [folded res_def] assms(1) f]
  have cap: "m_spot m' \<le> x * 10 ^ FUSD_DECIMALS div 10 ^ m_collateral_decimals m"
    if "committed res o1 (clock_slot clk) m m'" "canonical_reading S U clk ep A cfg o1 x" for x
  proof -
    have "borrow_price o1 (or_collateral_price res) \<le> x"
      using borrow_price_le aggregate_prices(3) priced(5) that(2) unfolding res_def by (meson order.trans)
    then show ?thesis using that(1) by (simp add: committed_def div_le_mono)
  qed
  have ok: "\<not> is_stale pyth (unix_timestamp clk) (mo_max_age_secs o1) \<and> conf_ratio_bps pyth \<le> mo_max_conf_bps o1 \<and>
      (\<exists>s. sb = Some s \<and> \<not> is_stale s (unix_timestamp clk) (mo_max_age_secs o1) \<and>
         deviation_bps (pv_price pyth) (pv_price s) \<le> mo_max_deviation_bps o1) \<and>
      (\<forall>t. twap = Some t \<longrightarrow> deviation_bps (pv_price pyth) t \<le> mo_twap_max_divergence_bps o1) \<and>
      (mo_canonical_primary o1 = 0 \<longrightarrow> twap \<noteq> None) \<and>
      (mo_canonical_primary o1 = 0 \<and> mo_lst_stake_pool o1 \<noteq> default_key \<longrightarrow> canonical \<noteq> None)" if "\<not> m_mint_frozen m'"
  proof -
    have "or_mode res = ModeOk" using c(3) that by blast
    from aggregate_ok [OF res_def [symmetric] this] show ?thesis by (auto simp: pv_fresh_def oracle_config_of_def)
  qed
  show ?thesis
    by (rule conjI [OF c(1) conjI [OF c(2) disjI2]], rule exI [of _ pyth], rule exI [of _ sb], rule exI [of _ twap],
        rule exI [of _ canonical], rule exI [of _ res])
      (intro conjI impI priced(1,4,5) res_def c(3) ok; use c(4) cap in blast)
qed


definition oracle0 :: market_oracle where
  "oracle0 = \<lparr> mo_collateral_mint = 1, mo_pyth_feed_id = replicate 32 1, mo_switchboard_feed = 60, mo_orca_pool = 61, mo_raydium_pool = 0,
     mo_collateral_decimals = 9, mo_quote_mint = 62, mo_quote_decimals = 6, mo_max_conf_bps = 200, mo_max_deviation_bps = 100,
     mo_twap_max_divergence_bps = 500, mo_max_age_secs = 60, mo_k_bps = 21200, mo_twap_window_secs = 1800, mo_twap_min_samples = 3,
     mo_twap_max_staleness_secs = 300, mo_price_band_lower_ray = 0, mo_price_band_upper_ray = 0, mo_liq_max_divergence_bps = 0,
     mo_lst_stake_pool = 0, mo_canonical_primary = 0, mo_liquidity_haircut_bps = 0, mo_last_canonical_rate_ray = 0 \<rparr>"

definition price_accounts0 :: price_accounts where
  "price_accounts0 = \<lparr> pa_collateral_mint = 1, pa_pyth_price_update = \<lparr> ac_key = 70, ac_owner = PYTH_RECEIVER_PROGRAM_ID, ac_data = [] \<rparr>,
     pa_switchboard_feed = None, pa_sol_usd_pyth_update = None, pa_lst_stake_pool = None \<rparr>"

definition epochs0 :: epochs where
  "epochs0 = \<lparr> ep_epoch = 0, ep_first_slot = (\<lambda>_. 0), ep_slots = (\<lambda>_. 432000) \<rparr>"

text \<open>An update with both feeds at 100 dollars and three observations of that price over the last half hour.\<close>

definition sdk1 :: sdk where
  "sdk1 = \<lparr> sdk_pyth = (\<lambda>_. Some \<lparr> pu_full = True, pu_price = (\<lambda>_. Some \<lparr> px_price = 100, px_conf = 0, px_exponent = 0, px_publish_time = 1800 \<rparr>) \<rparr>),
     sdk_switchboard = (\<lambda>_. Some \<lparr> sf_value = 100 * 10 ^ 18, sf_std_dev = 0, sf_slot = 1, sf_last_update_timestamp = 1800,
       sf_num_samples = 3, sf_min_responses = 1 \<rparr>) \<rparr>"

definition price_accounts1 :: price_accounts where
  "price_accounts1 = price_accounts0\<lparr>
     pa_switchboard_feed := Some \<lparr> ac_key = 60, ac_owner = SWITCHBOARD_ON_DEMAND_PROGRAM_ID, ac_data = [] \<rparr> \<rparr>"

definition clock1 :: clock where "clock1 = \<lparr> unix_timestamp = 1800, clock_slot = 0 \<rparr>"

definition ring1 :: observation_ring where
  "ring1 = \<lparr> rg_prices = replicate 64 (100 * RAY), rg_ts = [0, 900, 1800] @ replicate 61 0, rg_next = 3, rg_count = 3 \<rparr>"

definition view1 :: price_view where
  "view1 = \<lparr> pv_price = 100 * RAY, pv_conf = 0, pv_expo = 0, pv_publish_ts = 1800 \<rparr>"

lemma update_price_grace1:
  fixes g r :: nat
  defines "m \<equiv> market0\<lparr> m_liq_grace_until := g, m_mcr_bps := r \<rparr>"
  shows "update_price_handler sdk1 word256x clock1 epochs0 price_accounts1 config0 ring1 m oracle0 =
     Inr (m\<lparr> m_mint_frozen := False, m_spot := 100 * RAY div 1000, m_debt_spot := 100 * RAY div 1000 \<rparr>, oracle0)"
proof -
  have r: "px_to_ray word256x 100 0 = Some (100 * RAY)" "px_to_ray word256x 0 0 = Some 0"
    "px_to_ray word256x (100 * 10 ^ 18) (- 18) = Some (100 * RAY)" "px_to_ray word256x 0 (- 18) = Some 0"
    by (simp_all add: px_to_ray_eq [OF word256x_laws] RAY_def)
  have s: "usd_ray_to_spot word256x (100 * RAY) 9 6 = Some (100 * RAY div 1000)"
    by (simp add: usd_ray_to_spot_eq [OF word256x_laws] RAY_def)
  have p: "parse_pyth sdk1 word256x (pa_pyth_price_update price_accounts1) (mo_pyth_feed_id oracle0) (cfg_pyth_receiver_program_id config0)
      (cfg_pyth_receiver_program_id_alt config0) = Inr view1"
    by (simp add: parse_pyth_def sdk1_def price_accounts1_def price_accounts0_def config0_def oracle0_def r view1_def ensure_def)
  have b: "parse_switchboard sdk1 word256x \<lparr> ac_key = 60, ac_owner = SWITCHBOARD_ON_DEMAND_PROGRAM_ID, ac_data = [] \<rparr> (mo_switchboard_feed oracle0)
      (cfg_switchboard_program_id config0) = Inr (Some view1)"
    using r(3) by (simp add: parse_switchboard_def sdk1_def config0_def oracle0_def r view1_def ensure_def)
  have t: "ring_twap TWAP_RING_CAPACITY ring1 1800 1800 \<lparr> tc_min_samples = 3, tc_max_staleness = 300 \<rparr> = (Inr (Some (100 * RAY)) :: nat option res)"
    by (simp add: ring1_def TWAP_RING_CAPACITY_def ring_twap_def ring_last_def ring_nth_def ring_at_def twap_loop.simps checked_mul_def
        checked_add_def RAY_def)
  have a: "aggregate view1 (Some view1) (Some (100 * RAY)) None 1800 (oracle_config_of oracle0) = \<lparr> or_collateral_price = 100 * RAY,
      or_debt_price = 100 * RAY, or_mode = ModeOk, or_fresh = True, or_plausible = True, or_liq_divergent = False \<rparr>"
    by (simp add: aggregate_def view1_def oracle_config_of_def oracle0_def RAY_def Oracle.BPS_def pv_fresh_def is_stale_def conf_ratio_bps_def
        deviation_bps_def choose_view_def saturating_mul_def saturating_add_def i64_sat_def debt_price_def Let_def)
  have o: "mo_canonical_primary oracle0 = 0" "mo_lst_stake_pool oracle0 = 0" "mo_twap_window_secs oracle0 = 1800" "mo_twap_min_samples oracle0 = 3"
    "mo_twap_max_staleness_secs oracle0 = 300"
    "pa_switchboard_feed price_accounts1 = Some \<lparr> ac_key = 60, ac_owner = SWITCHBOARD_ON_DEMAND_PROGRAM_ID, ac_data = [] \<rparr>"
    by (simp_all add: oracle0_def price_accounts1_def)
  have c: "commit_price word256x 0 None \<lparr> or_collateral_price = 100 * RAY, or_debt_price = 100 * RAY,
      or_mode = ModeOk, or_fresh = True, or_plausible = True, or_liq_divergent = False \<rparr> m oracle0 =
     Inr (m\<lparr> m_mint_frozen := False, m_spot := 100 * RAY div 1000, m_debt_spot := 100 * RAY div 1000 \<rparr>, oracle0)"
    by (simp add: commit_price_def oracle0_def m_def market0_def FUSD_DECIMALS_def s) (simp add: RAY_def commit_fresh_spot_def)
  show ?thesis
    unfolding update_price_handler_def Let_def p using o by (simp add: price_legs_def b t a c clock1_def)
qed

lemma update_price1:
  "update_price_handler sdk1 word256x clock1 epochs0 price_accounts1 config0 ring1 market0 oracle0 =
     Inr (market0\<lparr> m_mint_frozen := False, m_spot := 100 * RAY div 1000, m_debt_spot := 100 * RAY div 1000 \<rparr>, oracle0)"
  using update_price_grace1 [where g = "m_liq_grace_until market0" and r = "m_mcr_bps market0"] by simp

theorem update_price_sound_witness:
  "\<exists>m' o1'. update_price_handler sdk1 word256x clock1 epochs0 price_accounts1 config0 ring1 market0 oracle0 = Inr (m', o1') \<and>
     only_prices market0 m' \<and> \<not> m_mint_frozen m' \<and> 0 < m_spot m' \<and>
     (\<exists>pyth sb. feeds_read sdk1 word256x clock1 epochs0 price_accounts1 config0 oracle0 pyth (Some sb) \<and>
        deviation_bps (pv_price pyth) (pv_price sb) \<le> 100)"
proof -
  let ?m = "market0\<lparr> m_mint_frozen := False, m_spot := 100 * RAY div 1000, m_debt_spot := 100 * RAY div 1000 \<rparr>"
  note u = update_price_sound [OF word256x_laws update_price1]
  have "\<exists>pyth sb. feeds_read sdk1 word256x clock1 epochs0 price_accounts1 config0 oracle0 pyth (Some sb) \<and>
      deviation_bps (pv_price pyth) (pv_price sb) \<le> mo_max_deviation_bps oracle0"
    using u by (auto simp: oracle0_def)
  then show ?thesis using update_price1 u by (simp add: oracle0_def RAY_def)
qed

subsection \<open>Binding the feeds\<close>

text \<open>What \<^verbatim>\<open>init_market_oracle\<close> requires of the sources of a market: a market priced through its own staking pool uses
  the SOL/USD feed, binds the pool and no exchange; every other market binds an exchange.\<close>

definition binding_ok :: "market_oracle \<Rightarrow> bool" where
  "binding_ok o1 \<longleftrightarrow> mo_pyth_feed_id o1 \<noteq> replicate 32 0 \<and> mo_switchboard_feed o1 \<noteq> default_key \<and>
     (mo_orca_pool o1 = default_key \<or> mo_raydium_pool o1 = default_key \<or> mo_orca_pool o1 \<noteq> mo_raydium_pool o1) \<and>
     (if mo_canonical_primary o1 \<noteq> 0
      then mo_pyth_feed_id o1 = PYTH_SOL_USD_FEED_ID \<and> mo_lst_stake_pool o1 \<noteq> default_key \<and>
        mo_orca_pool o1 = default_key \<and> mo_raydium_pool o1 = default_key
      else mo_orca_pool o1 \<noteq> default_key \<or> mo_raydium_pool o1 \<noteq> default_key)"

lemma sol_usd_feed: "PYTH_SOL_USD_FEED_ID \<noteq> replicate 32 0"
proof
  assume "PYTH_SOL_USD_FEED_ID = replicate 32 0"
  then have "hd PYTH_SOL_USD_FEED_ID = hd (replicate 32 0)" by simp
  then show False by (simp add: PYTH_SOL_USD_FEED_ID_def)
qed

lemma bindR_InrE:
  assumes "bindR r f = Inr y"
  obtains x where "r = Inr x" "f x = Inr y"
  using assms by (auto simp: bindR_Inr)

lemma init_market_oracle_Inr:
  assumes "init_market_oracle_handler T A args l cfg = Inr (l', o1, r)"
  shows   "io_pyth_feed_id args \<noteq> replicate 32 0 \<and> io_switchboard_feed args \<noteq> default_key \<and>
    (io_orca_pool args = default_key \<or> io_raydium_pool args = default_key \<or> io_orca_pool args \<noteq> io_raydium_pool args) \<and>
    MIN_TWAP_WINDOW_SECS \<le> io_twap_window_secs args \<and> io_twap_window_secs args \<le> MAX_TWAP_WINDOW_SECS \<and>
    r = ring_new TWAP_RING_CAPACITY \<and> mo_pyth_feed_id o1 = io_pyth_feed_id args \<and> mo_switchboard_feed o1 = io_switchboard_feed args \<and>
    mo_orca_pool o1 = io_orca_pool args \<and> mo_raydium_pool o1 = io_raydium_pool args \<and> mo_lst_stake_pool o1 = io_lst_stake_pool args \<and>
    mo_canonical_primary o1 = (if io_canonical_primary args then 1 else 0) \<and> mo_twap_window_secs o1 = io_twap_window_secs args \<and>
    (\<exists>u. (if io_canonical_primary args
      then bindR (require (io_pyth_feed_id args = PYTH_SOL_USD_FEED_ID) ParamOutOfBounds) (\<lambda>_.
           bindR (require (io_lst_stake_pool args \<noteq> default_key) ParamOutOfBounds) (\<lambda>_.
           bindR (require (io_orca_pool args = default_key \<and> io_raydium_pool args = default_key) ParamOutOfBounds) (\<lambda>_.
           require (io_liquidity_haircut_bps args > 0 \<and> io_liquidity_haircut_bps args \<le> MAX_LIQUIDITY_HAIRCUT_BPS) ParamOutOfBounds)))
      else bindR (require (io_orca_pool args \<noteq> default_key \<or> io_raydium_pool args \<noteq> default_key) ParamOutOfBounds) (\<lambda>_.
           require (io_liquidity_haircut_bps args = 0) ParamOutOfBounds)) = Inr u)"
  using assms unfolding init_market_oracle_handler_def
  by (elim bindR_InrE, simp only: ensure_Inr sum.inject prod.inject, elim conjE, hypsubst, intro conjI)
    (assumption | rule refl | rule exI, assumption | simp (no_asm))+

lemma init_market_oracle_binding:
  assumes "init_market_oracle_handler T A args l cfg = Inr (l', o1, r)"
  shows "binding_ok o1" "r = ring_new TWAP_RING_CAPACITY" "MIN_TWAP_WINDOW_SECS \<le> mo_twap_window_secs o1 \<and> mo_twap_window_secs o1 \<le> MAX_TWAP_WINDOW_SECS"
proof -
  note h = init_market_oracle_Inr [OF assms]
  show "r = ring_new TWAP_RING_CAPACITY" "MIN_TWAP_WINDOW_SECS \<le> mo_twap_window_secs o1 \<and> mo_twap_window_secs o1 \<le> MAX_TWAP_WINDOW_SECS"
    using h by simp_all
  show "binding_ok o1" using h unfolding binding_ok_def by (cases "io_canonical_primary args") (simp_all add: bindR_Inr ensure_Inr sol_usd_feed)
qed

text \<open>C5. Creating an oracle binds the sources a market of its kind needs. Rebinding keeps that rule on a market
  priced by an exchange, but on a market priced through its staking pool every accepted rebind breaks
  it, since it insists on an exchange. After a rebind the cached price counts as stale at once.\<close>

theorem rebind_binding:
  assumes "init_market_oracle_handler T A0 args0 l cfg0 = Inr (l', o1, r)" "rebind_feeds_handler clk A args cfg m o1 = Inr (m', o1')"
  shows "binding_ok o1 \<and> (binding_ok o1' \<longleftrightarrow> mo_canonical_primary o1 = 0) \<and>
    (MAX_PRICE_STALENESS_SLOTS < clock_slot clk \<longrightarrow> clock_slot clk - m_spot_updated_slot m' > MAX_PRICE_STALENESS_SLOTS)"
proof -
  have b: "binding_ok o1" by (rule init_market_oracle_binding [OF assms(1)])
  have r: "rb_pyth_feed_id args \<noteq> replicate 32 0" "rb_switchboard_feed args \<noteq> default_key"
    "rb_orca_pool args \<noteq> default_key \<or> rb_raydium_pool args \<noteq> default_key"
    "rb_orca_pool args = default_key \<or> rb_raydium_pool args = default_key \<or> rb_orca_pool args \<noteq> rb_raydium_pool args"
    "m' = m\<lparr> m_spot_updated_slot := clock_slot clk - (MAX_PRICE_STALENESS_SLOTS + 1) \<rparr>"
    "o1' = o1\<lparr> mo_pyth_feed_id := rb_pyth_feed_id args, mo_switchboard_feed := rb_switchboard_feed args,
              mo_orca_pool := rb_orca_pool args, mo_raydium_pool := rb_raydium_pool args \<rparr>"
    using assms(2) unfolding rebind_feeds_handler_def bindR_Inr ensure_Inr by simp_all
  show ?thesis using b r(1-4) unfolding binding_ok_def r(5,6) by (cases "mo_canonical_primary o1 = 0") auto
qed

definition init_oracle_args0 :: init_oracle_args where
  "init_oracle_args0 = \<lparr> io_pyth_feed_id = PYTH_SOL_USD_FEED_ID, io_switchboard_feed = 60, io_orca_pool = 0, io_raydium_pool = 0,
     io_max_conf_bps = 200, io_max_deviation_bps = 100, io_twap_max_divergence_bps = 500, io_max_age_secs = 60, io_k_bps = 21200,
     io_twap_window_secs = 1800, io_twap_min_samples = 3, io_twap_max_staleness_secs = 300, io_price_band_lower_ray = 0,
     io_price_band_upper_ray = 0, io_liq_max_divergence_bps = 0, io_lst_stake_pool = 63, io_canonical_primary = True,
     io_liquidity_haircut_bps = 100 \<rparr>"

definition oracle_accounts0 :: oracle_accounts where
  "oracle_accounts0 = \<lparr> oa_signer = 40, oa_collateral_mint = 1, oa_quote_mint = 62, oa_market_oracle = 64, oa_dex_twap = 65 \<rparr>"

definition rebind_args0 :: rebind_args where
  "rebind_args0 = \<lparr> rb_pyth_feed_id = replicate 32 1, rb_switchboard_feed = 60, rb_orca_pool = 61, rb_raydium_pool = 0 \<rparr>"

lemma init_oracle0:
  "\<exists>o1 r. init_market_oracle_handler ledger_runtime oracle_accounts0 init_oracle_args0 (ledger0 0) config0 = Inr (ledger0 0, o1, r) \<and> mo_canonical_primary o1 = 1"
  by (simp add: init_market_oracle_handler_def oracle_accounts0_def init_oracle_args0_def config0_def ledger_runtime_def ensure_def param_clamps
      MAX_LIQUIDITY_HAIRCUT_BPS_def MIN_TWAP_WINDOW_SECS_def MAX_TWAP_WINDOW_SECS_def MIN_TWAP_MIN_SAMPLES_def
      TWAP_RING_CAPACITY_def sol_usd_feed)

theorem rebind_binding_witness:
  "\<exists>o1 m' o1' r. init_market_oracle_handler ledger_runtime oracle_accounts0 init_oracle_args0 (ledger0 0) config0 = Inr (ledger0 0, o1, r) \<and>
     rebind_feeds_handler clock0 admin_accounts0 rebind_args0 config0 market0 o1 = Inr (m', o1') \<and> binding_ok o1 \<and> \<not> binding_ok o1'"
proof -
  obtain o1 r where i: "init_market_oracle_handler ledger_runtime oracle_accounts0 init_oracle_args0 (ledger0 0) config0 = Inr (ledger0 0, o1, r)"
    "mo_canonical_primary o1 = 1" using init_oracle0 by blast
  obtain m' o1' where b: "rebind_feeds_handler clock0 admin_accounts0 rebind_args0 config0 market0 o1 = Inr (m', o1')"
    by (simp add: rebind_feeds_handler_def admin_accounts0_def config0_def rebind_args0_def ensure_def)
  show ?thesis using i b rebind_binding [OF i(1) b] by auto
qed

subsection \<open>The sampler cannot be starved\<close>

text \<open>Any sequence of calls of the sampler; a rejected call leaves the ring as it was.\<close>

fun sampled :: "'u u256x \<Rightarrow> market_oracle \<Rightarrow> (clock \<times> raw_account) list \<Rightarrow> observation_ring \<Rightarrow> observation_ring \<times> nat" where
  "sampled U o1 [] r = (r, 0)"
| "sampled U o1 ((clk, pool) # calls) r =
     (case sample_twap_handler U clk o1 pool r of
        Inl _ \<Rightarrow> sampled U o1 calls r
      | Inr r' \<Rightarrow> (case sampled U o1 calls r' of (r'', n) \<Rightarrow> (r'', n + 1)))"

definition spacing :: "market_oracle \<Rightarrow> int" where
  "spacing o1 = (mo_twap_window_secs o1 + 62) div 63"

definition spaced :: "market_oracle \<Rightarrow> observation_ring \<Rightarrow> bool" where
  "spaced o1 r \<longleftrightarrow> ring_ok TWAP_RING_CAPACITY r \<and>
     successively (\<lambda>a b. ob_ts a + spacing o1 \<le> ob_ts b) (observations TWAP_RING_CAPACITY r)"

lemma sample_min_interval_eq:
  assumes "0 < window" "window \<le> MAX_TWAP_WINDOW_SECS"
  shows "sample_min_interval window = Inr ((window + 62) div 63)"
  using assms by (simp add: sample_min_interval_def TWAP_RING_CAPACITY_def i64_or_panic_def i64_div_def MAX_TWAP_WINDOW_SECS_def)

lemma successively_span:
  "successively (\<lambda>a b. ob_ts a + d \<le> ob_ts b) os \<Longrightarrow> os \<noteq> [] \<Longrightarrow> ob_ts (hd os) + int (length os - 1) * d \<le> ob_ts (last os)"
proof (induction os rule: induct_list012)
  case (3 x y zs)
  then have "ob_ts y + int (length zs) * d \<le> ob_ts (last (y # zs))" "ob_ts x + d \<le> ob_ts y" by simp_all
  then show ?case by (simp add: algebra_simps)
qed simp_all

lemma spaced_sample:
  assumes "spaced o1 r" "0 < mo_twap_window_secs o1" "mo_twap_window_secs o1 \<le> MAX_TWAP_WINDOW_SECS" "sample_twap_handler U clk o1 pool r = Inr r'"
  shows "spaced o1 r'" "rg_count r' = min TWAP_RING_CAPACITY (rg_count r + 1)"
proof -
  let ?os = "observations TWAP_RING_CAPACITY r"
  have ok: "ring_ok TWAP_RING_CAPACITY r" using assms(1) by (simp add: spaced_def)
  obtain p where p: "ring_push TWAP_RING_CAPACITY r p (unix_timestamp clk) = Some r'"
    and gap: "?os = [] \<or> ob_ts (last ?os) + spacing o1 \<le> unix_timestamp clk"
    using assms(4) unfolding sample_twap_handler_def ring_last_observation [OF ok]
    by (cases "?os = []") (auto simp: Let_def bindR_Inr ok_or_Inr ensure_Inr sample_min_interval_eq [OF assms(2,3)] i64_or_panic_def spacing_def split: if_split_asm)
  note n = ring_push_observations [OF ok p]
  define ps where "ps = (if rg_count r < TWAP_RING_CAPACITY then ?os else tl ?os)"
  have last: "ob_ts (last ps) + spacing o1 \<le> unix_timestamp clk" if "ps \<noteq> []"
  proof -
    have "last ps = last ?os" "?os \<noteq> []" using that by (auto simp: ps_def last_tl split: if_split_asm)
    then show ?thesis using gap by simp
  qed
  have "successively (\<lambda>a b. ob_ts a + spacing o1 \<le> ob_ts b) ps"
    using assms(1) unfolding spaced_def ps_def by (cases ?os) (auto simp: successively_Cons)
  then have "successively (\<lambda>a b. ob_ts a + spacing o1 \<le> ob_ts b) (ps @ [\<lparr> ob_price = p, ob_ts = unix_timestamp clk \<rparr>])"
    using last by (auto simp: successively_append_iff)
  then show "spaced o1 r'" unfolding spaced_def n(2) ps_def [symmetric] using n(1) by simp
  show "rg_count r' = min TWAP_RING_CAPACITY (rg_count r + 1)" by (rule n(3))
qed

lemma sampled_spaced:
  assumes "sampled U o1 calls r = (r', n)" "spaced o1 r" "0 < mo_twap_window_secs o1" "mo_twap_window_secs o1 \<le> MAX_TWAP_WINDOW_SECS"
  shows "spaced o1 r' \<and> rg_count r' = min TWAP_RING_CAPACITY (rg_count r + n)"
  using assms(1,2)
proof (induction calls arbitrary: r n)
  case Nil
  then show ?case by (simp add: spaced_def ring_ok_def)
next
  case (Cons c calls)
  obtain clk pool where c: "c = (clk, pool)" by (cases c)
  show ?case
  proof (cases "sample_twap_handler U clk o1 pool r")
    case (Inl e)
    then show ?thesis using Cons by (simp add: c)
  next
    case (Inr r1)
    obtain n1 where n1: "sampled U o1 calls r1 = (r', n1)" "n = n1 + 1" using Cons.prems(1) by (auto simp: c Inr split: prod.splits)
    note s = spaced_sample [OF Cons.prems(2) assms(3,4) Inr]
    show ?thesis using Cons.IH [OF n1(1) s(1)] s(2) n1(2) by auto
  qed
qed

text \<open>C2. However the sampler is called, by anyone and at any times, once it has accepted as many samples as the ring holds
  the average over the configured window is available whenever the newest sample is fresh: samples
  are accepted only so far apart that a full ring spans the whole window.\<close>

theorem twap_never_starved:
  assumes "sampled U o1 calls (ring_new TWAP_RING_CAPACITY) = (r, n)" "TWAP_RING_CAPACITY \<le> n"
    and "0 < mo_twap_window_secs o1" "mo_twap_window_secs o1 \<le> MAX_TWAP_WINDOW_SECS" "mo_twap_min_samples o1 \<le> TWAP_RING_CAPACITY"
    and "\<forall>ob \<in> set (observations TWAP_RING_CAPACITY r). ob_price ob < 2 ^ 111"
    and "ring_last TWAP_RING_CAPACITY r = Some newest" "ob_ts newest \<le> now" "now \<le> ob_ts newest + mo_twap_max_staleness_secs o1"
    and "0 \<le> ob_ts newest" "now < 2 ^ 63"
  shows "\<exists>v. ring_twap TWAP_RING_CAPACITY r now (mo_twap_window_secs o1)
    \<lparr> tc_min_samples = mo_twap_min_samples o1, tc_max_staleness = mo_twap_max_staleness_secs o1 \<rparr> = (Inr (Some v) :: nat option res)"
proof (rule ring_twap_total)
  let ?os = "observations TWAP_RING_CAPACITY r"
  have s: "spaced o1 r" "rg_count r = TWAP_RING_CAPACITY"
    using sampled_spaced [OF assms(1) _ assms(3,4)] assms(2) ring_new_ok [of TWAP_RING_CAPACITY]
    by (simp_all add: spaced_def TWAP_RING_CAPACITY_def ring_new_def)
  then show ok: "ring_ok TWAP_RING_CAPACITY r" by (simp add: spaced_def)
  have len: "length ?os = 64" using s(2) by (simp add: observations_def TWAP_RING_CAPACITY_def)
  then show ne: "?os \<noteq> []" by auto
  have newest: "last ?os = newest" using ring_last_observation [OF ok] assms(7) ne by simp
  have span: "63 * spacing o1 \<ge> mo_twap_window_secs o1" by (simp add: spacing_def)
  have "ob_ts (hd ?os) + 63 * spacing o1 \<le> ob_ts (last ?os)"
    using successively_span [of "spacing o1" ?os] s(1) ne len by (simp add: spaced_def)
  then show "ob_ts (hd ?os) \<le> now - mo_twap_window_secs o1" using span assms(8) newest by simp
  show "0 < mo_twap_window_secs o1" "ob_ts (last ?os) \<le> now" "now - ob_ts (last ?os) < 2 ^ 63" "- (2 ^ 63) \<le> now - mo_twap_window_secs o1"
    using assms(3,4,8,10,11) by (simp_all add: newest MAX_TWAP_WINDOW_SECS_def)
  show "tc_min_samples \<lparr> tc_min_samples = mo_twap_min_samples o1, tc_max_staleness = mo_twap_max_staleness_secs o1 \<rparr> \<le> length ?os"
    using assms(5) len by (simp add: TWAP_RING_CAPACITY_def)
  show "now \<le> ob_ts (last ?os) + tc_max_staleness \<lparr> tc_min_samples = mo_twap_min_samples o1, tc_max_staleness = mo_twap_max_staleness_secs o1 \<rparr>"
    using assms(9) by (simp add: newest)
  have "price_at ?os t \<le> 2 ^ 111" for t using price_at_member [OF ne, of t] assms(6) by auto
  then have "(\<Sum>t \<in> {now - mo_twap_window_secs o1..<now}. price_at ?os t) \<le> nat (mo_twap_window_secs o1) * 2 ^ 111"
    using sum_bounded_above [of "{now - mo_twap_window_secs o1..<now}" "price_at ?os" "2 ^ 111"] by simp
  also have "\<dots> < 2 ^ 128" using assms(4) by (simp add: MAX_TWAP_WINDOW_SECS_def)
  finally show "(\<Sum>t \<in> {now - mo_twap_window_secs o1..<now}. price_at ?os t) < 2 ^ 128" .
qed


text \<open>A pool that quotes the two tokens at par, sampled every minute.\<close>

definition whirlpool0 :: raw_account where
  "whirlpool0 = \<lparr> ac_key = 61, ac_owner = ORCA_WHIRLPOOL_PROGRAM_ID,
     ac_data = WHIRLPOOL_DISCRIMINATOR @ replicate 65 0 @ [1] @ replicate 58 0 @ [1] @ replicate 79 0 @ [62] \<rparr>"

definition minutes :: "nat \<Rightarrow> (clock \<times> raw_account) list" where
  "minutes n = map (\<lambda>i. (\<lparr> unix_timestamp = 60 * int i, clock_slot = 0 \<rparr>, whirlpool0)) [0..<n]"

lemma from_le_bytes_append: "from_le_bytes (xs @ ys) = from_le_bytes xs + 256 ^ length xs * from_le_bytes ys"
  by (induction xs) (simp_all add: algebra_simps)

lemma from_le_bytes_zeros: "from_le_bytes (replicate n 0) = 0"
  by (induction n) simp_all

lemma whirlpool0_price: "sample_price word256x oracle0 whirlpool0 = Inr (10 ^ 30)"
proof -
  have d: "length (ac_data whirlpool0) = 213" "take 8 (ac_data whirlpool0) = WHIRLPOOL_DISCRIMINATOR"
    "take 16 (drop 65 (ac_data whirlpool0)) = replicate 8 0 @ [1] @ replicate 7 0"
    "take 32 (drop 101 (ac_data whirlpool0)) = replicate 31 0 @ [1]" "take 32 (drop 181 (ac_data whirlpool0)) = replicate 31 0 @ [62]"
    by (simp_all add: whirlpool0_def WHIRLPOOL_DISCRIMINATOR_def)
  have s: "clmm_parse Orca (ac_data whirlpool0) = Inr \<lparr> ps_sqrt_price = 2 ^ 64, ps_mint_a = 1, ps_mint_b = 62, ps_dec_a = None, ps_dec_b = None \<rparr>"
    by (simp add: clmm_parse_def d read_u128_le_def read_pubkey_def key_of_bytes_def from_le_bytes_append from_le_bytes_zeros
        SQRT_PRICE_MIN_def SQRT_PRICE_MAX_def)
  have q: "sqrt_price_q64_to_ray word256x (2 ^ 64) 9 6 = Some (10 ^ 30)"
    by (simp add: sqrt_price_q64_to_ray_def ten_pow_def word256x_def word256_def RAY_def u256.defs u256x.defs)
  show ?thesis using s q by (simp add: sample_price_def whirlpool0_def oracle0_def ensure_def)
qed


lemma sampled_snoc:
  "sampled U o1 (calls @ [(clk, pool)]) r =
     (case sampled U o1 calls r of (r1, n) \<Rightarrow> case sample_twap_handler U clk o1 pool r1 of Inl _ \<Rightarrow> (r1, n) | Inr r2 \<Rightarrow> (r2, n + 1))"
  by (induction calls arbitrary: r) (auto split: sum.splits prod.splits)

lemma minutes_sampled:
  "\<exists>r. sampled word256x oracle0 (minutes n) (ring_new TWAP_RING_CAPACITY) = (r, n) \<and> ring_ok TWAP_RING_CAPACITY r \<and>
     (n = 0 \<longleftrightarrow> observations TWAP_RING_CAPACITY r = []) \<and>
     (n \<noteq> 0 \<longrightarrow> ob_ts (last (observations TWAP_RING_CAPACITY r)) = 60 * (int n - 1)) \<and>
     (\<forall>ob \<in> set (observations TWAP_RING_CAPACITY r). ob_price ob = 10 ^ 30)" (is "\<exists>r. ?P n r") if "n < 100"
  using that
proof (induction n)
  case 0
  then show ?case using ring_new_ok [of TWAP_RING_CAPACITY] by (simp add: minutes_def TWAP_RING_CAPACITY_def)
next
  case (Suc n)
  then obtain r where r: "?P n r" by auto
  let ?os = "observations TWAP_RING_CAPACITY r" and ?clk = "\<lparr> unix_timestamp = 60 * int n, clock_slot = 0 \<rparr>"
  have ok: "ring_ok TWAP_RING_CAPACITY r" using r by blast
  have w: "mo_twap_window_secs oracle0 = 1800" by (simp add: oracle0_def)
  have "sample_min_interval 1800 = Inr 29" by (subst sample_min_interval_eq) (simp_all add: MAX_TWAP_WINDOW_SECS_def)
  moreover have "?os \<noteq> [] \<Longrightarrow> 60 * int n - ob_ts (last ?os) = 60 \<and> - (2 ^ 63) \<le> (60::int)" using r by auto
  moreover obtain r' where r': "ring_push TWAP_RING_CAPACITY r (10 ^ 30) (60 * int n) = Some r'"
    using r by (auto simp: ring_push_def ring_last_observation [OF ok])
  ultimately have "sample_twap_handler word256x ?clk oracle0 whirlpool0 r = Inr r'"
    unfolding sample_twap_handler_def whirlpool0_price ring_last_observation [OF ok]
    by (auto simp: w ensure_def i64_or_panic_def)
  then have s: "sampled word256x oracle0 (minutes (Suc n)) (ring_new TWAP_RING_CAPACITY) = (r', Suc n)"
    using r by (simp add: minutes_def sampled_snoc)
  note n = ring_push_observations [OF ok r']
  show ?case
    by (intro exI [of _ r'] conjI) (use s n r in \<open>auto dest: list.set_sel(2) [rotated]\<close>)
qed

theorem twap_never_starved_witness:
  "\<exists>r v. sampled word256x oracle0 (minutes 64) (ring_new TWAP_RING_CAPACITY) = (r, 64) \<and>
     ring_twap TWAP_RING_CAPACITY r 3800 1800 \<lparr> tc_min_samples = 3, tc_max_staleness = 300 \<rparr> = (Inr (Some v) :: nat option res)"
proof -
  obtain r where r: "sampled word256x oracle0 (minutes 64) (ring_new TWAP_RING_CAPACITY) = (r, 64)" "ring_ok TWAP_RING_CAPACITY r"
    "observations TWAP_RING_CAPACITY r \<noteq> []" "ob_ts (last (observations TWAP_RING_CAPACITY r)) = 3780"
    "\<forall>ob \<in> set (observations TWAP_RING_CAPACITY r). ob_price ob = 10 ^ 30"
    using minutes_sampled [of 64] by auto
  have o: "mo_twap_window_secs oracle0 = 1800" "mo_twap_min_samples oracle0 = 3" "mo_twap_max_staleness_secs oracle0 = 300"
    by (simp_all add: oracle0_def)
  have l: "ring_last TWAP_RING_CAPACITY r = Some (last (observations TWAP_RING_CAPACITY r))"
    using ring_last_observation [OF r(2)] r(3) by simp
  show ?thesis
    using twap_never_starved [OF r(1) _ _ _ _ _ l, of 3800] r(1,4,5) unfolding o
    by (simp add: TWAP_RING_CAPACITY_def MAX_TWAP_WINDOW_SECS_def)
qed

end
