(* ===== verification/Stake_Math.thy ===== *)
theory Stake_Math
  imports Fixed_Point
begin

text \<open>
  The arithmetic of the staking controller (\<^verbatim>\<open>crates/fusion-stake-math\<close>): reserve and churn limits, keeper
  rewards, counting of preferences, the life cycle of a validator, and the allocation of the
  productive lamports to directed targets and equal capacity rounds. All integers are 64 bits wide;
  the wider intermediate products of the code are exact.
\<close>

subsection \<open>Basis points, churn, reserve and rewards\<close>

definition STAKE_BPS_DENOMINATOR :: nat where "STAKE_BPS_DENOMINATOR = 10000"

definition bps_of :: "nat \<Rightarrow> nat \<Rightarrow> nat" where
  "bps_of amount bps = (let q = amount * bps div STAKE_BPS_DENOMINATOR in if q < 2 ^ 64 then q else 2 ^ 64 - 1)"

definition hysteresis :: "nat \<Rightarrow> nat \<Rightarrow> nat \<Rightarrow> nat" where
  "hysteresis total_lamports min_abs_lamports bps = max min_abs_lamports (bps_of total_lamports bps)"

definition exceeds_hysteresis :: "nat \<Rightarrow> nat \<Rightarrow> bool" where
  "exceeds_hysteresis deviation_abs threshold \<longleftrightarrow> deviation_abs > threshold"

definition global_churn_budget :: "nat \<Rightarrow> nat \<Rightarrow> nat" where
  "global_churn_budget total_lamports global_churn_cap_bps = bps_of total_lamports global_churn_cap_bps"

definition validator_move_cap :: "nat \<Rightarrow> nat \<Rightarrow> nat" where
  "validator_move_cap total_lamports validator_move_cap_bps = bps_of total_lamports validator_move_cap_bps"

definition action_amount :: "nat \<Rightarrow> nat \<Rightarrow> nat \<Rightarrow> nat \<Rightarrow> nat \<Rightarrow> bool \<Rightarrow> nat" where
  "action_amount deviation remaining_global_budget per_validator_move_cap source_capacity min_action deviation_is_full_drain =
     (let amount = min (min (min deviation remaining_global_budget) per_validator_move_cap) source_capacity in
      if amount < min_action \<and> \<not> deviation_is_full_drain then 0 else amount)"

definition stake_reserve_target :: "nat \<Rightarrow> nat \<Rightarrow> nat \<Rightarrow> nat" where
  "stake_reserve_target total_lamports reserve_min_lamports reserve_target_bps =
     min total_lamports (max reserve_min_lamports (bps_of total_lamports reserve_target_bps))"

definition productive_of :: "nat \<Rightarrow> nat \<Rightarrow> nat" where
  "productive_of total_lamports reserve = total_lamports - reserve"

definition payout :: "nat \<Rightarrow> nat \<Rightarrow> nat \<Rightarrow> nat" where
  "payout task_reward epoch_budget_remaining vault_balance = min (min task_reward epoch_budget_remaining) vault_balance"

subsection \<open>Counting a preference\<close>

record preference_view =
  pf_owner :: nat
  pf_observed_ink_nonce :: nat
  pf_eligible_from_epoch :: nat
  pf_last_counted_epoch :: nat

record position_view =
  pos_owner :: nat
  pos_collateral_mint :: nat
  pos_ink :: nat
  pos_ink_nonce :: nat

definition countable_pref :: "preference_view \<Rightarrow> position_view \<Rightarrow> nat \<Rightarrow> nat \<Rightarrow> bool" where
  "countable_pref pref pos fusol_mint current_epoch \<longleftrightarrow>
     pos_collateral_mint pos = fusol_mint \<and> pos_owner pos = pf_owner pref \<and>
     pos_ink_nonce pos = pf_observed_ink_nonce pref \<and> current_epoch \<ge> pf_eligible_from_epoch pref \<and>
     pf_last_counted_epoch pref \<noteq> current_epoch"

subsection \<open>The life cycle of a validator\<close>

definition LIVENESS_FAILURE_EPOCHS :: nat where "LIVENESS_FAILURE_EPOCHS = 2"
definition CANDIDATE_HEALTHY_EPOCHS :: nat where "CANDIDATE_HEALTHY_EPOCHS = 2"

datatype validator_status = Registered | Candidate | Active | Draining | Removable

fun status_as_u8 :: "validator_status \<Rightarrow> nat" where
  "status_as_u8 Registered = 0"
| "status_as_u8 Candidate = 1"
| "status_as_u8 Active = 2"
| "status_as_u8 Draining = 3"
| "status_as_u8 Removable = 4"

definition status_from_u8 :: "nat \<Rightarrow> validator_status option" where
  "status_from_u8 v =
     (if v = 0 then Some Registered else if v = 1 then Some Candidate else if v = 2 then Some Active
      else if v = 3 then Some Draining else if v = 4 then Some Removable else None)"

record lifecycle_input =
  li_commission_ok :: bool
  li_liveness_ok :: bool
  li_consecutive_failures :: nat
  li_consecutive_healthy :: nat
  li_has_pool_stake :: bool
  li_guard_active :: bool
  li_zero_stake_and_target :: bool
  li_removal_delay_elapsed :: bool

record lifecycle_outcome =
  lo_status :: validator_status
  lo_consecutive_failures :: nat
  lo_consecutive_healthy :: nat
  lo_increases_frozen :: bool

definition advance_lifecycle :: "validator_status \<Rightarrow> lifecycle_input \<Rightarrow> lifecycle_outcome" where
  "advance_lifecycle current i =
     (let consecutive_failures = (if li_liveness_ok i then 0 else saturating_add 8 (li_consecutive_failures i) 1);
          consecutive_healthy = (if li_liveness_ok i \<and> li_has_pool_stake i then saturating_add 8 (li_consecutive_healthy i) 1 else 0);
          status = (case current of
              Registered \<Rightarrow> Registered
            | Removable \<Rightarrow> Removable
            | Draining \<Rightarrow> if li_zero_stake_and_target i \<and> li_removal_delay_elapsed i then Removable else Draining
            | _ \<Rightarrow>
                if \<not> li_commission_ok i then Draining
                else if consecutive_failures \<ge> LIVENESS_FAILURE_EPOCHS \<and> \<not> li_guard_active i then Draining
                else if current = Candidate \<and> consecutive_healthy \<ge> CANDIDATE_HEALTHY_EPOCHS then Active
                else current)
      in \<lparr> lo_status = status, lo_consecutive_failures = consecutive_failures, lo_consecutive_healthy = consecutive_healthy,
           lo_increases_frozen = (\<not> li_liveness_ok i) \<rparr>)"

definition global_liveness_guard :: "nat \<Rightarrow> nat \<Rightarrow> bool" where
  "global_liveness_guard healthy_delegated_lamports total_delegated_lamports \<longleftrightarrow>
     healthy_delegated_lamports * 2 < total_delegated_lamports"

definition lifecycle_cap :: "validator_status \<Rightarrow> nat \<Rightarrow> nat \<Rightarrow> nat \<Rightarrow> nat" where
  "lifecycle_cap status total_pool_lamports candidate_cap_bps active_cap_bps =
     (case status of
        Candidate \<Rightarrow> bps_of total_pool_lamports candidate_cap_bps
      | Active \<Rightarrow> bps_of total_pool_lamports active_cap_bps
      | _ \<Rightarrow> 0)"

subsection \<open>Targets\<close>

definition MAX_VALIDATORS :: nat where "MAX_VALIDATORS = 1024"
definition MAX_NEUTRAL_ROUNDS :: nat where "MAX_NEUTRAL_ROUNDS = MAX_VALIDATORS"

definition directed_target :: "nat \<Rightarrow> nat \<Rightarrow> nat \<Rightarrow> nat \<Rightarrow> nat" where
  "directed_target productive directed_shares supply cap =
     (if supply = 0 then 0
      else let raw = productive * directed_shares div supply in min (if raw < 2 ^ 64 then raw else 2 ^ 64 - 1) cap)"

definition neutral_total :: "nat \<Rightarrow> nat \<Rightarrow> nat \<Rightarrow> nat \<Rightarrow> nat option" where
  "neutral_total productive sum_directed_targets total_directed_shares supply =
     (if total_directed_shares > supply then None else checked_sub productive sum_directed_targets)"

definition neutral_capacity :: "validator_status \<Rightarrow> nat \<Rightarrow> nat \<Rightarrow> nat" where
  "neutral_capacity status cap current_target = (case status of Active \<Rightarrow> cap - current_target | _ \<Rightarrow> 0)"

definition rotation_start :: "nat \<Rightarrow> nat \<Rightarrow> nat" where
  "rotation_start epoch n = (if n = 0 then 0 else epoch mod n)"

record neutral_round =
  nr_remaining :: nat
  nr_n_unsaturated :: nat
  nr_tranche :: nat
  nr_remainder :: nat
  nr_start :: nat
  nr_steps :: nat
  nr_remainder_used :: nat
  nr_granted :: nat
  nr_saturated :: nat

definition round_complete :: "neutral_round \<Rightarrow> bool" where
  "round_complete r \<longleftrightarrow> nr_steps r \<ge> nr_n_unsaturated r"

definition remaining_after :: "neutral_round \<Rightarrow> nat" where
  "remaining_after r = nr_remaining r - nr_granted r"

definition begin_round :: "nat \<Rightarrow> nat \<Rightarrow> nat \<Rightarrow> neutral_round option" where
  "begin_round remaining n_unsaturated epoch =
     (if remaining = 0 \<or> n_unsaturated = 0 then None
      else Some \<lparr> nr_remaining = remaining, nr_n_unsaturated = n_unsaturated, nr_tranche = remaining div n_unsaturated,
             nr_remainder = remaining mod n_unsaturated, nr_start = rotation_start epoch n_unsaturated, nr_steps = 0,
             nr_remainder_used = 0, nr_granted = 0, nr_saturated = 0 \<rparr>)"

definition round_step :: "neutral_round \<Rightarrow> nat \<Rightarrow> neutral_round \<times> nat" where
  "round_step r capacity =
     (if round_complete r then (r, 0)
      else
      (let n = nr_n_unsaturated r;
           rotated = (nr_steps r + n - nr_start r) mod n;
           in_window = (rotated < nr_remainder r);
           base = saturating_add 64 (nr_tranche r) (if in_window then 1 else 0);
           grant = min base capacity in
       (r\<lparr> nr_steps := saturating_add 64 (nr_steps r) 1,
           nr_remainder_used := (if in_window then saturating_add 64 (nr_remainder_used r) 1 else nr_remainder_used r),
           nr_granted := saturating_add 64 (nr_granted r) grant,
           nr_saturated := (if grant = capacity then saturating_add 64 (nr_saturated r) 1 else nr_saturated r) \<rparr>, grant)))"

record neutral_outcome =
  no_rounds :: nat
  no_shortfall :: nat

text \<open>The two parallel slices of the code are one list of pairs of remaining capacity and target.\<close>

fun round_pass :: "neutral_round \<Rightarrow> (nat \<times> nat) list \<Rightarrow> neutral_round \<times> (nat \<times> nat) list" where
  "round_pass r [] = (r, [])"
| "round_pass r ((capacity, target) # slots) =
     (if capacity = 0 then (case round_pass r slots of (r', slots') \<Rightarrow> (r', (capacity, target) # slots'))
      else case round_step r capacity of
        (r1, grant) \<Rightarrow>
          (case round_pass r1 slots of
             (r', slots') \<Rightarrow> (r', (capacity - grant, saturating_add 64 target grant) # slots')))"

definition unsaturated :: "(nat \<times> nat) list \<Rightarrow> nat" where
  "unsaturated slots = length (filter (\<lambda>(c, _). c > 0) slots)"

lemma unsaturated_simps [simp]: "unsaturated [] = 0" "unsaturated ((c, t) # s) = (if 0 < c then 1 else 0) + unsaturated s"
  by (simp_all add: unsaturated_def)

lemma unsaturated_append [simp]: "unsaturated (xs @ ys) = unsaturated xs + unsaturated ys"
  by (simp add: unsaturated_def)

text \<open>The lamports the validator of a given ordinal is entitled to in a round.\<close>

definition entitlement :: "neutral_round \<Rightarrow> nat \<Rightarrow> nat" where
  "entitlement r k = nr_tranche r + (if (k + nr_n_unsaturated r - nr_start r) mod nr_n_unsaturated r < nr_remainder r then 1 else 0)"

lemma rotation_bij:
  assumes "s < (n::nat)"
  shows "bij_betw (\<lambda>k. (k + n - s) mod n) {..<n} {..<n}"
proof -
  have inj: "inj_on (\<lambda>k. (k + n - s) mod n) {..<n}"
  proof (rule inj_onI)
    fix x y assume xy: "x \<in> {..<n}" "y \<in> {..<n}" "(x + n - s) mod n = (y + n - s) mod n"
    have e: "(k + n - s) mod n = (if s \<le> k then k - s else k + n - s)" if "k < n" for k
      using that assms by (auto simp: mod_if)
    show "x = y" using xy assms by (auto simp: e split: if_split_asm)
  qed
  have "(\<lambda>k. (k + n - s) mod n) ` {..<n} \<subseteq> {..<n}" using assms by auto
  then show ?thesis unfolding bij_betw_def using inj by (simp add: endo_inj_surj)
qed

lemma entitlement_sum:
  assumes "begin_round remaining n epoch = Some r"
  shows "(\<Sum>k<n. entitlement r k) = remaining"
proof -
  have n: "0 < n" using assms by (auto simp: begin_round_def split: if_split_asm)
  have r: "nr_tranche r = remaining div n" "nr_remainder r = remaining mod n" "nr_n_unsaturated r = n" "nr_start r = epoch mod n"
    using assms by (auto simp: begin_round_def rotation_start_def split: if_split_asm)
  let ?f = "\<lambda>k. (k + n - epoch mod n) mod n"
  have b: "bij_betw ?f {..<n} {..<n}" by (rule rotation_bij) (use n in simp)
  have "(\<Sum>k<n. if ?f k < remaining mod n then 1 else (0::nat)) = (\<Sum>j<n. if j < remaining mod n then 1 else 0)"
    using sum.reindex_bij_betw [OF b, of "\<lambda>j. if j < remaining mod n then 1 else (0::nat)"] by simp
  also have "\<dots> = card {j. j < n \<and> j < remaining mod n}" by (simp add: sum.If_cases Int_def)
  also have "{j. j < n \<and> j < remaining mod n} = {..<remaining mod n}" using mod_less_divisor [OF n, of remaining] by (auto elim: less_trans)
  finally have w: "(\<Sum>k<n. if ?f k < remaining mod n then 1 else (0::nat)) = remaining mod n" by simp
  have "(\<Sum>k<n. entitlement r k) = (\<Sum>k<n. remaining div n) + (\<Sum>k<n. if ?f k < remaining mod n then 1 else 0)"
    unfolding entitlement_def r by (rule sum.distrib)
  also have "\<dots> = remaining" unfolding w by simp
  finally show ?thesis .
qed


text \<open>What one round does to a validator: it gains its tranche, or one more, unless that fills it.\<close>

fun slot_granted :: "neutral_round \<Rightarrow> nat \<times> nat \<Rightarrow> nat \<times> nat \<Rightarrow> bool" where
  "slot_granted r (c, t) (c', t') \<longleftrightarrow> c' \<le> c \<and> t' + c' = t + c \<and> t' \<le> t + nr_tranche r + 1 \<and> (0 < c' \<longrightarrow> t + nr_tranche r \<le> t')"

fun entitled :: "neutral_round \<Rightarrow> nat \<Rightarrow> nat \<Rightarrow> nat" where
  "entitled r s 0 = 0"
| "entitled r s (Suc k) = entitlement r s + entitled r (Suc s) k"

lemma entitled_sum: "entitled r s k = (\<Sum>j = s..<s + k. entitlement r j)"
  by (induction k arbitrary: s) (simp_all add: sum.atLeast_Suc_lessThan del: sum.op_ivl_Suc)

lemma entitlement_frame [simp]:
  "entitlement (r\<lparr> nr_steps := a, nr_remainder_used := b, nr_granted := c, nr_saturated := d \<rparr>) = entitlement r"
  by (simp add: entitlement_def fun_eq_iff)

lemma slot_granted_frame [simp]:
  "slot_granted (r\<lparr> nr_steps := a, nr_remainder_used := b, nr_granted := c, nr_saturated := d \<rparr>) = slot_granted r"
  by (auto simp: fun_eq_iff)

lemma entitled_frame [simp]:
  "entitled (r\<lparr> nr_steps := a, nr_remainder_used := b, nr_granted := c, nr_saturated := d \<rparr>) s k = entitled r s k"
  by (induction k arbitrary: s) simp_all

lemma round_step_exact:
  assumes "nr_steps r < nr_n_unsaturated r" "nr_n_unsaturated r < 2 ^ 64" "nr_granted r + entitlement r (nr_steps r) < 2 ^ 64"
    and "nr_saturated r + 1 < 2 ^ 64"
  shows "\<exists>u. round_step r c = (r\<lparr> nr_steps := nr_steps r + 1, nr_remainder_used := u,
      nr_granted := nr_granted r + min (entitlement r (nr_steps r)) c,
      nr_saturated := nr_saturated r + (if min (entitlement r (nr_steps r)) c = c then 1 else 0) \<rparr>, min (entitlement r (nr_steps r)) c)"
proof -
  have "saturating_add 64 (nr_tranche r) (if (nr_steps r + nr_n_unsaturated r - nr_start r) mod nr_n_unsaturated r < nr_remainder r then 1 else 0) =
      entitlement r (nr_steps r)"
    using assms(3) by (auto simp: entitlement_def saturating_add_def)
  moreover have "saturating_add 64 (nr_granted r) (min (entitlement r (nr_steps r)) c) = nr_granted r + min (entitlement r (nr_steps r)) c"
    "saturating_add 64 (nr_steps r) 1 = nr_steps r + 1" "saturating_add 64 (nr_saturated r) 1 = nr_saturated r + 1"
    using assms by (auto simp: saturating_add_def)
  ultimately show ?thesis using assms(1) unfolding round_step_def round_complete_def Let_def
    by (intro exI [of _ "if (nr_steps r + nr_n_unsaturated r - nr_start r) mod nr_n_unsaturated r < nr_remainder r
        then saturating_add 64 (nr_remainder_used r) 1 else nr_remainder_used r"]) (cases r; simp)
qed

text \<open>One pass over the validators: the grants add up to at most the entitlements, and to less only when a
  validator was filled.\<close>

lemma round_pass_spec:
  assumes "round_pass r slots = (r', slots')" "nr_steps r + unsaturated slots \<le> nr_n_unsaturated r" "nr_n_unsaturated r < 2 ^ 64"
    and "nr_granted r + entitled r (nr_steps r) (unsaturated slots) < 2 ^ 64"
    and "nr_saturated r + unsaturated slots < 2 ^ 64" "\<forall>(c, t) \<in> set slots. c + t < 2 ^ 64"
  shows "\<exists>g u. r' = r\<lparr> nr_steps := nr_steps r + unsaturated slots, nr_remainder_used := u, nr_granted := nr_granted r + g,
      nr_saturated := nr_saturated r + (unsaturated slots - unsaturated slots') \<rparr> \<and>
    sum_list (map snd slots') = sum_list (map snd slots) + g \<and> unsaturated slots' \<le> unsaturated slots \<and>
    g \<le> entitled r (nr_steps r) (unsaturated slots) \<and>
    (g < entitled r (nr_steps r) (unsaturated slots) \<longrightarrow> unsaturated slots' < unsaturated slots) \<and>
    list_all2 (slot_granted r) slots slots'"
  using assms
proof (induction slots arbitrary: r slots')
  case Nil
  then show ?case by (auto intro!: exI [of _ "nr_remainder_used r"])
next
  case (Cons slot slots)
  obtain c t where slot: "slot = (c, t)" by (cases slot)
  show ?case
  proof (cases "c = 0")
    case True
    obtain s2 where s2: "round_pass r slots = (r', s2)" "slots' = (c, t) # s2" using Cons.prems(1) by (auto simp: slot True split: prod.splits)
    from Cons.IH [OF s2(1)] Cons.prems show ?thesis by (simp add: slot True s2(2))
  next
    case False
    let ?e = "entitlement r (nr_steps r)"
    define g1 where "g1 = min ?e c"
    have pre: "nr_steps r + Suc (unsaturated slots) \<le> nr_n_unsaturated r" "nr_n_unsaturated r < 2 ^ 64"
      "nr_granted r + (?e + entitled r (Suc (nr_steps r)) (unsaturated slots)) < 2 ^ 64"
      "nr_saturated r + Suc (unsaturated slots) < 2 ^ 64" "c + t < 2 ^ 64" "\<forall>(c, t) \<in> set slots. c + t < 2 ^ 64"
      using Cons.prems(2-6) False by (simp_all add: slot)
    obtain u1 where r1: "round_step r c = (r\<lparr> nr_steps := nr_steps r + 1, nr_remainder_used := u1, nr_granted := nr_granted r + g1,
         nr_saturated := nr_saturated r + (if g1 = c then 1 else 0) \<rparr>, g1)" (is "_ = (?r1, _)")
      using round_step_exact [of r c] pre unfolding g1_def by auto
    obtain s2 where s2: "round_pass ?r1 slots = (r', s2)" "slots' = (c - g1, saturating_add 64 t g1) # s2"
      using Cons.prems(1) False by (auto simp: slot r1 split: prod.splits)
    have t: "saturating_add 64 t g1 = t + g1" using pre(5) by (auto simp: saturating_add_def g1_def)
    have g1: "g1 \<le> ?e" "g1 \<le> c" "g1 < ?e \<Longrightarrow> g1 = c" by (simp_all add: g1_def)
    have g2: "g1 < c \<longrightarrow> nr_tranche r \<le> g1" "g1 \<le> nr_tranche r + 1" by (auto simp: g1_def entitlement_def)
    have pre1: "nr_steps ?r1 + unsaturated slots \<le> nr_n_unsaturated ?r1" "nr_n_unsaturated ?r1 < 2 ^ 64"
      "nr_granted ?r1 + entitled ?r1 (nr_steps ?r1) (unsaturated slots) < 2 ^ 64" "nr_saturated ?r1 + unsaturated slots < 2 ^ 64"
      using pre(1-4) g1(1) by (simp_all)
    have e1: "nr_steps ?r1 = nr_steps r + 1" "nr_granted ?r1 = nr_granted r + g1" "nr_saturated ?r1 = nr_saturated r + (if g1 = c then 1 else 0)"
      by simp_all
    obtain g u where ih: "r' = ?r1\<lparr> nr_steps := nr_steps r + 1 + unsaturated slots, nr_remainder_used := u, nr_granted := nr_granted r + g1 + g,
        nr_saturated := nr_saturated r + (if g1 = c then 1 else 0) + (unsaturated slots - unsaturated s2) \<rparr>"
      "sum_list (map snd s2) = sum_list (map snd slots) + g" "unsaturated s2 \<le> unsaturated slots"
      "g \<le> entitled r (nr_steps r + 1) (unsaturated slots)"
      "g < entitled r (nr_steps r + 1) (unsaturated slots) \<longrightarrow> unsaturated s2 < unsaturated slots"
      "list_all2 (slot_granted r) slots s2"
      using Cons.IH [OF s2(1) pre1 pre(6), unfolded e1 entitled_frame slot_granted_frame] by (elim exE conjE) (rule that)
    have us: "unsaturated (slot # slots) = Suc (unsaturated slots)" "unsaturated slots' = (if g1 = c then 0 else 1) + unsaturated s2"
      using False g1(2) by (auto simp: slot s2(2))
    show ?thesis
    proof (intro exI conjI)
      show "r' = r\<lparr> nr_steps := nr_steps r + unsaturated (slot # slots), nr_remainder_used := u, nr_granted := nr_granted r + (g1 + g),
          nr_saturated := nr_saturated r + (unsaturated (slot # slots) - unsaturated slots') \<rparr>"
        unfolding ih(1) us using ih(3) by simp
      show "sum_list (map snd slots') = sum_list (map snd (slot # slots)) + (g1 + g)" using ih(2) by (simp add: slot s2(2) t)
      show "unsaturated slots' \<le> unsaturated (slot # slots)" unfolding us using ih(3) by simp
      show "g1 + g \<le> entitled r (nr_steps r) (unsaturated (slot # slots))" unfolding us using ih(4) g1(1) by simp
      show "g1 + g < entitled r (nr_steps r) (unsaturated (slot # slots)) \<longrightarrow> unsaturated slots' < unsaturated (slot # slots)"
        unfolding us using ih(3,4,5) g1 by (cases "g1 = c") auto
      show "list_all2 (slot_granted r) (slot # slots) slots'"
        using ih(6) g1(2) g2 by (simp add: slot s2(2) t)
    qed
  qed
qed


partial_function (option) neutral_loop :: "nat \<Rightarrow> nat \<Rightarrow> nat \<Rightarrow> (nat \<times> nat) list \<Rightarrow> (neutral_outcome \<times> (nat \<times> nat) list) option" where
  "neutral_loop epoch remaining rounds slots =
     (case begin_round remaining (unsaturated slots) epoch of
        None \<Rightarrow> Some (\<lparr> no_rounds = rounds, no_shortfall = remaining \<rparr>, slots)
      | Some r \<Rightarrow>
          (case round_pass r slots of
             (r', slots') \<Rightarrow> neutral_loop epoch (remaining_after r') (saturating_add 64 rounds 1) slots'))"

text \<open>The assertion on the lengths of the slices is a panic; \<open>None\<close> would be a loop without end.\<close>

definition distribute_neutral :: "nat \<Rightarrow> nat \<Rightarrow> nat list \<Rightarrow> nat list \<Rightarrow> ('e failure + neutral_outcome \<times> nat list \<times> nat list) option" where
  "distribute_neutral neutral epoch remaining_capacity targets =
     (if length remaining_capacity \<noteq> length targets then Some (Inl Panic)
      else (case neutral_loop epoch neutral 0 (zip remaining_capacity targets) of
              None \<Rightarrow> None
            | Some (outcome, slots) \<Rightarrow> Some (Inr (outcome, map fst slots, map snd slots))))"

text \<open>A whole distribution: grants stay within capacity, and a validator that could take more has received at
  least as much as any other, up to one lamport per round.\<close>

fun slot_served :: "nat \<Rightarrow> nat \<Rightarrow> nat \<times> nat \<Rightarrow> nat \<times> nat \<Rightarrow> bool" where
  "slot_served lo hi (c, t) (c', t') \<longleftrightarrow> c' \<le> c \<and> t' + c' = t + c \<and> t' \<le> t + hi \<and> (0 < c' \<longrightarrow> t + lo \<le> t')"

lemma round_effect:
  assumes "begin_round remaining (unsaturated slots) epoch = Some r" "round_pass r slots = (r', slots')" "remaining < 2 ^ 64"
    and "length slots < 2 ^ 64" "\<forall>(c, t) \<in> set slots. c + t < 2 ^ 64"
  shows "sum_list (map snd slots') + remaining_after r' = sum_list (map snd slots) + remaining" "remaining_after r' \<le> remaining"
    "remaining_after r' = 0 \<or> unsaturated slots' < unsaturated slots" "unsaturated slots' \<le> unsaturated slots"
    "list_all2 (slot_granted r) slots slots'" "0 < unsaturated slots" "round_complete r'"
    "nr_n_unsaturated r' = unsaturated slots" "nr_saturated r' = unsaturated slots - unsaturated slots'"
proof -
  have r: "nr_steps r = 0" "nr_granted r = 0" "nr_saturated r = 0" "nr_n_unsaturated r = unsaturated slots" "nr_remaining r = remaining"
    and pos: "0 < unsaturated slots"
    using assms(1) by (auto simp: begin_round_def split: if_split_asm)
  have e: "entitled r 0 (unsaturated slots) = remaining"
    using entitlement_sum [OF assms(1)] by (simp add: entitled_sum atLeast0LessThan)
  have u: "unsaturated slots < 2 ^ 64" using assms(4) unfolding unsaturated_def by (rule le_less_trans [OF length_filter_le])
  obtain g v where s: "r' = r\<lparr> nr_steps := unsaturated slots, nr_remainder_used := v, nr_granted := g,
      nr_saturated := unsaturated slots - unsaturated slots' \<rparr>"
    "sum_list (map snd slots') = sum_list (map snd slots) + g" "unsaturated slots' \<le> unsaturated slots" "g \<le> remaining"
    "g < remaining \<longrightarrow> unsaturated slots' < unsaturated slots" "list_all2 (slot_granted r) slots slots'"
    using round_pass_spec [OF assms(2)] r u e assms(3,5) by auto
  show "sum_list (map snd slots') + remaining_after r' = sum_list (map snd slots) + remaining" "remaining_after r' \<le> remaining"
    "remaining_after r' = 0 \<or> unsaturated slots' < unsaturated slots" "unsaturated slots' \<le> unsaturated slots"
    "list_all2 (slot_granted r) slots slots'" "0 < unsaturated slots" "round_complete r'"
    "nr_n_unsaturated r' = unsaturated slots" "nr_saturated r' = unsaturated slots - unsaturated slots'"
    using s pos r by (auto simp: remaining_after_def round_complete_def)
qed

lemma slot_bounds:
  assumes "list_all2 (slot_granted r) slots slots'" "\<forall>(c, t) \<in> set slots. c + t < 2 ^ 64"
  shows "\<forall>(c, t) \<in> set slots'. c + t < 2 ^ 64" "length slots' = length slots"
  using assms by (induction rule: list_all2_induct) auto

lemma slot_served_refl: "slot_served 0 0 s s"
  by (cases s) simp

lemma neutral_loop_total:
  assumes "remaining < 2 ^ 64" "length slots < 2 ^ 64" "\<forall>(c, t) \<in> set slots. c + t < 2 ^ 64" "rounds + unsaturated slots < 2 ^ 64"
  shows "\<exists>outcome slots' lo k. neutral_loop epoch remaining rounds slots = Some (outcome, slots') \<and>
    sum_list (map snd slots') + no_shortfall outcome = sum_list (map snd slots) + remaining \<and>
    (0 < no_shortfall outcome \<longrightarrow> unsaturated slots' = 0) \<and> no_rounds outcome = rounds + k \<and> k \<le> unsaturated slots \<and>
    list_all2 (slot_served lo (lo + k)) slots slots'"
  using assms
proof (induction "unsaturated slots" arbitrary: slots remaining rounds rule: less_induct)
  case less
  show ?case
  proof (cases "begin_round remaining (unsaturated slots) epoch")
    case None
    then have "remaining = 0 \<or> unsaturated slots = 0" by (simp add: begin_round_def split: if_split_asm)
    moreover have "list_all2 (slot_served 0 0) slots slots" by (simp add: slot_served_refl list_all2_refl)
    ultimately show ?thesis by (subst neutral_loop.simps) (auto simp: None intro!: exI [of _ 0])
  next
    case (Some r)
    obtain r' slots1 where p: "round_pass r slots = (r', slots1)" by fastforce
    note e = round_effect [OF Some p less.prems(1-3)]
    note b = slot_bounds [OF e(5) less.prems(3)]
    have s: "saturating_add 64 rounds 1 = rounds + 1" using less.prems(4) e(6) by (simp add: saturating_add_def)
    have loop: "neutral_loop epoch remaining rounds slots = neutral_loop epoch (remaining_after r') (rounds + 1) slots1"
      by (subst neutral_loop.simps) (simp add: Some p s [simplified])
    have "\<exists>outcome slots' lo k. neutral_loop epoch (remaining_after r') (rounds + 1) slots1 = Some (outcome, slots') \<and>
      sum_list (map snd slots') + no_shortfall outcome = sum_list (map snd slots1) + remaining_after r' \<and>
      (0 < no_shortfall outcome \<longrightarrow> unsaturated slots' = 0) \<and> no_rounds outcome = rounds + 1 + k \<and> k + 1 \<le> unsaturated slots \<and>
      list_all2 (slot_served lo (lo + k)) slots1 slots'"
    proof (cases "remaining_after r' = 0")
      case True
      have "list_all2 (slot_served 0 0) slots1 slots1" by (simp add: slot_served_refl list_all2_refl)
      then show ?thesis using e(6) by (subst neutral_loop.simps) (auto simp: True begin_round_def intro!: exI [of _ 0])
    next
      case False
      then have lt: "unsaturated slots1 < unsaturated slots" using e(3) by simp
      show ?thesis using less.hyps [OF lt, of "remaining_after r'" "rounds + 1"] e(2) less.prems lt b by fastforce
    qed
    then obtain outcome :: neutral_outcome and slots' lo k where ih: "neutral_loop epoch (remaining_after r') (rounds + 1) slots1 = Some (outcome, slots')"
      "sum_list (map snd slots') + no_shortfall outcome = sum_list (map snd slots1) + remaining_after r'"
      "0 < no_shortfall outcome \<longrightarrow> unsaturated slots' = 0" "no_rounds outcome = rounds + 1 + k" "k + 1 \<le> unsaturated slots"
      "list_all2 (slot_served lo (lo + k)) slots1 slots'"
      by (elim exE conjE) (rule that)
    have "list_all2 (slot_served (nr_tranche r + lo) (nr_tranche r + lo + (k + 1))) slots slots'"
      by (rule list_all2_trans [OF _ e(5) ih(6)]) (auto simp: split_paired_all)
    then show ?thesis
      unfolding loop using ih(1-5) e(1) by (intro exI [of _ outcome] exI [of _ slots'] exI [of _ "nr_tranche r + lo"] exI [of _ "k + 1"]) simp
  qed
qed


text \<open>C37. Distributing the neutral lamports always ends, in at most as many rounds as there are validators with
  capacity. Every lamport is either granted or reported as shortfall; no validator is granted more
  than its capacity; a shortfall remains only when all capacity is used; and the split is equal: a
  validator that could have taken more received no less than any other, up to one lamport per round.\<close>

theorem distribute_neutral_correct:
  assumes "length caps = length targets" "length caps < 2 ^ 64" "neutral < 2 ^ 64" "\<forall>i < length caps. caps ! i + targets ! i < 2 ^ 64"
  shows "\<exists>outcome caps' targets'. distribute_neutral neutral epoch caps targets = Some (Inr (outcome, caps', targets') :: 'e failure + _) \<and>
    length caps' = length caps \<and> length targets' = length caps \<and>
    sum_list targets' + no_shortfall outcome = sum_list targets + neutral \<and>
    (\<forall>i < length caps. targets ! i \<le> targets' ! i \<and> targets' ! i + caps' ! i = targets ! i + caps ! i) \<and>
    (0 < no_shortfall outcome \<longrightarrow> (\<forall>i < length caps. caps' ! i = 0)) \<and>
    no_rounds outcome \<le> length (filter (\<lambda>c. 0 < c) caps) \<and>
    (\<forall>i < length caps. \<forall>j < length caps. 0 < caps' ! j \<longrightarrow>
       targets' ! i - targets ! i \<le> targets' ! j - targets ! j + no_rounds outcome)"
proof -
  let ?s = "zip caps targets"
  have u: "unsaturated ?s = length (filter (\<lambda>c. 0 < c) caps)"
    using assms(1) by (induction caps targets rule: list_induct2) simp_all
  have "\<forall>(c, t) \<in> set ?s. c + t < 2 ^ 64" using assms(4) by (auto simp: set_zip)
  moreover have "0 + unsaturated ?s < 2 ^ 64" unfolding u using assms(2) by (simp add: le_less_trans [OF length_filter_le])
  ultimately obtain outcome :: neutral_outcome and slots' lo k where l: "neutral_loop epoch neutral 0 ?s = Some (outcome, slots')"
    "sum_list (map snd slots') + no_shortfall outcome = sum_list targets + neutral" "0 < no_shortfall outcome \<longrightarrow> unsaturated slots' = 0"
    "no_rounds outcome = k" "k \<le> unsaturated ?s" "list_all2 (slot_served lo (lo + k)) ?s slots'"
    using neutral_loop_total [of neutral ?s 0 epoch] assms(1-3) by auto
  have len: "length slots' = length caps" using list_all2_lengthD [OF l(6)] assms(1) by simp
  have served: "snd (slots' ! i) + fst (slots' ! i) = targets ! i + caps ! i \<and> targets ! i \<le> snd (slots' ! i) \<and>
      snd (slots' ! i) \<le> targets ! i + (lo + k) \<and> (0 < fst (slots' ! i) \<longrightarrow> targets ! i + lo \<le> snd (slots' ! i))" if "i < length caps" for i
    using list_all2_nthD [OF l(6), of i] that assms(1) by (cases "slots' ! i") auto
  have empty: "\<forall>i < length caps. map fst slots' ! i = 0" if "0 < no_shortfall outcome"
  proof (intro allI impI)
    fix i assume "i < length caps"
    then have "slots' ! i \<in> set slots'" using len by simp
    then have "\<not> 0 < fst (slots' ! i)" using l(3) that by (auto simp: unsaturated_def filter_empty_conv)
    then show "map fst slots' ! i = 0" using len \<open>i < length caps\<close> by simp
  qed
  have fair: "snd (slots' ! i) - targets ! i \<le> snd (slots' ! j) - targets ! j + no_rounds outcome"
    if "i < length caps" "j < length caps" "0 < fst (slots' ! j)" for i j
    using served [OF that(1)] served [OF that(2)] that(3) l(4) by linarith
  show ?thesis
    by (rule exI [of _ outcome], rule exI [of _ "map fst slots'"], rule exI [of _ "map snd slots'"])
      (use assms(1) l(1,2,4,5) u len served empty fair in \<open>auto simp: distribute_neutral_def\<close>)
qed

theorem distribute_neutral_correct_witness:
  "\<exists>outcome caps' targets'. distribute_neutral 100 7 [10, 0, 60, 90] [5, 5, 0, 0] = Some (Inr (outcome, caps', targets') :: unit failure + _) \<and>
     sum_list targets' + no_shortfall outcome = 110"
proof -
  have p: "length [10, 0, 60, 90 :: nat] = length [5, 5, 0, 0 :: nat]" "length [10, 0, 60, 90 :: nat] < 2 ^ 64" "(100 :: nat) < 2 ^ 64"
    "\<forall>i < length [10, 0, 60, 90 :: nat]. [10, 0, 60, 90] ! i + [5, 5, 0, 0] ! i < (2 :: nat) ^ 64" by (simp_all add: All_less_Suc)
  obtain outcome :: neutral_outcome and caps' targets' where
    "distribute_neutral 100 7 [10, 0, 60, 90] [5, 5, 0, 0] = Some (Inr (outcome, caps', targets') :: unit failure + _)"
    "sum_list targets' + no_shortfall outcome = sum_list [5, 5, 0, 0] + 100"
    using distribute_neutral_correct [OF p, of 7, where 'e = unit] by (elim exE conjE) (rule that)
  then show ?thesis by auto
qed

subsection \<open>Directed targets\<close>

text \<open>C38. As long as the directed shares do not exceed the supply, the directed targets never add up to more than
  the productive lamports, so the plan is accepted and the neutral pool is exactly the rest.\<close>

theorem directed_targets_fit:
  assumes "sum_list shares \<le> supply" "productive < 2 ^ 64" "length caps = length shares"
  shows "sum_list (map2 (\<lambda>d cap. directed_target productive d supply cap) shares caps) \<le> productive \<and>
    neutral_total productive (sum_list (map2 (\<lambda>d cap. directed_target productive d supply cap) shares caps)) (sum_list shares) supply =
      Some (productive - sum_list (map2 (\<lambda>d cap. directed_target productive d supply cap) shares caps))"
proof -
  let ?T = "sum_list (map2 (\<lambda>d cap. directed_target productive d supply cap) shares caps)"
  have "?T * supply \<le> productive * sum_list shares"
    using assms(3)
  proof (induction shares caps rule: list_induct2')
    case (4 d ds c cs)
    have "directed_target productive d supply c * supply \<le> productive * d"
      by (auto simp: directed_target_def Let_def min_def intro: order.trans [OF mult_le_mono1 div_times_less_eq_dividend])
    then show ?case using 4 by (simp add: algebra_simps)
  qed auto
  then have le: "?T * supply \<le> productive * supply" using mult_le_mono2 [OF assms(1), of productive] by linarith
  have "?T \<le> productive"
  proof (cases "supply = 0")
    case True
    have "?T = 0" using assms(3) by (induction shares caps rule: list_induct2') (auto simp: directed_target_def True)
    then show ?thesis by (simp only: le0)
  next
    case False
    then show ?thesis using le by simp
  qed
  then show ?thesis using assms(1) by (simp add: neutral_total_def checked_sub_def)
qed


theorem directed_targets_fit_witness:
  "sum_list (map2 (\<lambda>d cap. directed_target 1000 d 90 cap) [30, 20] [400, 100]) \<le> 1000 \<and>
   neutral_total 1000 (sum_list (map2 (\<lambda>d cap. directed_target 1000 d 90 cap) [30, 20] [400, 100])) 50 90 = Some 567"
  using directed_targets_fit [of "[30, 20]" 90 1000 "[400, 100]"] by (simp add: directed_target_def)

subsection \<open>The life cycle over many epochs\<close>

text \<open>One epoch of a validator: the streaks are carried from epoch to epoch as the controller stores them.\<close>

definition live_epoch :: "validator_status \<times> nat \<times> nat \<Rightarrow> lifecycle_input \<Rightarrow> validator_status \<times> nat \<times> nat" where
  "live_epoch s i = (case s of (status, failures, healthy) \<Rightarrow>
     let out = advance_lifecycle status (i\<lparr> li_consecutive_failures := failures, li_consecutive_healthy := healthy \<rparr>) in
     (lo_status out, lo_consecutive_failures out, lo_consecutive_healthy out))"

definition live_run :: "validator_status \<times> nat \<times> nat \<Rightarrow> lifecycle_input list \<Rightarrow> validator_status \<times> nat \<times> nat" where
  "live_run s is = foldl live_epoch s is"

definition healthy_epoch :: "lifecycle_input \<Rightarrow> bool" where
  "healthy_epoch i \<longleftrightarrow> li_liveness_ok i \<and> li_has_pool_stake i"

text \<open>The length of the current streak of epochs with a property, counted from the end of the history.\<close>

fun streak :: "('a \<Rightarrow> bool) \<Rightarrow> 'a list \<Rightarrow> nat" where
  "streak P [] = 0"
| "streak P (x # xs) = (if P x then Suc (streak P xs) else 0)"

lemma live_run_snoc: "live_run s (is @ [i]) = live_epoch (live_run s is) i"
  by (simp add: live_run_def)

lemma streaks_exact:
  assumes "live_run (Candidate, 0, 0) is = (status, failures, healthy)"
  shows "failures = min 255 (streak (\<lambda>i. \<not> li_liveness_ok i) (rev is)) \<and> healthy = min 255 (streak healthy_epoch (rev is))"
  using assms
proof (induction "is" arbitrary: status failures healthy rule: rev_induct)
  case Nil
  then show ?case by (simp add: live_run_def)
next
  case (snoc i "is")
  obtain st f h where r: "live_run (Candidate, 0, 0) is = (st, f, h)" using prod_cases3 by blast
  from snoc.IH [OF r] snoc.prems show ?case
    unfolding live_run_snoc r live_epoch_def by (auto simp: advance_lifecycle_def healthy_epoch_def saturating_add_def Let_def)
qed

text \<open>C39. Over any history of a validator that starts on probation: it is promoted only right after two consecutive
  epochs in which it was alive and carried stake; it starts draining only on a commission breach or,
  while the guard is off, after two consecutive failed epochs; a commission breach always drains it,
  guard or not; and once draining it never returns.\<close>

theorem lifecycle_history:
  assumes "live_run (Candidate, 0, 0) is = (before, f, h)" "live_run (Candidate, 0, 0) (is @ [i]) = (after, f', h')"
  shows "(before \<noteq> Active \<and> after = Active \<longrightarrow>
      li_commission_ok i \<and> healthy_epoch i \<and> (\<exists>js j. is = js @ [j] \<and> healthy_epoch j)) \<and>
    (before \<in> {Candidate, Active} \<and> after = Draining \<longrightarrow>
      \<not> li_commission_ok i \<or> \<not> li_guard_active i \<and> \<not> li_liveness_ok i \<and> (\<exists>js j. is = js @ [j] \<and> \<not> li_liveness_ok j)) \<and>
    (before \<in> {Candidate, Active} \<and> \<not> li_commission_ok i \<longrightarrow> after = Draining) \<and>
    (before = Draining \<longrightarrow> after \<in> {Draining, Removable}) \<and> (before = Removable \<longrightarrow> after = Removable)"
proof -
  have s: "f = min 255 (streak (\<lambda>i. \<not> li_liveness_ok i) (rev is))" "h = min 255 (streak healthy_epoch (rev is))"
    using streaks_exact [OF assms(1)] by blast+
  have last: "\<exists>js j. is = js @ [j] \<and> P j" if "streak P (rev is) \<noteq> 0" for P
    using that by (cases "is" rule: rev_cases) (auto split: if_split_asm)
  have a: "live_epoch (before, f, h) i = (after, f', h')" using assms by (simp add: live_run_snoc)
  then have up: "before = Candidate \<and> li_commission_ok i \<and> healthy_epoch i \<and> h \<noteq> 0" if "before \<noteq> Active" "after = Active"
    using that by (auto simp: live_epoch_def advance_lifecycle_def Let_def healthy_epoch_def CANDIDATE_HEALTHY_EPOCHS_def saturating_add_def
        split: validator_status.splits if_split_asm)
  have down: "\<not> li_commission_ok i \<or> \<not> li_guard_active i \<and> \<not> li_liveness_ok i \<and> f \<noteq> 0" if "before \<in> {Candidate, Active}" "after = Draining"
    using a that by (auto simp: live_epoch_def advance_lifecycle_def Let_def LIVENESS_FAILURE_EPOCHS_def saturating_add_def
        split: validator_status.splits if_split_asm)
  have "before \<in> {Candidate, Active} \<and> \<not> li_commission_ok i \<longrightarrow> after = Draining" "before = Draining \<longrightarrow> after \<in> {Draining, Removable}"
    "before = Removable \<longrightarrow> after = Removable"
    using a by (auto simp: live_epoch_def advance_lifecycle_def Let_def split: validator_status.splits if_split_asm)
  then show ?thesis using up down last [of healthy_epoch] last [of "\<lambda>i. \<not> li_liveness_ok i"] s by auto
qed

definition healthy0 :: lifecycle_input where
  "healthy0 = \<lparr> li_commission_ok = True, li_liveness_ok = True, li_consecutive_failures = 0, li_consecutive_healthy = 0,
     li_has_pool_stake = True, li_guard_active = False, li_zero_stake_and_target = False, li_removal_delay_elapsed = False \<rparr>"

theorem lifecycle_history_witness:
  "live_run (Candidate, 0, 0) [healthy0] = (Candidate, 0, 1) \<and> live_run (Candidate, 0, 0) ([healthy0] @ [healthy0]) = (Active, 0, 2) \<and>
   healthy_epoch healthy0"
proof -
  have r: "live_run (Candidate, 0, 0) [healthy0] = (Candidate, 0, 1)" "live_run (Candidate, 0, 0) ([healthy0] @ [healthy0]) = (Active, 0, 2)"
    by (simp_all add: live_run_def live_epoch_def advance_lifecycle_def healthy0_def CANDIDATE_HEALTHY_EPOCHS_def saturating_add_def
        LIVENESS_FAILURE_EPOCHS_def)
  show ?thesis using r lifecycle_history [OF r] by simp
qed

end
