(* ===== verification/Stake_View.thy ===== *)
theory Stake_View
  imports Stake_Math Price
begin

text \<open>
  The byte parsers of \<^verbatim>\<open>crates/fusion-stake-view\<close>: stake pools, validator lists, vote and stake accounts and
  the positions of the core program, all read at fixed offsets with every access checked. Account
  data is a list of bytes; addresses are read as in the core program.
\<close>

subsection \<open>Checked reads\<close>

definition byte_slice :: "nat list \<Rightarrow> nat \<Rightarrow> nat \<Rightarrow> nat list option" where
  "byte_slice data off n = (if off + n \<le> length data then Some (take n (drop off data)) else None)"

definition u8_at :: "nat list \<Rightarrow> nat \<Rightarrow> nat option" where
  "u8_at data off = (if off < length data then Some (data ! off) else None)"

definition u32_le :: "nat list \<Rightarrow> nat \<Rightarrow> nat option" where
  "u32_le data off = map_option from_le_bytes (byte_slice data off 4)"

definition u64_le :: "nat list \<Rightarrow> nat \<Rightarrow> nat option" where
  "u64_le data off = map_option from_le_bytes (byte_slice data off 8)"

definition i64_le :: "nat list \<Rightarrow> nat \<Rightarrow> int option" where
  "i64_le data off = map_option (\<lambda>bs. let v = int (from_le_bytes bs) in if v < 2 ^ 63 then v else v - 2 ^ 64) (byte_slice data off 8)"

definition array32 :: "nat list \<Rightarrow> nat \<Rightarrow> pubkey option" where
  "array32 data off = map_option key_of_bytes (byte_slice data off 32)"

subsection \<open>Stake pools\<close>

datatype pool_view_error = PoolTooShort | NotPool

record lockup =
  lk_unix_timestamp :: int
  lk_epoch :: nat
  lk_custodian :: pubkey

record pool_fee =
  fee_denominator :: nat
  fee_numerator :: nat

record stake_pool_view =
  sv_manager :: pubkey
  sv_staker :: pubkey
  sv_stake_deposit_authority :: pubkey
  sv_stake_withdraw_bump_seed :: nat
  sv_validator_list :: pubkey
  sv_reserve_stake :: pubkey
  sv_pool_mint :: pubkey
  sv_manager_fee_account :: pubkey
  sv_token_program :: pubkey
  sv_total_lamports :: nat
  sv_pool_token_supply :: nat
  sv_last_update_epoch :: nat
  sv_lockup :: lockup
  sv_epoch_fee :: pool_fee

definition stake_pool_view_parse :: "nat list \<Rightarrow> pool_view_error + stake_pool_view" where
  "stake_pool_view_parse data =
     (if length data < 346 then Inl PoolTooShort
      else if data ! 0 \<noteq> 1 then Inl NotPool
      else
      (let read32 = (\<lambda>off. ok_or (array32 data off) PoolTooShort); read_u64 = (\<lambda>off. ok_or (u64_le data off) PoolTooShort) in
       bindR (read32 1) (\<lambda>manager. bindR (read32 33) (\<lambda>staker. bindR (read32 65) (\<lambda>deposit_authority.
       bindR (ok_or (u8_at data 97) PoolTooShort) (\<lambda>bump. bindR (read32 98) (\<lambda>validator_list. bindR (read32 130) (\<lambda>reserve.
       bindR (read32 162) (\<lambda>pool_mint. bindR (read32 194) (\<lambda>fee_account. bindR (read32 226) (\<lambda>token_program.
       bindR (read_u64 258) (\<lambda>total. bindR (read_u64 266) (\<lambda>supply. bindR (read_u64 274) (\<lambda>last_update.
       bindR (ok_or (i64_le data 282) PoolTooShort) (\<lambda>lk_ts. bindR (read_u64 290) (\<lambda>lk_ep. bindR (read32 298) (\<lambda>lk_cust.
       bindR (read_u64 330) (\<lambda>den. bindR (read_u64 338) (\<lambda>num.
       Inr \<lparr> sv_manager = manager, sv_staker = staker, sv_stake_deposit_authority = deposit_authority, sv_stake_withdraw_bump_seed = bump,
             sv_validator_list = validator_list, sv_reserve_stake = reserve, sv_pool_mint = pool_mint, sv_manager_fee_account = fee_account,
             sv_token_program = token_program, sv_total_lamports = total, sv_pool_token_supply = supply, sv_last_update_epoch = last_update,
             sv_lockup = \<lparr> lk_unix_timestamp = lk_ts, lk_epoch = lk_ep, lk_custodian = lk_cust \<rparr>,
             sv_epoch_fee = \<lparr> fee_denominator = den, fee_numerator = num \<rparr> \<rparr>)))))))))))))))))))"

subsection \<open>Stake accounts\<close>

definition delegation_voter :: "nat list \<Rightarrow> pubkey option" where
  "delegation_voter data =
     (case u32_le data 0 of None \<Rightarrow> None | Some tag \<Rightarrow> if tag \<noteq> 2 then None else array32 data 124)"

subsection \<open>Vote accounts\<close>

datatype vote_state_error = VoteTooShort | VoteUnsupportedVersion | VoteMalformed

record vote_sample =
  vs_commission :: nat
  vs_prior_epoch_credit_growth :: bool
  vs_freshness_slot :: nat

definition within_data :: "nat list \<Rightarrow> nat \<Rightarrow> vote_state_error + unit" where
  "within_data data bound = ensure (bound \<le> length data) VoteTooShort"

definition skip_counted :: "nat list \<Rightarrow> nat \<Rightarrow> nat \<Rightarrow> vote_state_error + nat" where
  "skip_counted data cur entry_bytes =
     bindR (ok_or (u64_le data cur) VoteTooShort) (\<lambda>count.
     bindR (ok_or (checked_add 64 cur 8) VoteMalformed) (\<lambda>entries_start.
     bindR (ok_or (checked_mul 64 count entry_bytes) VoteMalformed) (\<lambda>total_bytes.
     bindR (ok_or (checked_add 64 entries_start total_bytes) VoteMalformed) (\<lambda>bound.
     bindR (within_data data bound) (\<lambda>_. Inr bound)))))"

function credit_loop :: "nat list \<Rightarrow> nat \<Rightarrow> nat \<Rightarrow> nat \<Rightarrow> bool \<Rightarrow> vote_state_error + bool" where
  "credit_loop data prior_epoch credits_end entry growth =
     (if entry < credits_end
      then
        bindR (ok_or (u64_le data entry) VoteTooShort) (\<lambda>epoch.
        bindR (if epoch = prior_epoch
               then bindR (ok_or (checked_add 64 entry 8) VoteMalformed) (\<lambda>off.
                    bindR (ok_or (u64_le data off) VoteTooShort) (\<lambda>credits.
                    bindR (ok_or (checked_add 64 entry 16) VoteMalformed) (\<lambda>off.
                    bindR (ok_or (u64_le data off) VoteTooShort) (\<lambda>prev_credits.
                    Inr (credits > prev_credits)))))
               else Inr growth) (\<lambda>growth.
        case checked_add 64 entry 24 of
          None \<Rightarrow> Inl VoteMalformed
        | Some entry' \<Rightarrow> credit_loop data prior_epoch credits_end entry' growth))
      else Inr growth)"
  by pat_completeness auto
termination
  by (relation "measure (\<lambda>(data, prior_epoch, credits_end, entry, growth). credits_end - entry)")
    (auto simp: checked_add_def split: if_split_asm)

definition vote_state_parse :: "nat list \<Rightarrow> nat \<Rightarrow> vote_state_error + vote_sample" where
  "vote_state_parse data prior_epoch =
     bindR (ok_or (u32_le data 0) VoteTooShort) (\<lambda>tag.
     bindR (if tag = 1 then Inr False else if tag = 2 then Inr True else Inl VoteUnsupportedVersion) (\<lambda>has_latency.
     bindR (ok_or (u8_at data 68) VoteTooShort) (\<lambda>commission.
     bindR (ok_or (u64_le data 69) VoteTooShort) (\<lambda>vote_count.
     let entry_bytes = (if has_latency then 13 else 12) in
     bindR (ok_or (checked_add 64 69 8) VoteMalformed) (\<lambda>votes_start.
     bindR (ok_or (checked_mul 64 vote_count entry_bytes) VoteMalformed) (\<lambda>votes_total.
     bindR (ok_or (checked_add 64 votes_start votes_total) VoteMalformed) (\<lambda>votes_end.
     bindR (within_data data votes_end) (\<lambda>_.
     bindR (if vote_count > 0
            then bindR (ok_or (case checked_sub votes_end entry_bytes of
                                 None \<Rightarrow> None
                               | Some off \<Rightarrow> checked_add 64 off (if has_latency then 1 else 0)) VoteMalformed) (\<lambda>slot_off.
                 bindR (ok_or (u64_le data slot_off) VoteTooShort) (\<lambda>slot. Inr (Some slot)))
            else Inr None) (\<lambda>last_vote_slot.
     bindR (ok_or (u8_at data votes_end) VoteTooShort) (\<lambda>opt_tag.
     bindR (ok_or (checked_add 64 votes_end 1) VoteMalformed) (\<lambda>cur.
     bindR (if opt_tag = 0 then Inr cur
            else if opt_tag = 1
            then bindR (ok_or (checked_add 64 cur 8) VoteMalformed) (\<lambda>cur. bindR (within_data data cur) (\<lambda>_. Inr cur))
            else Inl VoteMalformed) (\<lambda>cur.
     bindR (skip_counted data cur 40) (\<lambda>cur.
     bindR (ok_or (checked_add 64 cur (32 * 48 + 8 + 1)) VoteMalformed) (\<lambda>cur.
     bindR (within_data data cur) (\<lambda>_.
     bindR (ok_or (u64_le data cur) VoteTooShort) (\<lambda>credit_count.
     bindR (ok_or (checked_add 64 cur 8) VoteMalformed) (\<lambda>cur.
     bindR (ok_or (checked_mul 64 credit_count 24) VoteMalformed) (\<lambda>credits_total.
     bindR (ok_or (checked_add 64 cur credits_total) VoteMalformed) (\<lambda>credits_end.
     bindR (within_data data credits_end) (\<lambda>_.
     bindR (credit_loop data prior_epoch credits_end cur False) (\<lambda>growth.
     bindR (ok_or (u64_le data credits_end) VoteTooShort) (\<lambda>last_timestamp_slot.
     bindR (ok_or (checked_add 64 credits_end 16) VoteMalformed) (\<lambda>bound.
     bindR (within_data data bound) (\<lambda>_.
     Inr \<lparr> vs_commission = commission, vs_prior_epoch_credit_growth = growth,
           vs_freshness_slot = (case last_vote_slot of Some slot \<Rightarrow> max slot last_timestamp_slot | None \<Rightarrow> last_timestamp_slot) \<rparr>
     ))))))))))))))))))))))))"

subsection \<open>Validator lists\<close>

datatype validator_list_error = ListTooShort | NotValidatorList | EntriesTruncated

record validator_list_header =
  vl_max_validators :: nat
  vl_len :: nat

record validator_entry =
  ve_active_stake_lamports :: nat
  ve_transient_stake_lamports :: nat
  ve_last_update_epoch :: nat
  ve_transient_seed_suffix :: nat
  ve_validator_seed_suffix :: nat
  ve_status :: nat
  ve_vote_account_address :: pubkey

datatype stake_status = SActive | DeactivatingTransient | ReadyForRemoval | DeactivatingValidator | DeactivatingAll

definition stake_status_from_u8 :: "nat \<Rightarrow> stake_status option" where
  "stake_status_from_u8 v =
     (if v = 0 then Some SActive else if v = 1 then Some DeactivatingTransient else if v = 2 then Some ReadyForRemoval
      else if v = 3 then Some DeactivatingValidator else if v = 4 then Some DeactivatingAll else None)"

definition parse_header :: "nat list \<Rightarrow> validator_list_error + validator_list_header" where
  "parse_header data =
     (if length data < 9 then Inl ListTooShort
      else if data ! 0 \<noteq> 2 then Inl NotValidatorList
      else
        bindR (ok_or (u32_le data 1) ListTooShort) (\<lambda>max_validators.
        bindR (ok_or (u32_le data 5) ListTooShort) (\<lambda>n.
        bindR (ok_or (case checked_mul 64 n 73 of None \<Rightarrow> None | Some b \<Rightarrow> checked_add 64 b 9) EntriesTruncated) (\<lambda>declared_end.
        if declared_end > length data then Inl EntriesTruncated
        else Inr \<lparr> vl_max_validators = max_validators, vl_len = n \<rparr>))))"

definition entry_at :: "nat list \<Rightarrow> nat \<Rightarrow> validator_entry option" where
  "entry_at data i =
     (case parse_header data of
        Inl _ \<Rightarrow> None
      | Inr header \<Rightarrow>
          if i \<ge> vl_len header then None
          else
          (let base = 9 + i * 73 in
           case (u64_le data base, u64_le data (base + 8), u64_le data (base + 16), u64_le data (base + 24), u32_le data (base + 36),
                 u8_at data (base + 40), array32 data (base + 41)) of
             (Some active, Some transient, Some updated, Some tseed, Some vseed, Some status, Some vote) \<Rightarrow>
               Some \<lparr> ve_active_stake_lamports = active, ve_transient_stake_lamports = transient, ve_last_update_epoch = updated,
                      ve_transient_seed_suffix = tseed, ve_validator_seed_suffix = vseed, ve_status = status,
                      ve_vote_account_address = vote \<rparr>
           | _ \<Rightarrow> None))"

subsection \<open>Positions of the core program\<close>

datatype position_view_error = PositionTooShort | PositionBadDiscriminator

definition POSITION_DISCRIMINATOR :: "nat list" where
  "POSITION_DISCRIMINATOR = [170, 188, 143, 228, 122, 64, 247, 208]"

definition position_view_parse :: "nat list \<Rightarrow> position_view_error + position_view" where
  "position_view_parse data =
     (if length data < 213 then Inl PositionTooShort
      else if take 8 data \<noteq> POSITION_DISCRIMINATOR then Inl PositionBadDiscriminator
      else
        bindR (ok_or (array32 data 8) PositionTooShort) (\<lambda>owner.
        bindR (ok_or (array32 data 40) PositionTooShort) (\<lambda>mint.
        bindR (ok_or (u64_le data 72) PositionTooShort) (\<lambda>ink.
        bindR (ok_or (u64_le data 181) PositionTooShort) (\<lambda>nonce.
        Inr \<lparr> pos_owner = owner, pos_collateral_mint = mint, pos_ink = ink, pos_ink_nonce = nonce \<rparr>)))))"

subsection \<open>The parser agrees with the layout of the core program\<close>

text \<open>Serialisation of a position account: the discriminator and the fields in their order of declaration, each
  integer little-endian at its width (\<^verbatim>\<open>Position\<close> and its \<^verbatim>\<open>SPACE\<close> in \<^verbatim>\<open>state/position.rs\<close>).\<close>

fun to_le_bytes :: "nat \<Rightarrow> nat \<Rightarrow> nat list" where
  "to_le_bytes 0 v = []"
| "to_le_bytes (Suc n) v = v mod 256 # to_le_bytes n (v div 256)"

definition key_bytes :: "pubkey \<Rightarrow> nat list" where
  "key_bytes k = rev (to_le_bytes 32 k)"

definition i64_bytes :: "int \<Rightarrow> nat list" where
  "i64_bytes v = to_le_bytes 8 (nat (v mod 2 ^ 64))"

definition position_bytes :: "position \<Rightarrow> nat \<Rightarrow> nat list" where
  "position_bytes p bump = POSITION_DISCRIMINATOR @ key_bytes (p_owner p) @ key_bytes (p_collateral_mint p) @ to_le_bytes 8 (p_ink p) @
     to_le_bytes 16 (p_recorded_debt p) @ to_le_bytes 2 (p_user_rate_bps p) @ to_le_bytes 1 bump @ i64_bytes (p_last_debt_update p) @
     to_le_bytes 16 (p_stake p) @ to_le_bytes 16 (p_redist_l_coll_snapshot p) @ to_le_bytes 16 (p_redist_l_art_snapshot p) @
     to_le_bytes 8 (p_reserve_lamports p) @ to_le_bytes 2 (p_bucket p) @ to_le_bytes 8 (p_coll_surplus p) @
     i64_bytes (p_last_rate_adjust_ts p) @ to_le_bytes 8 (p_ink_nonce p) @ replicate 24 0"

lemma length_to_le_bytes [simp]: "length (to_le_bytes n v) = n"
  by (induction n arbitrary: v) simp_all

lemma from_to_le_bytes: "from_le_bytes (to_le_bytes n v) = v mod 256 ^ n"
  by (induction n arbitrary: v) (simp_all add: mod_mult2_eq)

lemma key_bytes_roundtrip: "length (key_bytes k) = 32" "k < 2 ^ 256 \<Longrightarrow> key_of_bytes (key_bytes k) = k"
  by (simp_all add: key_bytes_def key_of_bytes_def from_to_le_bytes)

lemma byte_slice_at: "length pre = off \<Longrightarrow> length mid = n \<Longrightarrow> byte_slice (pre @ mid @ post) off n = Some mid"
  by (simp add: byte_slice_def)

text \<open>C40. The controller reads a position exactly as the core program stores it: whatever the other fields hold, the
  four fields it uses come back unchanged from the serialised account.\<close>

theorem position_view_roundtrip:
  assumes "p_owner p < 2 ^ 256" "p_collateral_mint p < 2 ^ 256" "p_ink p < 2 ^ 64" "p_ink_nonce p < 2 ^ 64"
  shows "position_view_parse (position_bytes p bump) =
    Inr \<lparr> pos_owner = p_owner p, pos_collateral_mint = p_collateral_mint p, pos_ink = p_ink p, pos_ink_nonce = p_ink_nonce p \<rparr>"
proof -
  let ?b = "position_bytes p bump"
  have len: "length ?b = 213" "take 8 ?b = POSITION_DISCRIMINATOR"
    by (simp_all add: position_bytes_def POSITION_DISCRIMINATOR_def key_bytes_roundtrip(1) i64_bytes_def)
  have "byte_slice ?b 8 32 = Some (key_bytes (p_owner p))"
    unfolding position_bytes_def by (rule byte_slice_at) (simp_all add: POSITION_DISCRIMINATOR_def key_bytes_roundtrip(1))
  moreover have "byte_slice ?b 40 32 = Some (key_bytes (p_collateral_mint p))"
    by (simp add: position_bytes_def byte_slice_def POSITION_DISCRIMINATOR_def key_bytes_roundtrip(1) i64_bytes_def)
  moreover have "byte_slice ?b 72 8 = Some (to_le_bytes 8 (p_ink p))"
    by (simp add: position_bytes_def byte_slice_def POSITION_DISCRIMINATOR_def key_bytes_roundtrip(1) i64_bytes_def)
  moreover have "byte_slice ?b 181 8 = Some (to_le_bytes 8 (p_ink_nonce p))"
    by (simp add: position_bytes_def byte_slice_def POSITION_DISCRIMINATOR_def key_bytes_roundtrip(1) i64_bytes_def)
  ultimately show ?thesis
    using assms len by (simp add: position_view_parse_def array32_def u64_le_def key_bytes_roundtrip(2) from_to_le_bytes)
qed

theorem position_view_roundtrip_witness:
  "position_view_parse (position_bytes (position0\<lparr> p_ink := 9, p_ink_nonce := 3 \<rparr>) 255) =
     Inr \<lparr> pos_owner = 5, pos_collateral_mint = 1, pos_ink = 9, pos_ink_nonce = 3 \<rparr>"
  using position_view_roundtrip [of "position0\<lparr> p_ink := 9, p_ink_nonce := 3 \<rparr>" 255] by (simp add: position0_def)

end
