(* ===== verification/Grace_Window.thy ===== *)
theory Grace_Window
  imports Price_Safety Redeem_Safety Governance_Safety
begin

text \<open>
  The liquidation grace of a market across every instruction that writes the market: no instruction
  brings its end forward, so a borrower keeps the window that a raised minimum ratio opened, whatever
  else happens to the market in the meantime.
\<close>

subsection \<open>Every instruction that writes a market\<close>

text \<open>
  One rule per handler with a market in its result, price updates and governance included; the
  accounts it is called with, the clock and the rest of the state are arbitrary in each step.
\<close>

inductive market_step :: "'l runtime \<Rightarrow> sdk \<Rightarrow> 'u u256 \<Rightarrow> 'v u256x \<Rightarrow> market \<Rightarrow> market \<Rightarrow> bool" for T S U X where
  deposit: "deposit_handler T clk A n l m p bm = Inr (l', m', p', bm') \<Longrightarrow> market_step T S U X m m'"
| withdraw: "withdraw_handler T clk A n l m p bm = Inr (l', m', p', bm') \<Longrightarrow> market_step T S U X m m'"
| borrow: "borrow_handler T clk A n l m p bm = Inr (l', m', p', bm') \<Longrightarrow> market_step T S U X m m'"
| repay: "repay_handler T clk A n l m p bm = Inr (l', m', p', bm') \<Longrightarrow> market_step T S U X m m'"
| adjust_rate: "adjust_rate_handler clk A n m p bm = Inr (m', p', bm') \<Longrightarrow> market_step T S U X m m'"
| claim_coll_surplus: "claim_coll_surplus_handler T A l m p = Inr (l', m', p') \<Longrightarrow> market_step T S U X m m'"
| liquidate: "liquidate_handler T clk LA l m p rp grid bm b bs = Inr (l', m', p', rp', grid', bm', b', bs') \<Longrightarrow> market_step T S U X m m'"
| redeem: "redeem_handler U T clk RA cands n l m bm accts = Inr (l', m', bm', accts') \<Longrightarrow> market_step T S U X m m'"
| urgent_redeem: "urgent_redeem_handler T clk RA cands n l m bm accts = Inr (l', m', bm', accts') \<Longrightarrow> market_step T S U X m m'"
| settle_bad_debt: "settle_bad_debt_handler T MA n l gate m = Inr (l', m') \<Longrightarrow> market_step T S U X m m'"
| shutdown: "shutdown_handler clk m = Inr m' \<Longrightarrow> market_step T S U X m m'"
| refresh: "refresh_market_handler T clk MA l m b bs = Inr (l', m', b', bs') \<Longrightarrow> market_step T S U X m m'"
| withdraw_surplus: "withdraw_surplus_handler T MA n l gate m = Inr (l', m') \<Longrightarrow> market_step T S U X m m'"
| sweep: "sweep_protocol_collateral_handler T MA n l gate m = Inr (l', m') \<Longrightarrow> market_step T S U X m m'"
| update_price: "update_price_handler S X clk ep PA cfg r m o1 = Inr (m', o1') \<Longrightarrow> market_step T S U X m m'"
| execute_param: "execute_param_handler T clk GA l op m orc = Inr (l', m', orc') \<Longrightarrow> market_step T S U X m m'"
| init_reactor_pool: "init_reactor_pool_handler T AA l cfg m = Inr (l', m', rp, grid) \<Longrightarrow> market_step T S U X m m'"
| init_insurance_buffer: "init_insurance_buffer_handler T AA l cfg m = Inr (l', m', b) \<Longrightarrow> market_step T S U X m m'"
| init_debt_ceiling_line: "init_debt_ceiling_line_handler T clk AA line gap ttl l cfg m = Inr (l', m', dcl) \<Longrightarrow> market_step T S U X m m'"
| set_debt_ceiling_line: "set_debt_ceiling_line_handler clk AA line gap ttl cfg m dcl = Inr (m', dcl') \<Longrightarrow> market_step T S U X m m'"
| bump_debt_ceiling: "bump_debt_ceiling_handler clk m dcl = Inr (m', dcl') \<Longrightarrow> market_step T S U X m m'"
| guardian_derisk: "guardian_derisk_handler clk AA secs cfg m = Inr m' \<Longrightarrow> market_step T S U X m m'"
| rebind_feeds: "rebind_feeds_handler clk AA args cfg m o1 = Inr (m', o1') \<Longrightarrow> market_step T S U X m m'"

subsection \<open>No instruction shortens the grace\<close>

named_theorems grace

lemma accrue_grace [grace]: "accrue m now = Inr m' \<Longrightarrow> m_liq_grace_until m' = m_liq_grace_until m"
  by (rule accrue_Inr [of m now m']) simp_all

lemma reweight_grace [grace]: "reweight m p w = Inr m' \<Longrightarrow> m_liq_grace_until m' = m_liq_grace_until m"
  by (auto simp: reweight_Inr)

lemma set_stake_grace [grace]: "set_stake m p = Inr (m', p') \<Longrightarrow> m_liq_grace_until m' = m_liq_grace_until m"
  by (rule set_stake_Inr [of m p m' p']) simp_all

lemma deposit_grace:
  "deposit_handler T clk A n l m p bm = Inr (l', m', p', bm') \<Longrightarrow> m_liq_grace_until m' = m_liq_grace_until m"
  by (erule deposit_Inr) (auto dest!: grace)

lemma withdraw_grace:
  "withdraw_handler T clk A n l m p bm = Inr (l', m', p', bm') \<Longrightarrow> m_liq_grace_until m' = m_liq_grace_until m"
  by (erule withdraw_Inr) (auto dest!: grace)

lemma borrow_grace:
  assumes "borrow_handler T clk A n l m p bm = Inr (l', m', p', bm')"
  shows "m_liq_grace_until m' = m_liq_grace_until m"
  using assms
proof (cases rule: borrow_Inr)
  case h: (1 m1 p1 fee d m2 m3 p4)
  have "m_liq_grace_until m2 = m_liq_grace_until m1" by (rule limiter_step [OF h(18)]) simp
  then show ?thesis using accrue_grace [OF h(4)] reweight_grace [OF h(19)] set_stake_grace [OF h(20)] by simp
qed

lemma repay_grace:
  assumes "repay_handler T clk A n l m p bm = Inr (l', m', p', bm')"
  shows "m_liq_grace_until m' = m_liq_grace_until m"
  using assms
proof (cases rule: repay_Inr)
  case (idle m1 p1)
  then show ?thesis by (auto dest!: grace)
next
  case h: (paid m1 p1 d m2 m3 p3)
  then show ?thesis using accrue_grace [OF h(3)] reweight_grace [OF h(8)] set_stake_grace [OF h(9)] by (simp split: if_split_asm)
qed

lemma adjust_rate_grace:
  assumes "adjust_rate_handler clk A n m p bm = Inr (m', p', bm')"
  shows "m_liq_grace_until m' = m_liq_grace_until m"
  using assms
proof (cases rule: adjust_rate_Inr)
  case h: (1 m1 p1 m2 p2 m3 p4)
  have "m_liq_grace_until m2 = m_liq_grace_until m1" by (rule charge_premature_fee_Inr [OF h(7)]) simp_all
  then show ?thesis using accrue_grace [OF h(5)] reweight_grace [OF h(8)] set_stake_grace [OF h(9)] by simp
qed

lemma liq_rest_grace:
  assumes "liq_rest T A s c l m b bs = Inr (l', m', b', bs')"
  shows "m_liq_grace_until m' = m_liq_grace_until m"
proof (cases "0 < redist s")
  case True
  then have "liq_redistribute c (redist s) m = Inr m'" using assms by (auto simp: liq_rest_def bindR_Inr)
  then show ?thesis by (rule liq_redistribute_effect) simp
next
  case False
  then show ?thesis
    using assms unfolding liq_rest_def if_Inr Let_def handler_Inr by (auto simp: liq_unhomed_def if_Inr liq_backstop_Inr)
qed

lemma liquidate_grace:
  assumes "liquidate_handler T clk A l m p rp grid bm b bs = Inr (l', m', p', rp', grid', bm', b', bs')"
  shows "m_liq_grace_until m' = m_liq_grace_until m" "m_liq_grace_until m \<le> clock_slot clk"
proof -
  have "m_liq_grace_until m' = m_liq_grace_until m \<and> m_liq_grace_until m \<le> clock_slot clk"
    using assms
  proof (cases rule: liquidate_Inr)
    case h: (1 m1 p1 m2 p2 gas dc m3 s csp cr l1 l2 m4 l3)
    note o = liq_open_Inr [OF h(2)]
    have "m_liq_grace_until m2 = m_liq_grace_until m1" by (rule liq_seize_Inr [OF h(3)]) simp
    moreover have "m_liq_grace_until m3 = m_liq_grace_until m2" by (rule liq_split_Inr [OF h(4)]) simp
    ultimately show ?thesis
      using accrue_grace [OF o(1)] o(7) liq_rest_grace [OF h(7)] reweight_grace [OF h(9)] by (simp add: liq_snapshot_def)
  qed
  then show "m_liq_grace_until m' = m_liq_grace_until m" "m_liq_grace_until m \<le> clock_slot clk" by simp_all
qed

lemma redeem_apply_grace [grace]:
  "redeem_apply n c w d m p bm = Inr (m', p', bm', bu) \<Longrightarrow> m_liq_grace_until m' = m_liq_grace_until m"
  unfolding redeem_apply_def Let_def handler_Inr by (auto dest!: grace)

lemma redeem_draw_grace:
  "redeem_draw mid st c = Inr st' \<Longrightarrow> m_liq_grace_until (fst st') = m_liq_grace_until (fst st)"
  by (cases st) (auto elim!: redeem_draw_Inr dest!: grace)

lemma redeem_admit_grace:
  "redeem_admit now mint lowest st c = Inr st' \<Longrightarrow> m_liq_grace_until (fst st') = m_liq_grace_until (fst st)"
  by (cases st) (auto elim!: redeem_admit_Inr dest!: grace)

lemma urgent_step_grace:
  "urgent_step now mid mint st c = Inr st' \<Longrightarrow> m_liq_grace_until (fst st') = m_liq_grace_until (fst st)"
  by (cases st) (auto elim!: urgent_step_Inr dest!: grace)

lemma foldR_grace:
  assumes "foldR f st xs = Inr st'" "\<And>st x st'. f st x = Inr st' \<Longrightarrow> m_liq_grace_until (fst st') = m_liq_grace_until (fst st)"
  shows "m_liq_grace_until (fst st') = m_liq_grace_until (fst st)"
  using assms(1) by (rule foldR_invariant [where P = "\<lambda>s. m_liq_grace_until (fst s) = m_liq_grace_until (fst st)"]) (auto dest: assms(2))

lemma redeem_grace:
  assumes "redeem_handler U T clk A cands n l m bm accts = Inr (l', m', bm', accts')"
  shows "m_liq_grace_until m' = m_liq_grace_until m"
  using assms
proof (cases rule: redeem_Inr)
  case h: (1 m1 mid m2 accts2 seen order m3 remaining drawn m4 rate paid)
  have "m_liq_grace_until m2 = m_liq_grace_until m1" using foldR_grace [OF h(8) redeem_admit_grace] by simp
  moreover have "m_liq_grace_until m3 = m_liq_grace_until m2" using foldR_grace [OF h(9) redeem_draw_grace] by simp
  moreover have "m_liq_grace_until m4 = m_liq_grace_until m3" by (subst redeem_base_rate_eq [OF h(11)]) simp
  moreover have "m_liq_grace_until m' = m_liq_grace_until m4" using h(12) unfolding redeem_fee_def Let_def handler_Inr by auto
  ultimately show ?thesis using accrue_grace [OF h(5)] by simp
qed

lemma urgent_redeem_grace:
  assumes "urgent_redeem_handler T clk A cands n l m bm accts = Inr (l', m', bm', accts')"
  shows "m_liq_grace_until m' = m_liq_grace_until m"
proof -
  obtain m1 mid st where h: "accrue m (unix_timestamp clk) = Inr m1"
    "foldR (urgent_step (unix_timestamp clk) mid (re_collateral_mint A)) (m1, accts, bm, [], n, 0) cands = Inr st" "m' = fst st"
    using assms unfolding urgent_redeem_handler_def Let_def handler_Inr by (auto intro: that)
  show ?thesis using accrue_grace [OF h(1)] foldR_grace [OF h(2) urgent_step_grace] h(3) by simp
qed

lemma refresh_grace:
  assumes "refresh_market_handler T clk A l m b bs = Inr (l', m', b', bs')"
  shows "m_liq_grace_until m' = m_liq_grace_until m"
  using assms unfolding refresh_market_handler_def handler_Inr if_Inr
  by (auto dest!: accrue_grace simp: handler_Inr split: option.splits)

lemma execute_param_grace:
  assumes "execute_param_handler T clk A l op m orc = Inr (l', m', orc')"
  shows "m_liq_grace_until m \<le> m_liq_grace_until m'"
    "tp_param op = PMcr \<Longrightarrow> m_mcr_bps m < tp_value op \<Longrightarrow> clock_slot clk + MCR_RAISE_GRACE_SLOTS < 2 ^ 64 \<Longrightarrow>
       clock_slot clk + MCR_RAISE_GRACE_SLOTS \<le> m_liq_grace_until m'"
proof -
  obtain u where m': "(m', orc') = apply_param (m\<lparr> m_liq_grace_until := u \<rparr>) orc (tp_param op) (tp_value op)" "m_liq_grace_until m \<le> u"
    and v: "validate_param_for_market m orc (tp_param op) (tp_value op) = Inr ()"
    and u: "tp_param op = PMcr \<and> m_mcr_bps m < as_u16 (tp_value op) \<longrightarrow> saturating_add 64 (clock_slot clk) MCR_RAISE_GRACE_SLOTS \<le> u"
    using assms by (rule execute_param_Inr)
  have m'u: "m_liq_grace_until m' = u" using m'(1) by (cases "tp_param op") simp_all
  then show "m_liq_grace_until m \<le> m_liq_grace_until m'" using m'(2) by simp
  show "clock_slot clk + MCR_RAISE_GRACE_SLOTS \<le> m_liq_grace_until m'"
    if "tp_param op = PMcr" "m_mcr_bps m < tp_value op" "clock_slot clk + MCR_RAISE_GRACE_SLOTS < 2 ^ 64"
  proof -
    have "tp_value op \<le> MAX_MCR_BPS" using validate_param_Inr(1) [OF v] that(1) by (simp add: ensure_Inr)
    then show ?thesis using u m'u that by (simp add: MAX_MCR_BPS_def saturating_add_def)
  qed
qed

lemma market_step_grace:
  assumes "market_step T S U X m m'" "u256x_laws X"
  shows "m_liq_grace_until m \<le> m_liq_grace_until m'"
  using assms(1)
proof cases
  case (update_price clk ep PA cfg r o1 o1')
  show ?thesis using update_price_only [OF assms(2) update_price] by (simp add: only_prices_def)
qed (auto dest!: deposit_grace withdraw_grace borrow_grace repay_grace adjust_rate_grace liquidate_grace(1) redeem_grace
    urgent_redeem_grace refresh_grace execute_param_grace(1) accrue_grace
  simp: claim_coll_surplus_handler_def settle_bad_debt_handler_def shutdown_handler_def withdraw_surplus_handler_def
    sweep_protocol_collateral_handler_def init_reactor_pool_handler_def init_insurance_buffer_handler_def
    init_debt_ceiling_line_handler_def set_debt_ceiling_line_handler_def bump_debt_ceiling_handler_def guardian_derisk_handler_def
    rebind_feeds_handler_def apply_line_def Let_def handler_Inr)

lemma market_steps_grace:
  assumes "(market_step T S U X)\<^sup>*\<^sup>* m m'" "u256x_laws X"
  shows "m_liq_grace_until m \<le> m_liq_grace_until m'"
  using assms(1) by (induction rule: rtranclp_induct) (auto dest!: market_step_grace [OF _ assms(2)])

subsection \<open>The window after a raised ratio\<close>

text \<open>C35. A raised minimum ratio cannot surprise a borrower: once the change is executed, whatever instructions run on the
  market afterwards, in any order and with any accounts (price updates, further governance changes, redemptions and
  other borrowers' operations included), no liquidation in the market succeeds for the next 9000 slots, against any position.\<close>

theorem mcr_raise_grace:
  assumes "execute_param_handler T clk A l op m orc = Inr (l', m', orc')" "tp_param op = PMcr"
    and "m_mcr_bps m < tp_value op" "clock_slot clk + MCR_RAISE_GRACE_SLOTS < 2 ^ 64"
    and "(market_step T S U X)\<^sup>*\<^sup>* m' m''" "u256x_laws X"
    and "clock_slot clk' < clock_slot clk + MCR_RAISE_GRACE_SLOTS"
  shows "liquidate_handler T' clk' A' l'' m'' p rp grid bm b bs \<noteq> Inr r"
proof
  assume "liquidate_handler T' clk' A' l'' m'' p rp grid bm b bs = Inr r"
  then have "m_liq_grace_until m'' \<le> clock_slot clk'" by (cases r) (auto dest: liquidate_grace(2))
  moreover have "m_liq_grace_until m' \<le> m_liq_grace_until m''" using assms(5,6) by (rule market_steps_grace)
  ultimately show False using execute_param_grace(2) [OF assms(1-4)] assms(7) by simp
qed

theorem mcr_raise_grace_witness:
  "\<exists>m'' e. (market_step ledger_runtime sdk1 word256 word256x)\<^sup>*\<^sup>* (market0\<lparr> m_liq_grace_until := 9000, m_mcr_bps := 12000 \<rparr>) m'' \<and>
     m_debt_spot m'' = 100 * RAY div 1000 \<and>
     liquidate_handler ledger_runtime clock0 liq_accounts0 (liq_ledger0 1000 0 0 1000) m'' (position1 700) pool0 (replicate 512 0)
       bitmap50 buffer0 None = Inl e"
proof -
  let ?m = "market0\<lparr> m_liq_grace_until := 9000, m_mcr_bps := 12000 \<rparr>"
  let ?m' = "?m\<lparr> m_mint_frozen := False, m_spot := 100 * RAY div 1000, m_debt_spot := 100 * RAY div 1000 \<rparr>"
  let ?h = "liquidate_handler ledger_runtime clock0 liq_accounts0 (liq_ledger0 1000 0 0 1000) ?m' (position1 700) pool0 (replicate 512 0)
    bitmap50 buffer0 None"
  have run: "(market_step ledger_runtime sdk1 word256 word256x)\<^sup>*\<^sup>* ?m ?m'"
    by (intro r_into_rtranclp market_step.update_price) (rule update_price_grace1)
  have "?h \<noteq> Inr r" for r
    by (rule mcr_raise_grace [OF gov_execute0 _ _ _ run word256x_laws])
      (simp_all add: gov_op0_def market0_def clock0_def MCR_RAISE_GRACE_SLOTS_def)
  then obtain e where "?h = Inl e" by (cases ?h) auto
  then show ?thesis using run by (intro exI [of _ ?m'] exI [of _ e]) simp
qed

end
