(* ===== verification/Spec2Isabelle.thy ===== *)
theory Spec2Isabelle
  imports Prelude Fixed_Point Interest Recovery Rate_Bucket Redemption_Fee Redistribution
    Reactor_Math Cdp_Safety Reactor_Ops Market_Ops Backstop Liquidate_Backing Redeem Redeem_Safety
    Governance Protocol_Admin Governance_Safety Oracle Price Price_Safety Stake_Math Stake_View
    Grace_Window
begin

text \<open>
  A verification library for the Fusion stablecoin. Paths below are relative to \<^verbatim>\<open>src/\<close>.

  \<^bold>\<open>The program.\<close> A borrower locks collateral in a position of a market and mints fUSD against it, at an
  interest rate of the borrower's choice. The collateral is priced by Pyth, Switchboard, an average
  over samples of an exchange pool and, for staking tokens, the exchange rate of the stake pool. A
  position below the minimum ratio is liquidated: its debt is burned against the deposits of the
  reactor pool, or redistributed to the other positions, or paid by the insurance buffer of the
  market and the global backstop, in this order. A holder redeems fUSD for collateral of the
  positions with the lowest interest rates. Governance changes parameters behind a timelock. A
  second program allocates the stake behind the fuSOL token to validators.

  \<^bold>\<open>Conventions\<close> (theory \<open>Prelude\<close>). A fallible computation returns \<open>Inl\<close> of a failure (an error code of the
  program, a rejected account constraint, an error of another program, or a panic) or \<open>Inr\<close> of its
  result, and \<open>bindR\<close> is the question mark operator. Unsigned integers are natural numbers with their
  width written out at every checked, saturating or wrapping operation; signed ones are integers;
  the words of the bitmaps and of the 256-bit products are machine words. A handler takes the
  accounts it is called with as a record, whose constraints it checks first, and the state it may
  change, and returns that state changed. A failed handler returns no state, as a failed transaction
  writes nothing. Addresses are natural numbers.

  \<^bold>\<open>Parameters.\<close> Code outside the repository is an argument of the definitions that call it. The token and
  system programs are the record \<open>runtime\<close> with the laws \<open>token_laws\<close>, which hold of the concrete ledger
  \<open>ledger_runtime\<close> (theory \<open>Runtime\<close>). The 256-bit integers of the package \<^verbatim>\<open>bnum\<close> are the records \<open>u256\<close> and
  \<open>u256x\<close> with the laws \<open>u256_laws\<close> and \<open>u256x_laws\<close>, which hold of 256-bit words (\<open>Fixed_Point\<close>, \<open>Oracle\<close>). The
  decoders of Pyth and Switchboard accounts are the record \<open>sdk\<close>, and the epoch schedule of the chain is
  \<open>epochs\<close>; nothing is assumed of these.

  \<^bold>\<open>Arithmetic crates\<close> (\<^verbatim>\<open>crates/fusd-math/src/\<close>).
  \<^item> \<open>Fixed_Point\<close> (\<^verbatim>\<open>lib.rs\<close>): both compile-time bodies of the wide product and quotient agree, the roundings
    are exact, overflow is detected exactly, and powers stay below the true power (C6 to C8).
  \<^item> \<open>Interest\<close> (\<^verbatim>\<open>interest.rs\<close>): the aggregate interest covers that of the positions (C9).
  \<^item> \<open>Recovery\<close> (\<^verbatim>\<open>recovery.rs\<close>): the loss waterfall (C10).
  \<^item> \<open>Rate_Bucket\<close> (\<^verbatim>\<open>rate_bucket.rs\<close>): the bitmap refines a set of buckets, through the locale \<open>bucket_set\<close>,
    and ratios are compared without rounding (C11, C12).
  \<^item> \<open>Redemption_Fee\<close> (\<^verbatim>\<open>redemption.rs\<close>): geometric decay of the base rate, its increase and the fee (C13).
  \<^item> \<open>Redistribution\<close> (\<^verbatim>\<open>redistribution.rs\<close>): the accumulators, through the locale \<open>error_feedback\<close>, never promise
    more than was put in and lose bounded dust (C14, C15).
  \<^item> \<open>Reactor_Math\<close> (\<^verbatim>\<open>reactor_pool.rs\<close>): the product and sum accounting of the pool (C16, C17).
  \<^item> \<open>Oracle\<close> (\<^verbatim>\<open>oracle_scale.rs\<close>, and \<^verbatim>\<open>lib.rs\<close> and \<^verbatim>\<open>twap.rs\<close> of \<^verbatim>\<open>crates/fusd-oracle/src/\<close>): price scaling,
    aggregation and the observation ring.

  \<^bold>\<open>Core program\<close> (\<^verbatim>\<open>programs/fusd-core/src/\<close>, its handlers under \<^verbatim>\<open>instructions/\<close>).
  \<^item> \<open>Core_State\<close> (\<^verbatim>\<open>errors.rs\<close>, \<^verbatim>\<open>constants.rs\<close>, \<^verbatim>\<open>state/\<close>) and \<open>Runtime\<close> (\<^verbatim>\<open>reconcile.rs\<close>); \<open>Ledger_Frame\<close> is what a sequence of token
    operations leaves alone.
  \<^item> \<open>Cdp_Math\<close> (\<^verbatim>\<open>cdp.rs\<close>): health, the size of a seizure and the rate limiter (C18, C19).
  \<^item> \<open>Supply_Transition\<close> (\<^verbatim>\<open>supply_transition.rs\<close>): the transitions over a numeric trait, whose laws are the
    locale \<open>supply_arith\<close>; \<open>Accrual\<close> (\<^verbatim>\<open>accrual.rs\<close>, \<^verbatim>\<open>redist.rs\<close>); \<open>Buckets\<close> (\<^verbatim>\<open>bucket.rs\<close>): bitmap and member
    counts stay coupled (C20).
  \<^item> \<open>Books\<close>, \<open>Backing\<close>, \<open>Map_Sums\<close> and \<open>Market_Books\<close>: the bookkeeping every handler shares, the cover the market
    keeps for the claims of its positions, and the invariant of the books of a whole market.
  \<^item> \<open>Cdp_Ops\<close> (\<^verbatim>\<open>open_position.rs\<close>, \<^verbatim>\<open>deposit.rs\<close>, \<^verbatim>\<open>withdraw.rs\<close>, \<^verbatim>\<open>borrow.rs\<close>, \<^verbatim>\<open>repay.rs\<close>, \<^verbatim>\<open>adjust_rate.rs\<close>,
    \<^verbatim>\<open>close_position.rs\<close>), \<open>Cdp_Backing\<close> and \<open>Cdp_Safety\<close>: the borrower instructions are exact in what they move,
    keep positions healthy and the others covered, and obey only the owner (C21 to C24).
  \<^item> \<open>Market_Ops\<close> (surplus claims, bad debt, shutdown, buffer, refresh, protocol surplus) and \<open>Reactor_Ops\<close> (the
    depositor instructions of the reactor pool and \<^verbatim>\<open>reactor.rs\<close>, C25).
  \<^item> \<open>Backstop\<close> (\<^verbatim>\<open>global_backstop.rs\<close>): limits on draws and withdrawals (C26, C27).
  \<^item> \<open>Liquidate\<close> (\<^verbatim>\<open>liquidate.rs\<close>), one definition per stage of the handler, and \<open>Liquidate_Backing\<close>: a liquidation
    was allowed and homes every unit of debt and collateral (C28).
  \<^item> \<open>Redeem\<close> (\<^verbatim>\<open>redeem.rs\<close>, \<^verbatim>\<open>urgent_redeem.rs\<close>) and \<open>Redeem_Safety\<close>: redemption pays at most the value burned, in
    order of the collateral ratio, and closed accounts do not block it (C29 to C31).
  \<^item> \<open>Governance\<close> (\<^verbatim>\<open>governance.rs\<close>, the parameters of \<^verbatim>\<open>global_backstop.rs\<close>), \<open>Protocol_Admin\<close> (creation of
    protocol, markets and pools, the debt-ceiling line, guardian, feeds, supply reconciliation) and
    \<open>Governance_Safety\<close>: the timelock as an invariant of the step relation \<open>gov_step\<close>, validity of every
    configuration through the locale \<open>tunables\<close>, reading back a change, and the ceiling (C32 to C34, C36).
  \<^item> \<open>Price\<close> (\<^verbatim>\<open>clmm.rs\<close>, \<^verbatim>\<open>stake_pool.rs\<close>, \<^verbatim>\<open>init_market_oracle.rs\<close>, \<^verbatim>\<open>sample_twap.rs\<close>, \<^verbatim>\<open>update_price.rs\<close>) and
    \<open>Price_Safety\<close>: what a price update reads, when it opens minting and what it commits; the average and its
    sampler; the rule for bound feeds (C1 to C5). \<open>rebind_binding\<close> shows that rebinding the feeds of a
    market priced through its own stake pool leaves a binding that its creation refuses.
  \<^item> \<open>Grace_Window\<close>: the relation \<open>market_step\<close> has a rule for every handler that writes a market; none shortens
    the liquidation grace, so a raised minimum ratio gives the borrowers its full window (C35).

  \<^bold>\<open>Stake allocation.\<close> \<open>Stake_Math\<close> (\<^verbatim>\<open>crates/fusion-stake-math/src/\<close>): the distribution of neutral stake ends and is
  fair, directed targets fit, and the life cycle of a validator (C37 to C39). \<open>Stake_View\<close>
  (\<^verbatim>\<open>crates/fusion-stake-view/src/\<close>): the account parsers, and that the parser of positions reads what the core
  program writes (C40).

  \<^bold>\<open>Loops.\<close> No definition has fuel. The loops over candidates, words and bytes recurse on their list; the
  power, the average, the product update (bounded by its own count of scale steps) and the scan of
  vote credits have a termination proof. \<open>neutral_loop\<close> is partial, because the source loops until
  nothing is left, and \<open>distribute_neutral_correct\<close> proves that it returns, within one round for each
  validator with capacity.

  \<^bold>\<open>Not modelled.\<close> Events and the dispatch of instructions (no state); PDA bumps, seeds, account sizes and
  reserved bytes; the zero-copy cast of the ring account; the development-only price override; the
  token metadata call; test code and harnesses of other provers; the vendored stake-pool program;
  and the instructions of \<^verbatim>\<open>programs/fusion-stake-controller/\<close>, which are account plumbing and calls into
  that program around the arithmetic and the parsers above.
\<close>

end
